(* ===== verification/Py_Prelude.thy ===== *)
theory Py_Prelude
  imports Main "HOL-Library.Word" "HOL-Library.Stream"
begin

text \<open>
  Shared vocabulary of the development. A Python function that reads or
  changes the process state (the global Mersenne Twister of the random
  module, the Faker instance, the file system, standard output) is modelled as
  an action on an explicit world record. An action either raises an exception,
  returning the error and the world as it was at the raise, returns a value and
  the new world, or does not return at all (\<open>None\<close>, for the rejection loop
  of \<open>random._randbelow\<close>). Everything here is shared by the component
  theories; the collection \<open>py_monad\<close> holds the equations that evaluate
  the monad and the world accessors, for \<open>simp add: py_monad\<close>.
\<close>

named_theorems py_monad "equations that evaluate actions of the Python state monad"
named_theorems io_frame "actions that leave the file system and standard output unchanged"

subsection \<open>Python exceptions\<close>

text \<open>
  The exceptions the program can raise. \<open>ValueError\<close> comes from
  \<open>random.randrange\<close> on an empty range, \<open>FileNotFoundError\<close> from
  \<open>open\<close> on a missing file, \<open>TypeError\<close> from \<open>csv.writer\<close> on a
  separator that is not one character, \<open>IndexError\<close> from list
  indexing out of range, \<open>StopIteration\<close> from \<open>next\<close> on a
  finished generator, and a bare \<open>Exception(arg)\<close> as \<open>check_name_file\<close>
  raises it, and \<open>SystemExit\<close> from \<open>argparse\<close> (its exit status and the
  message it writes). Each carries Python's message, the path, or the
  \<open>str\<close> of the argument.
\<close>

datatype pyerror =
    ValueError string
  | FileNotFoundError string
  | TypeError string
  | IndexError string
  | StopIteration
  | Exception string
  | SystemExit int string

subsection \<open>The world\<close>

text \<open>
  \<open>mt\<close> is the sequence of 32-bit outputs the global Mersenne Twister
  will produce from now on (\<open>genrand_uint32\<close> in CPython's
  \<open>_randommodule.c\<close>); drawing a word is taking the head of the stream.
  \<open>faker\<close> is the state of the Faker library, of a type the client does not
  know. \<open>files\<close> maps a path to the decoded text of the file, \<open>None\<close> when
  there is no such file. \<open>stdout\<close> is what has been printed so far.
\<close>

record 'f world =
  mt :: "32 word stream"
  faker :: 'f
  files :: "string \<Rightarrow> string option"
  stdout :: string

subsection \<open>The exception-state monad\<close>

type_synonym ('w, 'a) pyM = "'w \<Rightarrow> ((pyerror + 'a) \<times> 'w) option"

definition returnP :: "'a \<Rightarrow> ('w, 'a) pyM" where
  "returnP a w = Some (Inr a, w)"

definition raiseP :: "pyerror \<Rightarrow> ('w, 'a) pyM" where
  "raiseP e w = Some (Inl e, w)"

definition bindP :: "('w, 'a) pyM \<Rightarrow> ('a \<Rightarrow> ('w, 'b) pyM) \<Rightarrow> ('w, 'b) pyM" where
  "bindP m f w =
     (case m w of
        None \<Rightarrow> None
      | Some (Inl e, w') \<Rightarrow> Some (Inl e, w')
      | Some (Inr a, w') \<Rightarrow> f a w')"

text \<open>\<open>getsP\<close> reads the world without changing it.\<close>

definition getsP :: "('w \<Rightarrow> 'a) \<Rightarrow> ('w, 'a) pyM" where
  "getsP f w = Some (Inr (f w), w)"

definition modifyP :: "('w \<Rightarrow> 'w) \<Rightarrow> ('w, unit) pyM" where
  "modifyP f w = Some (Inr (), f w)"

declare returnP_def [py_monad] raiseP_def [py_monad] getsP_def [py_monad] modifyP_def [py_monad]

lemma bindP_returnP [simp, py_monad]: "bindP (returnP a) f = f a"
  by (simp add: bindP_def returnP_def fun_eq_iff)

lemma bindP_raiseP [simp, py_monad]: "bindP (raiseP e) f = raiseP e"
  by (simp add: bindP_def raiseP_def fun_eq_iff)

lemma bindP_return_right [simp]: "bindP m returnP = m"
proof (rule ext)
  fix w
  show "bindP m returnP w = m w"
    by (cases "m w") (auto simp: bindP_def returnP_def split: sum.split)
qed

lemma bindP_assoc: "bindP (bindP m f) g = bindP m (\<lambda>a. bindP (f a) g)"
proof (rule ext)
  fix w
  show "bindP (bindP m f) g w = bindP m (\<lambda>a. bindP (f a) g) w"
    by (cases "m w") (auto simp: bindP_def split: sum.split)
qed

text \<open>How one step of a sequence decides the whole: the three outcomes of the first action.\<close>

lemma bindP_Inr [py_monad]: "m w = Some (Inr a, w') \<Longrightarrow> bindP m f w = f a w'"
  by (simp add: bindP_def)

lemma bindP_Inl [py_monad]: "m w = Some (Inl e, w') \<Longrightarrow> bindP m f w = Some (Inl e, w')"
  by (simp add: bindP_def)

lemma bindP_None [py_monad]: "m w = None \<Longrightarrow> bindP m f w = None"
  by (simp add: bindP_def)

lemma bindP_eq_Inr:
  "bindP m f w = Some (Inr b, w'') \<longleftrightarrow> (\<exists>a w'. m w = Some (Inr a, w') \<and> f a w' = Some (Inr b, w''))"
  by (auto simp: bindP_def split: option.splits sum.splits)

lemma bindP_eq_Inl:
  "bindP m f w = Some (Inl e, w'') \<longleftrightarrow>
     m w = Some (Inl e, w'') \<or> (\<exists>a w'. m w = Some (Inr a, w') \<and> f a w' = Some (Inl e, w''))"
  by (auto simp: bindP_def split: option.splits sum.splits)

lemma bindP_eq_Some:
  "(\<exists>r. bindP m f w = Some r) \<longleftrightarrow>
     (\<exists>r. m w = Some r) \<and> (\<forall>a w'. m w = Some (Inr a, w') \<longrightarrow> (\<exists>r. f a w' = Some r))"
  by (auto simp: bindP_def split: option.splits sum.splits)

subsection \<open>Python's \<open>str\<close> of an integer\<close>

text \<open>Decimal digits, most significant first, with a minus sign for negatives.\<close>

definition decimal_digits :: string where
  "decimal_digits = ''0123456789''"

fun str_nat :: "nat \<Rightarrow> string" where
  "str_nat n =
     (if n < 10 then [decimal_digits ! n]
      else str_nat (n div 10) @ [decimal_digits ! (n mod 10)])"

declare str_nat.simps [simp del]

definition str_int :: "int \<Rightarrow> string" where
  "str_int i = (if i < 0 then CHR ''-'' # str_nat (nat (- i)) else str_nat (nat i))"

lemma str_nat_nonempty [simp]: "str_nat n \<noteq> []"
  by (subst str_nat.simps) simp

lemma str_nat_digits: "set (str_nat n) \<subseteq> set decimal_digits"
proof (induction n rule: str_nat.induct)
  case (1 n)
  have len: "length decimal_digits = 10" by (simp add: decimal_digits_def)
  show ?case
  proof (cases "n < 10")
    case True
    then show ?thesis using len by (subst str_nat.simps) simp
  next
    case False
    have "n mod 10 < length decimal_digits" using len by simp
    with False "1.IH" show ?thesis
      by (subst str_nat.simps) (auto simp del: nth_mem intro: nth_mem)
  qed
qed

subsection \<open>List indexing\<close>

text \<open>\<open>xs[i]\<close>: a negative index counts from the end; out of range raises.\<close>

definition py_getitem :: "'a list \<Rightarrow> int \<Rightarrow> ('w, 'a) pyM" where
  "py_getitem xs i =
     (let n = int (length xs); j = (if i < 0 then n + i else i)
      in if 0 \<le> j \<and> j < n then returnP (xs ! nat j)
         else raiseP (IndexError ''list index out of range''))"

lemma py_getitem_in_range [simp]:
  "0 \<le> i \<Longrightarrow> i < int (length xs) \<Longrightarrow> py_getitem xs i = returnP (xs ! nat i)"
  by (simp add: py_getitem_def)

subsection \<open>Actions that do no I/O\<close>

text \<open>
  \<open>keeps_io m\<close>: whatever \<open>m\<close> does (return, raise), the files and standard
  output are as before. It is closed under sequencing, so a composite action is
  shown I/O-free by \<open>intro!: io_frame\<close>.
\<close>

definition keeps_io :: "('f world, 'a) pyM \<Rightarrow> bool" where
  "keeps_io m \<longleftrightarrow> (\<forall>w r w'. m w = Some (r, w') \<longrightarrow> files w' = files w \<and> stdout w' = stdout w)"

lemma keeps_ioD:
  "keeps_io m \<Longrightarrow> m w = Some (r, w') \<Longrightarrow> files w' = files w \<and> stdout w' = stdout w"
  unfolding keeps_io_def by blast

lemma keeps_io_returnP [io_frame]: "keeps_io (returnP x)"
  by (simp add: keeps_io_def returnP_def)

lemma keeps_io_raiseP [io_frame]: "keeps_io (raiseP e)"
  by (simp add: keeps_io_def raiseP_def)

lemma keeps_io_bindP [io_frame]: "keeps_io m \<Longrightarrow> (\<And>x. keeps_io (f x)) \<Longrightarrow> keeps_io (bindP m f)"
  unfolding keeps_io_def bindP_def by (fastforce split: option.splits sum.splits)

lemma keeps_io_if [io_frame]: "keeps_io m1 \<Longrightarrow> keeps_io m2 \<Longrightarrow> keeps_io (if c then m1 else m2)"
  by simp

lemma keeps_io_case_prod [io_frame]: "(\<And>a b. keeps_io (f a b)) \<Longrightarrow> keeps_io (case p of (a, b) \<Rightarrow> f a b)"
  by (simp split: prod.split)

lemma keeps_io_Let [io_frame]: "(\<And>x. keeps_io (f x)) \<Longrightarrow> keeps_io (Let v f)"
  by simp

lemma keeps_io_py_getitem [io_frame]: "keeps_io (py_getitem xs i)"
  by (simp add: py_getitem_def Let_def io_frame)

lemma keeps_io_faker [io_frame]: "keeps_io (modifyP (\<lambda>w. w\<lparr>faker := f\<rparr>))"
  by (simp add: keeps_io_def modifyP_def)

end
