(* ===== verification/Py_Random.thy ===== *)
theory Py_Random
  imports Py_Prelude
begin

text \<open>
  The part of Python's \<open>random\<close> module the generator calls, over the global
  Mersenne Twister: \<open>getrandbits\<close> and \<open>random\<close> from CPython's
  \<open>Modules/_randommodule.c\<close>, \<open>_randbelow_with_getrandbits\<close>,
  \<open>randrange\<close> and \<open>randint\<close> from \<open>Lib/random.py\<close> (Python 3.12). The
  Mersenne Twister itself is not modelled: its outputs are the stream \<open>mt\<close>
  of the world, any stream. Every operation draws words from the head of the
  stream and changes nothing else of the world. The rejection loop of
  \<open>_randbelow\<close> need not end for an arbitrary stream, so it is a
  \<open>partial_function (option)\<close>; it ends whenever the stream keeps producing
  words whose top bit is clear (\<open>mt_fair\<close>), which is what the liveness lemmas
  of the generator assume.
\<close>

unbundle bit_operations_syntax

subsection \<open>Definitions\<close>

text \<open>
  \<open>getrandbits(k)\<close>: 0 without a draw for \<open>k = 0\<close>; the top \<open>k\<close> bits
  of one word for \<open>k \<le> 32\<close>; otherwise 32-bit words least significant first,
  the last one shifted right to keep the remaining bits.
\<close>

fun getrandbits :: "nat \<Rightarrow> 'f world \<Rightarrow> nat \<times> 'f world" where
  "getrandbits k w =
     (if k = 0 then (0, w)
      else if k \<le> 32 then (unat (drop_bit (32 - k) (shd (mt w))), w\<lparr>mt := stl (mt w)\<rparr>)
      else (let lo = unat (shd (mt w));
                (hi, w') = getrandbits (k - 32) (w\<lparr>mt := stl (mt w)\<rparr>)
            in (lo + 2 ^ 32 * hi, w')))"

declare getrandbits.simps [simp del]

text \<open>\<open>int.bit_length()\<close> on a non-negative integer.\<close>

fun bit_length :: "nat \<Rightarrow> nat" where
  "bit_length n = (if n = 0 then 0 else Suc (bit_length (n div 2)))"

declare bit_length.simps [simp del]

lemma bit_length_0 [simp]: "bit_length 0 = 0"
  by (simp add: bit_length.simps)

text \<open>
  \<open>_randbelow_with_getrandbits(n)\<close>: \<open>k = n.bit_length()\<close>, draw
  \<open>getrandbits(k)\<close> until the draw is below \<open>n\<close>.
\<close>

partial_function (option) randbelow_loop ::
  "nat \<Rightarrow> nat \<Rightarrow> 'f world \<Rightarrow> ((pyerror + nat) \<times> 'f world) option" where
  "randbelow_loop n k w =
     (case getrandbits k w of (r, w') \<Rightarrow>
        if n \<le> r then randbelow_loop n k w' else Some (Inr r, w'))"

definition randbelow :: "nat \<Rightarrow> ('f world, nat) pyM" where
  "randbelow n = randbelow_loop n (bit_length n)"

text \<open>\<open>randrange(stop)\<close>: the one-argument form \<open>fetch_title\<close> and \<open>fetch_authors\<close> use.\<close>

definition randrange :: "int \<Rightarrow> ('f world, int) pyM" where
  "randrange stop =
     (if 0 < stop then bindP (randbelow (nat stop)) (\<lambda>r. returnP (int r))
      else raiseP (ValueError ''empty range for randrange()''))"

text \<open>\<open>randrange(start, stop)\<close> with step 1, and \<open>randint(a, b) = randrange(a, b + 1)\<close>.\<close>

definition randrange2 :: "int \<Rightarrow> int \<Rightarrow> ('f world, int) pyM" where
  "randrange2 start stop =
     (let width = stop - start in
      if 0 < width then bindP (randbelow (nat width)) (\<lambda>r. returnP (start + int r))
      else raiseP (ValueError (''empty range in randrange('' @ str_int start @ '', ''
                               @ str_int stop @ '')'')))"

definition randint :: "int \<Rightarrow> int \<Rightarrow> ('f world, int) pyM" where
  "randint a b = randrange2 a (b + 1)"

text \<open>
  \<open>random()\<close>: \<open>a = genrand >> 5\<close>, \<open>b = genrand >> 6\<close>, the float
  \<open>(a * 2^26 + b) / 2^53\<close>. The model returns the numerator \<open>k\<close>; the float is
  exactly \<open>k / 2^53\<close>.
\<close>

definition py_random :: "('f world, nat) pyM" where
  "py_random w =
     (let a = drop_bit 5 (shd (mt w)); b = drop_bit 6 (shd (stl (mt w)))
      in Some (Inr (unat a * 2 ^ 26 + unat b), w\<lparr>mt := sdrop 2 (mt w)\<rparr>))"

text \<open>
  A stream on which every rejection loop of the program ends: a word with a
  clear top bit keeps coming. Any such word is accepted by \<open>_randbelow(n)\<close>
  for every \<open>0 < n < 2^32\<close>.
\<close>

definition mt_fair :: "32 word stream \<Rightarrow> bool" where
  "mt_fair s \<longleftrightarrow> (\<forall>i. \<exists>j\<ge>i. s !! j < 0x80000000)"

subsection \<open>getrandbits and bit_length\<close>

text \<open>The number of words \<open>getrandbits(k)\<close> draws.\<close>

definition nwords :: "nat \<Rightarrow> nat" where
  "nwords k = (k + 31) div 32"

text \<open>The three cases of \<open>getrandbits\<close>, as rewrite rules.\<close>

lemma getrandbits_zero: "getrandbits 0 w = (0, w)"
  by (simp add: getrandbits.simps)

lemma getrandbits_short:
  "0 < k \<Longrightarrow> k \<le> 32 \<Longrightarrow>
   getrandbits k w = (unat (drop_bit (32 - k) (shd (mt w))), w\<lparr>mt := stl (mt w)\<rparr>)"
  by (simp add: getrandbits.simps)

lemma getrandbits_long:
  "32 < k \<Longrightarrow> getrandbits (k - 32) (w\<lparr>mt := stl (mt w)\<rparr>) = (hi, w') \<Longrightarrow>
   getrandbits k w = (unat (shd (mt w)) + 2 ^ 32 * hi, w')"
  by (subst getrandbits.simps) (simp add: Let_def)

lemma getrandbits_world:
  "snd (getrandbits k w) = w\<lparr>mt := sdrop (nwords k) (mt w)\<rparr>"
proof (induction k arbitrary: w rule: less_induct)
  case (less k)
  consider (zero) "k = 0" | (one) "0 < k" "k \<le> 32" | (more) "32 < k"
    by linarith
  then show ?case
  proof cases
    case zero
    then show ?thesis by (simp add: getrandbits_zero nwords_def)
  next
    case one
    then have "nwords k = Suc 0" unfolding nwords_def by (intro div_nat_eqI) simp_all
    with one show ?thesis by (simp add: getrandbits_short)
  next
    case more
    obtain hi w' where rec: "getrandbits (k - 32) (w\<lparr>mt := stl (mt w)\<rparr>) = (hi, w')"
      by fastforce
    have "w' = snd (getrandbits (k - 32) (w\<lparr>mt := stl (mt w)\<rparr>))" by (simp add: rec)
    also have "\<dots> = w\<lparr>mt := sdrop (nwords (k - 32)) (stl (mt w))\<rparr>"
      using more by (simp add: less.IH)
    finally have "w' = w\<lparr>mt := sdrop (nwords (k - 32)) (stl (mt w))\<rparr>" .
    moreover have "nwords k = Suc (nwords (k - 32))"
      using more unfolding nwords_def by (simp add: le_div_geq)
    ultimately show ?thesis
      using getrandbits_long [OF more rec] by simp
  qed
qed

lemma getrandbits_bound: "fst (getrandbits k w) < 2 ^ k"
proof (induction k arbitrary: w rule: less_induct)
  case (less k)
  consider (zero) "k = 0" | (one) "0 < k" "k \<le> 32" | (more) "32 < k"
    by linarith
  then show ?case
  proof cases
    case zero
    then show ?thesis by (simp add: getrandbits_zero)
  next
    case one
    have "unat (shd (mt w)) < 2 ^ 32" using unsigned_less [of "shd (mt w)"] by simp
    also have "(2::nat) ^ 32 = 2 ^ k * 2 ^ (32 - k)"
      using one by (simp add: power_add [symmetric])
    finally have "unat (shd (mt w)) div 2 ^ (32 - k) < 2 ^ k"
      by (rule less_mult_imp_div_less)
    moreover have "unat (drop_bit (32 - k) (shd (mt w))) = unat (shd (mt w)) div 2 ^ (32 - k)"
      by (subst unat_drop_bit_eq) (simp only: drop_bit_eq_div)
    ultimately show ?thesis
      using one by (simp add: getrandbits_short)
  next
    case more
    obtain hi w' where rec: "getrandbits (k - 32) (w\<lparr>mt := stl (mt w)\<rparr>) = (hi, w')"
      by fastforce
    have "hi = fst (getrandbits (k - 32) (w\<lparr>mt := stl (mt w)\<rparr>))" by (simp add: rec)
    with more less.IH have "hi < 2 ^ (k - 32)" by simp
    then have "(2::nat) ^ 32 * Suc hi \<le> 2 ^ 32 * 2 ^ (k - 32)"
      by (intro mult_le_mono2) simp
    moreover have "unat (shd (mt w)) < 2 ^ 32" using unsigned_less [of "shd (mt w)"] by simp
    ultimately have "unat (shd (mt w)) + 2 ^ 32 * hi < 2 ^ 32 * 2 ^ (k - 32)"
      unfolding mult_Suc_right by linarith
    also have "(2::nat) ^ 32 * 2 ^ (k - 32) = 2 ^ (32 + (k - 32))"
      by (simp only: power_add)
    also have "(2::nat) ^ (32 + (k - 32)) = 2 ^ k" using more by simp
    finally have lt: "unat (shd (mt w)) + 2 ^ 32 * hi < 2 ^ k" .
    show ?thesis
      by (simp only: getrandbits_long [OF more rec] fst_conv lt)
  qed
qed

lemma bit_length_le_iff: "bit_length n \<le> m \<longleftrightarrow> n < 2 ^ m"
proof (induction n arbitrary: m rule: bit_length.induct)
  case (1 n)
  show ?case
  proof (cases "n = 0")
    case True
    then show ?thesis by (simp add: bit_length.simps)
  next
    case False
    then have bl: "bit_length n = Suc (bit_length (n div 2))"
      by (subst bit_length.simps) simp
    show ?thesis
    proof (cases m)
      case 0
      with False show ?thesis by (simp add: bl)
    next
      case (Suc m')
      with False "1.IH" show ?thesis by (simp add: bl) linarith
    qed
  qed
qed

lemma bit_length_bound: "n < 2 ^ bit_length n"
  using bit_length_le_iff [of n "bit_length n"] by simp

lemma bit_length_pos: "0 < n \<Longrightarrow> 0 < bit_length n"
  by (subst bit_length.simps) simp

lemma bit_length_eq: "0 < k \<Longrightarrow> 2 ^ (k - 1) \<le> n \<Longrightarrow> n < 2 ^ k \<Longrightarrow> bit_length n = k"
proof -
  assume k: "0 < k" and lo: "2 ^ (k - 1) \<le> n" and hi: "n < 2 ^ k"
  from hi have "bit_length n \<le> k" by (simp add: bit_length_le_iff)
  moreover from lo have "\<not> bit_length n \<le> k - 1" by (simp add: bit_length_le_iff)
  ultimately show ?thesis using k by simp
qed

lemma bit_length_lower: "0 < n \<Longrightarrow> 2 ^ (bit_length n - 1) \<le> n"
proof -
  assume "0 < n"
  then have "\<not> bit_length n \<le> bit_length n - 1" using bit_length_pos [of n] by simp
  then show ?thesis unfolding bit_length_le_iff by simp
qed

text \<open>
  A word with a clear top bit is accepted by \<open>_randbelow(n)\<close> for any
  \<open>0 < n < 2^32\<close>: its top \<open>k\<close> bits are below \<open>2^(k-1) \<le> n\<close>.
\<close>

lemma getrandbits_accepts:
  assumes n: "0 < n" "n < 2 ^ 32" and top: "shd (mt w) < 0x80000000"
  shows "fst (getrandbits (bit_length n) w) < n"
proof -
  define k where "k = bit_length n"
  have k: "0 < k" "k \<le> 32"
    using n bit_length_pos bit_length_le_iff by (auto simp: k_def)
  have "unat (shd (mt w)) < 2 ^ 31"
    using top by (simp add: word_less_nat_alt)
  also have "(2::nat) ^ 31 = 2 ^ (k - 1) * 2 ^ (32 - k)"
    using k by (simp add: power_add [symmetric])
  finally have "unat (shd (mt w)) div 2 ^ (32 - k) < 2 ^ (k - 1)"
    by (rule less_mult_imp_div_less)
  also have "(2::nat) ^ (k - 1) \<le> n"
    using bit_length_lower n by (simp add: k_def)
  finally have lt: "unat (shd (mt w)) div 2 ^ (32 - k) < n" .
  have "unat (drop_bit (32 - k) (shd (mt w))) = unat (shd (mt w)) div 2 ^ (32 - k)"
    by (subst unat_drop_bit_eq) (simp only: drop_bit_eq_div)
  with lt k show ?thesis
    by (simp add: getrandbits_short k_def [symmetric])
qed

subsection \<open>Draws: what the random operations do to the world\<close>

text \<open>
  \<open>draws w w'\<close>: \<open>w'\<close> is \<open>w\<close> after some words of the Mersenne Twister
  have been consumed, and nothing else has changed.
\<close>

definition draws :: "'f world \<Rightarrow> 'f world \<Rightarrow> bool" where
  "draws w w' \<longleftrightarrow> (\<exists>m. w' = w\<lparr>mt := sdrop m (mt w)\<rparr>)"

lemma draws_refl [simp, intro]: "draws w w"
  unfolding draws_def by (rule exI [of _ 0]) simp

lemma draws_trans [trans]: "draws w1 w2 \<Longrightarrow> draws w2 w3 \<Longrightarrow> draws w1 w3"
  unfolding draws_def by (auto simp: sdrop_add)

lemma draws_frame [simp]:
  "draws w w' \<Longrightarrow> files w' = files w \<and> stdout w' = stdout w \<and> faker w' = faker w"
  unfolding draws_def by auto

lemma draws_getrandbits [simp, intro]: "draws w (snd (getrandbits k w))"
  unfolding draws_def getrandbits_world by blast

lemma mt_fair_sdrop: "mt_fair s \<Longrightarrow> mt_fair (sdrop m s)"
  unfolding mt_fair_def
proof (intro allI)
  fix i
  assume fair: "\<forall>i. \<exists>j\<ge>i. s !! j < 0x80000000"
  then obtain j where "m + i \<le> j" "s !! j < 0x80000000" by blast
  then have "j - m \<ge> i" "sdrop m s !! (j - m) < 0x80000000"
    by (simp_all add: sdrop_snth)
  then show "\<exists>j\<ge>i. sdrop m s !! j < 0x80000000" by blast
qed

lemma draws_fair: "draws w w' \<Longrightarrow> mt_fair (mt w) \<Longrightarrow> mt_fair (mt w')"
  unfolding draws_def by (auto intro: mt_fair_sdrop)

subsection \<open>The rejection loop of \<open>_randbelow\<close>\<close>

lemma randbelow_loop_step:
  "getrandbits k w = (r, w') \<Longrightarrow>
   randbelow_loop n k w = (if n \<le> r then randbelow_loop n k w' else Some (Inr r, w'))"
  by (subst randbelow_loop.simps) simp

text \<open>
  Partial correctness, by the fixpoint induction of \<open>partial_function\<close>:
  when the loop returns, it returns a number below \<open>n\<close> (never an exception),
  and it has only drawn words.
\<close>

lemma randbelow_loop_result:
  assumes ret: "randbelow_loop n k w = Some x"
  shows "\<exists>r. fst x = Inr r \<and> r < n \<and> draws w (snd x)"
proof (rule randbelow_loop.raw_induct
    [where P = "\<lambda>n k w x. \<exists>r. fst x = Inr r \<and> r < n \<and> draws w (snd x)", OF _ ret])
  fix loop :: "nat \<Rightarrow> nat \<Rightarrow> 'a world \<Rightarrow> ((pyerror + nat) \<times> 'a world) option"
    and n k w x
  assume IH: "\<And>n k w x. loop n k w = Some x \<Longrightarrow> \<exists>r. fst x = Inr r \<and> r < n \<and> draws w (snd x)"
    and eq: "(case getrandbits k w of (r, w') \<Rightarrow>
               if n \<le> r then loop n k w' else Some (Inr r, w')) = Some x"
  obtain r w1 where g: "getrandbits k w = (r, w1)" by fastforce
  have d1: "draws w w1" using draws_getrandbits [of w k] g by simp
  show "\<exists>r. fst x = Inr r \<and> r < n \<and> draws w (snd x)"
  proof (cases "n \<le> r")
    case True
    with eq g have "loop n k w1 = Some x" by simp
    then obtain r' where "fst x = Inr r'" "r' < n" "draws w1 (snd x)"
      using IH by blast
    with d1 show ?thesis by (blast intro: draws_trans)
  next
    case False
    with eq g have "x = (Inr r, w1)" by simp
    with False d1 show ?thesis by simp
  qed
qed

text \<open>
  Liveness: if some word at or after the head of the stream has its top bit
  clear, the loop returns; induction on the distance to that word.
\<close>

lemma randbelow_loop_ends:
  assumes n: "0 < n" "n < 2 ^ 32" and top: "mt w !! i < 0x80000000"
  shows "\<exists>r w'. randbelow_loop n (bit_length n) w = Some (Inr r, w')"
  using top
proof (induction i arbitrary: w)
  case 0
  obtain r w1 where g: "getrandbits (bit_length n) w = (r, w1)" by fastforce
  have "r < n" using getrandbits_accepts [OF n, of w] "0" g by simp
  with g show ?case by (simp add: randbelow_loop_step)
next
  case (Suc i)
  have k: "0 < bit_length n" "bit_length n \<le> 32"
    using n bit_length_pos bit_length_le_iff by auto
  obtain r w1 where g: "getrandbits (bit_length n) w = (r, w1)" by fastforce
  then have w1: "w1 = w\<lparr>mt := stl (mt w)\<rparr>"
    using getrandbits_short [OF k, of w] by simp
  show ?case
  proof (cases "n \<le> r")
    case True
    have "mt w1 !! i < 0x80000000" using Suc.prems w1 by simp
    then obtain r' w' where "randbelow_loop n (bit_length n) w1 = Some (Inr r', w')"
      using Suc.IH by blast
    with True g show ?thesis by (simp add: randbelow_loop_step)
  next
    case False
    with g show ?thesis by (simp add: randbelow_loop_step)
  qed
qed

lemma randbelow_result:
  "randbelow n w = Some (res, w') \<Longrightarrow> \<exists>r. res = Inr r \<and> r < n \<and> draws w w'"
  unfolding randbelow_def using randbelow_loop_result by fastforce

lemma randbelow_ends:
  assumes "0 < n" "n < 2 ^ 32" "mt_fair (mt w)"
  shows "\<exists>r w'. randbelow n w = Some (Inr r, w')"
proof -
  obtain j where "mt w !! j < 0x80000000" using assms(3) unfolding mt_fair_def by blast
  with assms(1,2) show ?thesis unfolding randbelow_def by (rule randbelow_loop_ends)
qed

subsection \<open>randrange, randint, random\<close>

lemma randrange_empty:
  "stop \<le> 0 \<Longrightarrow> randrange stop w = Some (Inl (ValueError ''empty range for randrange()''), w)"
  by (simp add: randrange_def raiseP_def)

lemma randrange_result:
  assumes "randrange stop w = Some (res, w')" "0 < stop"
  shows "\<exists>r. res = Inr r \<and> 0 \<le> r \<and> r < stop \<and> draws w w'"
proof -
  from assms have "bindP (randbelow (nat stop)) (\<lambda>r. returnP (int r)) w = Some (res, w')"
    by (simp add: randrange_def)
  then obtain x w1 where x: "randbelow (nat stop) w = Some (x, w1)"
    and rest: "(case x of Inl e \<Rightarrow> Some (Inl e, w1) | Inr r \<Rightarrow> returnP (int r) w1) = Some (res, w')"
    by (auto simp: bindP_def split: option.splits)
  from randbelow_result [OF x] obtain r where "x = Inr r" "r < nat stop" "draws w w1" by blast
  with rest assms(2) show ?thesis by (auto simp: returnP_def)
qed

lemma randrange_ends:
  assumes "0 < stop" "stop < 2 ^ 32" "mt_fair (mt w)"
  shows "\<exists>r w'. randrange stop w = Some (Inr r, w')"
proof -
  have "0 < nat stop" "nat stop < 2 ^ 32" using assms(1,2) by auto
  from randbelow_ends [OF this assms(3)] obtain r w' where "randbelow (nat stop) w = Some (Inr r, w')"
    by blast
  with assms(1) show ?thesis by (simp add: randrange_def bindP_Inr returnP_def)
qed

lemma randint_result:
  assumes "randint a b w = Some (res, w')" "a \<le> b"
  shows "\<exists>r. res = Inr r \<and> a \<le> r \<and> r \<le> b \<and> draws w w'"
proof -
  from assms have "bindP (randbelow (nat (b + 1 - a))) (\<lambda>r. returnP (a + int r)) w = Some (res, w')"
    by (simp add: randint_def randrange2_def)
  then obtain x w1 where x: "randbelow (nat (b + 1 - a)) w = Some (x, w1)"
    and rest: "(case x of Inl e \<Rightarrow> Some (Inl e, w1) | Inr r \<Rightarrow> returnP (a + int r) w1) = Some (res, w')"
    by (auto simp: bindP_def split: option.splits)
  from randbelow_result [OF x] obtain r where "x = Inr r" "r < nat (b + 1 - a)" "draws w w1" by blast
  with rest assms(2) show ?thesis by (auto simp: returnP_def)
qed

lemma randint_ends:
  assumes "a \<le> b" "b - a < 2 ^ 32 - 1" "mt_fair (mt w)"
  shows "\<exists>r w'. randint a b w = Some (Inr r, w')"
proof -
  have "0 < nat (b + 1 - a)" "nat (b + 1 - a) < 2 ^ 32" using assms(1,2) by auto
  from randbelow_ends [OF this assms(3)] obtain r w' where "randbelow (nat (b + 1 - a)) w = Some (Inr r, w')"
    by blast
  with assms(1) show ?thesis by (simp add: randint_def randrange2_def bindP_Inr returnP_def)
qed

lemma unat_drop_bit_32: "m \<le> 32 \<Longrightarrow> unat (drop_bit m (x :: 32 word)) < 2 ^ (32 - m)"
proof -
  assume m: "m \<le> 32"
  have "unat x < 2 ^ 32" using unsigned_less [of x] by simp
  also have "(2::nat) ^ 32 = 2 ^ (32 - m) * 2 ^ m"
    using m by (simp add: power_add [symmetric])
  finally have "unat x div 2 ^ m < 2 ^ (32 - m)"
    by (rule less_mult_imp_div_less)
  moreover have "unat (drop_bit m x) = unat x div 2 ^ m"
    by (subst unat_drop_bit_eq) (simp only: drop_bit_eq_div)
  ultimately show ?thesis by simp
qed

text \<open>\<open>random()\<close> is \<open>k / 2^53\<close> for a \<open>k < 2^53\<close>, and it draws two words.\<close>

lemma py_random_eq:
  "\<exists>k < 2 ^ 53. py_random w = Some (Inr k, w\<lparr>mt := sdrop 2 (mt w)\<rparr>)"
proof -
  define a where "a = unat (drop_bit 5 (shd (mt w)))"
  define b where "b = unat (drop_bit 6 (shd (stl (mt w))))"
  have a: "a < 2 ^ 27" using unat_drop_bit_32 [of 5] by (simp add: a_def)
  have b: "b < 2 ^ 26" using unat_drop_bit_32 [of 6] by (simp add: b_def)
  from a have "a * 2 ^ 26 + 2 ^ 26 \<le> 2 ^ 27 * (2 ^ 26 :: nat)"
    using mult_le_mono1 [of "Suc a" "2 ^ 27" "2 ^ 26"] by simp
  with b have "a * 2 ^ 26 + b < 2 ^ 53" by simp
  then show ?thesis by (simp add: py_random_def a_def b_def Let_def)
qed

lemma py_random_result:
  "py_random w = Some (res, w') \<Longrightarrow> \<exists>k. res = Inr k \<and> k < 2 ^ 53 \<and> draws w w'"
  using py_random_eq [of w] unfolding draws_def by auto

subsection \<open>The all-zero stream\<close>

text \<open>
  On a stream of zero words every draw is 0 and is accepted at once; the
  stream, and so the world, is left as it was. These lemmas evaluate concrete
  runs of the program.
\<close>

lemma randbelow_zero_stream:
  assumes "mt w = sconst 0" "0 < n" "n < 2 ^ 32"
  shows "randbelow n w = Some (Inr 0, w)"
proof -
  have k: "0 < bit_length n" "bit_length n \<le> 32"
    using assms(2,3) bit_length_pos bit_length_le_iff by auto
  have "getrandbits (bit_length n) w = (0, w)"
    using getrandbits_short [OF k, of w] assms(1) by simp
  with assms(2) show ?thesis
    by (simp add: randbelow_def randbelow_loop_step)
qed

lemma randrange_zero_stream:
  "mt w = sconst 0 \<Longrightarrow> 0 < stop \<Longrightarrow> stop < 2 ^ 32 \<Longrightarrow> randrange stop w = Some (Inr 0, w)"
  by (simp add: randrange_def randbelow_zero_stream bindP_Inr returnP_def)

lemma randint_zero_stream:
  "mt w = sconst 0 \<Longrightarrow> a \<le> b \<Longrightarrow> b - a < 2 ^ 32 - 1 \<Longrightarrow> randint a b w = Some (Inr a, w)"
  by (simp add: randint_def randrange2_def randbelow_zero_stream bindP_Inr returnP_def)

lemma py_random_zero_stream: "mt w = sconst 0 \<Longrightarrow> py_random w = Some (Inr 0, w)"
  by (simp add: py_random_def)

subsection \<open>No I/O\<close>

lemma keeps_io_randbelow [io_frame]: "keeps_io (randbelow n)"
  unfolding keeps_io_def using randbelow_result draws_frame by fastforce

lemma keeps_io_randrange [io_frame]: "keeps_io (randrange n)"
  unfolding randrange_def by (intro io_frame)

lemma keeps_io_randint [io_frame]: "keeps_io (randint a b)"
  unfolding randint_def randrange2_def by (intro io_frame)

lemma keeps_io_py_random [io_frame]: "keeps_io py_random"
  unfolding keeps_io_def using py_random_result draws_frame by fastforce

lemma mt_fair_sconst: "x < 0x80000000 \<Longrightarrow> mt_fair (sconst x)"
proof -
  assume x: "x < 0x80000000"
  have "sconst x !! i = x" for i using snth_sset [of "sconst x" i] by simp
  with x show ?thesis unfolding mt_fair_def by auto
qed

end
