(* ===== verification/Py_Text.thy ===== *)
theory Py_Text
  imports Py_Prelude
begin

text \<open>
  Reading a text file as \<open>fetch_title\<close> and \<open>fetch_authors\<close> do:
  \<open>open(path, encoding="utf-8")\<close>, \<open>readlines()\<close>, then
  \<open>line.strip("\n")\<close> or \<open>line.strip()\<close>. A Python \<open>str\<close> is a
  \<open>string\<close> whose characters are read as the code points U+0000 to U+00FF;
  the whitespace test is \<open>str.isspace\<close> on that range. The file system maps
  a path to its decoded text; opening reads it through universal-newline
  translation (\<open>\r\n\<close> and \<open>\r\<close> become \<open>\n\<close>).
\<close>

subsection \<open>Definitions\<close>

definition NL :: char where "NL = CHR 0x0A"
definition CR :: char where "CR = CHR 0x0D"

text \<open>
  Universal newlines on reading (\<open>newline=None\<close>), as the incremental
  decoder does it: \<open>\r\<close> becomes \<open>\n\<close> and sets the pending-CR flag,
  which swallows a \<open>\n\<close> right after it.
\<close>

fun translate_newlines_from :: "bool \<Rightarrow> string \<Rightarrow> string" where
  "translate_newlines_from pendingcr [] = []"
| "translate_newlines_from pendingcr (c # s) =
     (if c = CR then NL # translate_newlines_from True s
      else if c = NL \<and> pendingcr then translate_newlines_from False s
      else c # translate_newlines_from False s)"

definition translate_newlines :: "string \<Rightarrow> string" where
  "translate_newlines s = translate_newlines_from False s"

text \<open>
  \<open>open(path)\<close> followed by reading the whole text: \<open>FileNotFoundError\<close>
  when there is no such file. Reading does not change the world.
\<close>

definition read_text :: "string \<Rightarrow> ('f world, string) pyM" where
  "read_text path w =
     (case files w path of
        None \<Rightarrow> Some (Inl (FileNotFoundError path), w)
      | Some raw \<Rightarrow> Some (Inr (translate_newlines raw), w))"

text \<open>
  \<open>readlines()\<close>: the text cut after every newline, each line keeping its
  newline; a last line without newline is kept when it is not empty.
  \<open>cur\<close> is the line read so far.
\<close>

fun readlines_from :: "string \<Rightarrow> string \<Rightarrow> string list" where
  "readlines_from cur [] = (if cur = [] then [] else [cur])"
| "readlines_from cur (c # s) =
     (if c = NL then (cur @ [c]) # readlines_from [] s else readlines_from (cur @ [c]) s)"

definition readlines :: "string \<Rightarrow> string list" where
  "readlines s = readlines_from [] s"

text \<open>\<open>str.strip(chars)\<close>: leading and trailing characters of \<open>chars\<close> removed.\<close>

definition strip_chars :: "char list \<Rightarrow> string \<Rightarrow> string" where
  "strip_chars cs s = rev (dropWhile (\<lambda>c. c \<in> set cs) (rev (dropWhile (\<lambda>c. c \<in> set cs) s)))"

text \<open>\<open>str.isspace\<close> on U+0000..U+00FF, and \<open>str.strip()\<close>.\<close>

definition py_isspace :: "char \<Rightarrow> bool" where
  "py_isspace c \<longleftrightarrow>
     (let n = of_char c :: nat in
      (9 \<le> n \<and> n \<le> 13) \<or> (28 \<le> n \<and> n \<le> 32) \<or> n = 133 \<or> n = 160)"

definition py_strip :: "string \<Rightarrow> string" where
  "py_strip s = rev (dropWhile py_isspace (rev (dropWhile py_isspace s)))"

subsection \<open>Reading\<close>

lemma read_text_missing [simp]:
  "files w path = None \<Longrightarrow> read_text path w = Some (Inl (FileNotFoundError path), w)"
  by (simp add: read_text_def)

lemma read_text_present [simp]:
  "files w path = Some raw \<Longrightarrow> read_text path w = Some (Inr (translate_newlines raw), w)"
  by (simp add: read_text_def)

lemma translate_newlines_from_no_CR: "CR \<notin> set s \<Longrightarrow> translate_newlines_from False s = s"
  by (induction s) auto

lemma translate_newlines_no_CR: "CR \<notin> set s \<Longrightarrow> translate_newlines s = s"
  by (simp add: translate_newlines_def translate_newlines_from_no_CR)

lemma translate_newlines_Nil [simp]: "translate_newlines [] = []"
  by (simp add: translate_newlines_def)

lemma translate_newlines_Nil_iff [simp]: "translate_newlines s = [] \<longleftrightarrow> s = []"
  by (cases s) (auto simp: translate_newlines_def)

lemma CR_not_in_translate_newlines_from: "CR \<notin> set (translate_newlines_from b s)"
  by (induction b s rule: translate_newlines_from.induct) (auto simp: NL_def CR_def)

lemma CR_not_in_translate_newlines: "CR \<notin> set (translate_newlines s)"
  by (simp add: translate_newlines_def CR_not_in_translate_newlines_from)

subsection \<open>readlines\<close>

lemma concat_readlines_from: "concat (readlines_from cur s) = cur @ s"
  by (induction cur s rule: readlines_from.induct) auto

text \<open>\<open>readlines\<close> loses nothing: joining the lines gives the text back.\<close>

lemma concat_readlines: "concat (readlines s) = s"
  by (simp add: readlines_def concat_readlines_from)

lemma readlines_Nil_iff: "readlines s = [] \<longleftrightarrow> s = []"
proof
  assume "readlines s = []"
  then show "s = []" using concat_readlines [of s] by simp
qed (simp add: readlines_def)

text \<open>Every line is non-empty and holds a newline at most as its last character.\<close>

lemma readlines_from_lines:
  "l \<in> set (readlines_from cur s) \<Longrightarrow> NL \<notin> set cur \<Longrightarrow> l \<noteq> [] \<and> NL \<notin> set (butlast l)"
  by (induction cur s rule: readlines_from.induct) (auto split: if_splits dest: in_set_butlastD)

lemma readlines_lines: "l \<in> set (readlines s) \<Longrightarrow> l \<noteq> [] \<and> NL \<notin> set (butlast l)"
  unfolding readlines_def by (erule readlines_from_lines) simp

subsection \<open>strip\<close>

text \<open>On a line of \<open>readlines\<close>, \<open>strip("\n")\<close> removes exactly its newline.\<close>

lemma strip_NL_line:
  assumes "NL \<notin> set (butlast l)"
  shows "strip_chars [NL] l = filter (\<lambda>c. c \<noteq> NL) l"
proof (cases l rule: rev_cases)
  case Nil
  then show ?thesis by (simp add: strip_chars_def)
next
  case (snoc xs x)
  with assms have xs: "NL \<notin> set xs" by simp
  show ?thesis
  proof (cases xs)
    case Nil
    with snoc show ?thesis by (simp add: strip_chars_def)
  next
    case (Cons y ys)
    with xs have "dropWhile (\<lambda>c. c \<in> set [NL]) l = l" using snoc by auto
    moreover have "filter (\<lambda>c. c \<noteq> NL) xs = xs" using xs by (simp add: filter_id_conv) blast
    moreover have "dropWhile (\<lambda>c. c \<in> set [NL]) (rev xs) = rev xs"
      using xs by (intro dropWhile_id) auto
    ultimately show ?thesis
      using snoc by (simp add: strip_chars_def)
  qed
qed

lemma NL_not_in_strip_NL_line: "NL \<notin> set (butlast l) \<Longrightarrow> NL \<notin> set (strip_chars [NL] l)"
  by (simp add: strip_NL_line)

text \<open>A line that ends in a newline is its stripped text followed by the newline.\<close>

lemma strip_NL_line_snoc:
  assumes "NL \<notin> set (butlast l)" and "l \<noteq> []" and "last l = NL"
  shows "strip_chars [NL] l @ [NL] = l"
proof -
  from assms(2,3) have l: "l = butlast l @ [NL]" by (metis append_butlast_last_id)
  have "filter (\<lambda>c. c \<noteq> NL) (butlast l) = butlast l"
    using assms(1) by (simp add: filter_id_conv) blast
  moreover have "strip_chars [NL] l = filter (\<lambda>c. c \<noteq> NL) (butlast l @ [NL])"
    using strip_NL_line [OF assms(1)] l by simp
  ultimately have "strip_chars [NL] l = butlast l" by simp
  with l show ?thesis by simp
qed

lemma dropWhile_none: "\<forall>c\<in>set s. \<not> P c \<Longrightarrow> dropWhile P s = s"
  by (induction s) simp_all

lemma py_strip_id: "\<forall>c\<in>set s. \<not> py_isspace c \<Longrightarrow> py_strip s = s"
  by (simp add: py_strip_def dropWhile_none)

lemma py_strip_idem: "py_strip (py_strip s) = py_strip s"
proof -
  define u where "u = dropWhile py_isspace s"
  define v where "v = dropWhile py_isspace (rev u)"
  have t: "py_strip s = rev v" by (simp add: py_strip_def u_def v_def)
  have front: "dropWhile py_isspace (rev v) = rev v"
  proof (cases "v = []")
    case False
    then have "\<not> py_isspace (hd v)" unfolding v_def by (rule hd_dropWhile)
    moreover have "hd v \<in> set (rev u)"
      using False unfolding v_def by (metis hd_in_set set_dropWhileD)
    ultimately have "last v = last (rev u)"
      unfolding v_def by (rule dropWhile_last [rotated])
    moreover have "u \<noteq> []" using False by (auto simp: v_def)
    ultimately have "hd (rev v) = hd u"
      by (simp add: hd_rev last_rev)
    moreover have "\<not> py_isspace (hd u)"
      using \<open>u \<noteq> []\<close> unfolding u_def by (rule hd_dropWhile)
    ultimately show ?thesis
      using False by (simp add: dropWhile_eq_self_iff)
  qed simp
  have "py_strip (rev v) = rev (dropWhile py_isspace (rev (rev v)))"
    by (simp only: py_strip_def front)
  also have "\<dots> = rev v" by (simp add: v_def)
  finally show ?thesis by (simp only: t)
qed

lemma keeps_io_read_text [io_frame]: "keeps_io (read_text path)"
  by (simp add: keeps_io_def read_text_def split: option.splits)

lemma readlines_from_last_NL:
  "l \<in> set (readlines_from cur s) \<Longrightarrow> s \<noteq> [] \<Longrightarrow> last s = NL \<Longrightarrow> last l = NL"
  by (induction cur s rule: readlines_from.induct) (auto split: if_splits)

text \<open>A text that ends with a newline is cut into lines that all end with one.\<close>

lemma readlines_last_NL: "l \<in> set (readlines s) \<Longrightarrow> last s = NL \<Longrightarrow> last l = NL"
  unfolding readlines_def
  by (cases "s = []") (auto intro: readlines_from_last_NL)

text \<open>Text printed one line at a time reads back as those lines.\<close>

lemma readlines_from_line:
  "NL \<notin> set s \<Longrightarrow> readlines_from cur (s @ NL # r) = (cur @ s @ [NL]) # readlines_from [] r"
  by (induction s arbitrary: cur) auto

lemma readlines_printed:
  "\<forall>s\<in>set ss. NL \<notin> set s \<Longrightarrow> readlines (concat (map (\<lambda>s. s @ [NL]) ss)) = map (\<lambda>s. s @ [NL]) ss"
proof (induction ss)
  case Nil
  then show ?case by (simp add: readlines_def)
next
  case (Cons s ss)
  then show ?case by (simp add: readlines_def readlines_from_line)
qed

end
