(* ===== verification/Book_Fetch.thy ===== *)
theory Book_Fetch
  imports Py_Random Py_Text
begin

text \<open>
  \<open>fetch_title\<close> and \<open>fetch_authors\<close> of \<open>src/main.py\<close> (lines 82-92
  and 107-121). Both open their list file afresh on every call, read its
  lines, and index the list at \<open>random.randrange(len(list))\<close>. The file
  names come from the module \<open>conf\<close>, which is not part of the repository's
  sources: it is the record \<open>conf\<close> here, with the three names the program
  reads.
\<close>

record conf =
  BOOK_TITLES :: string
  AUTHORS :: string
  MODEL :: string

subsection \<open>Definitions\<close>

text \<open>Lines 88-89: the title list, each line with its newline stripped.\<close>

definition titles_of :: "string \<Rightarrow> string list" where
  "titles_of text = map (strip_chars [NL]) (readlines text)"

definition fetch_title :: "conf \<Rightarrow> ('f world, string) pyM" where
  "fetch_title cf =
     bindP (read_text (BOOK_TITLES cf)) (\<lambda>text.
       let title_list = titles_of text;
           size = int (length title_list)
       in bindP (randrange size) (\<lambda>i. py_getitem title_list i))"

text \<open>Lines 114-115: the name list, each line stripped of surrounding whitespace.\<close>

definition names_of :: "string \<Rightarrow> string list" where
  "names_of text = map py_strip (readlines text)"

text \<open>Lines 118-121: \<open>num\<close> draws, appended in the order they are made.\<close>

fun pick_authors :: "string list \<Rightarrow> nat \<Rightarrow> ('f world, string list) pyM" where
  "pick_authors name_list 0 = returnP []"
| "pick_authors name_list (Suc i) =
     bindP (randrange (int (length name_list))) (\<lambda>j.
     bindP (py_getitem name_list j) (\<lambda>name.
     bindP (pick_authors name_list i) (\<lambda>rest. returnP (name # rest))))"

text \<open>\<open>range(num)\<close> is empty for \<open>num \<le> 0\<close>: \<open>nat num\<close> iterations.\<close>

definition fetch_authors :: "conf \<Rightarrow> int \<Rightarrow> ('f world, string list) pyM" where
  "fetch_authors cf num =
     bindP (read_text (AUTHORS cf)) (\<lambda>text.
       let name_list = names_of text
       in pick_authors name_list (nat num))"

subsection \<open>Drawing one element of a list\<close>

text \<open>
  \<open>xs[random.randrange(len(xs))]\<close>, the pattern both functions use: on a
  non-empty list it returns an element and only draws; on the empty list it
  raises \<open>ValueError\<close> without drawing; it never raises \<open>IndexError\<close>.
\<close>

lemma choose_result:
  assumes "xs \<noteq> []" "bindP (randrange (int (length xs))) (py_getitem xs) w = Some (res, w')"
  shows "\<exists>x. res = Inr x \<and> x \<in> set xs \<and> draws w w'"
proof -
  obtain r w1 where r: "randrange (int (length xs)) w = Some (r, w1)"
    using assms(2) by (cases "randrange (int (length xs)) w") (auto simp: bindP_def)
  from randrange_result [OF r] assms(1) obtain i where
    i: "r = Inr i" "0 \<le> i" "i < int (length xs)" "draws w w1" by auto
  with assms(2) r have "res = Inr (xs ! nat i)" "w' = w1"
    by (simp_all add: bindP_Inr returnP_def)
  with i show ?thesis by auto
qed

lemma choose_empty:
  "bindP (randrange (int (length []))) f w = Some (Inl (ValueError ''empty range for randrange()''), w)"
  by (simp add: randrange_empty bindP_Inl)

lemma choose_ends:
  assumes "xs \<noteq> []" "length xs < 2 ^ 32" "mt_fair (mt w)"
  shows "\<exists>x w'. bindP (randrange (int (length xs))) (py_getitem xs) w = Some (Inr x, w')"
proof -
  have "0 < int (length xs)" "int (length xs) < 2 ^ 32" using assms(1,2) by auto
  from randrange_ends [OF this assms(3)] obtain r w1 where r: "randrange (int (length xs)) w = Some (Inr r, w1)"
    by blast
  from randrange_result [OF r] assms(1) have "0 \<le> r" "r < int (length xs)" by auto
  with r show ?thesis by (simp add: bindP_Inr returnP_def)
qed

subsection \<open>fetch_title\<close>

lemma fetch_title_missing:
  "files w (BOOK_TITLES cf) = None \<Longrightarrow>
   fetch_title cf w = Some (Inl (FileNotFoundError (BOOK_TITLES cf)), w)"
  by (simp add: fetch_title_def bindP_Inl)

lemma fetch_title_empty:
  "files w (BOOK_TITLES cf) = Some [] \<Longrightarrow>
   fetch_title cf w = Some (Inl (ValueError ''empty range for randrange()''), w)"
  by (simp add: fetch_title_def bindP_Inr titles_of_def readlines_def randrange_empty bindP_Inl)

lemma titles_of_Nil_iff [simp]: "titles_of text = [] \<longleftrightarrow> text = []"
  by (simp add: titles_of_def readlines_Nil_iff)

lemma titles_of_no_NL: "t \<in> set (titles_of text) \<Longrightarrow> NL \<notin> set t"
  by (auto simp: titles_of_def dest: readlines_lines intro: NL_not_in_strip_NL_line [THEN notE])

lemma fetch_title_result:
  assumes fl: "files w (BOOK_TITLES cf) = Some raw" and ne: "raw \<noteq> []"
    and ret: "fetch_title cf w = Some (res, w')"
  shows "\<exists>t. res = Inr t \<and> t \<in> set (titles_of (translate_newlines raw)) \<and> NL \<notin> set t \<and> draws w w'"
proof -
  let ?ts = "titles_of (translate_newlines raw)"
  from ret fl have "bindP (randrange (int (length ?ts))) (py_getitem ?ts) w = Some (res, w')"
    by (simp add: fetch_title_def bindP_Inr Let_def)
  from choose_result [OF _ this] ne obtain t where "res = Inr t" "t \<in> set ?ts" "draws w w'"
    by auto
  with titles_of_no_NL show ?thesis by blast
qed

lemma fetch_title_ends:
  assumes fl: "files w (BOOK_TITLES cf) = Some raw" and ne: "raw \<noteq> []"
    and small: "length (readlines (translate_newlines raw)) < 2 ^ 32" and fair: "mt_fair (mt w)"
  shows "\<exists>t w'. fetch_title cf w = Some (Inr t, w')"
proof -
  let ?ts = "titles_of (translate_newlines raw)"
  have "?ts \<noteq> []" "length ?ts < 2 ^ 32" using ne small by (auto simp: titles_of_def readlines_Nil_iff)
  from choose_ends [OF this fair] fl show ?thesis
    by (simp add: fetch_title_def bindP_Inr Let_def)
qed

subsection \<open>fetch_authors\<close>

lemma pick_authors_result:
  "names \<noteq> [] \<Longrightarrow> pick_authors names n w = Some (res, w') \<Longrightarrow>
   \<exists>as. res = Inr as \<and> length as = n \<and> set as \<subseteq> set names \<and> draws w w'"
proof (induction n arbitrary: w res w')
  case 0
  then show ?case by (simp add: returnP_def)
next
  case (Suc n)
  have "bindP (bindP (randrange (int (length names))) (py_getitem names))
          (\<lambda>name. bindP (pick_authors names n) (\<lambda>rest. returnP (name # rest))) w = Some (res, w')"
    using Suc.prems(2) by (simp add: bindP_assoc)
  then obtain x w1 where x: "bindP (randrange (int (length names))) (py_getitem names) w = Some (x, w1)"
    and rest: "(case x of Inl e \<Rightarrow> Some (Inl e, w1)
               | Inr name \<Rightarrow> bindP (pick_authors names n) (\<lambda>rest. returnP (name # rest)) w1) = Some (res, w')"
    by (auto simp: bindP_def split: option.splits)
  from choose_result [OF Suc.prems(1) x] obtain name where
    name: "x = Inr name" "name \<in> set names" "draws w w1" by blast
  with rest obtain r w2 where p: "pick_authors names n w1 = Some (r, w2)"
    and fin: "(case r of Inl e \<Rightarrow> Some (Inl e, w2) | Inr rest \<Rightarrow> returnP (name # rest) w2) = Some (res, w')"
    by (auto simp: bindP_def split: option.splits)
  from Suc.IH [OF Suc.prems(1) p] obtain as where
    "r = Inr as" "length as = n" "set as \<subseteq> set names" "draws w1 w2" by blast
  with fin name show ?case by (auto simp: returnP_def intro: draws_trans)
qed

lemma pick_authors_ends:
  "names \<noteq> [] \<Longrightarrow> length names < 2 ^ 32 \<Longrightarrow> mt_fair (mt w) \<Longrightarrow>
   \<exists>as w'. pick_authors names n w = Some (Inr as, w')"
proof (induction n arbitrary: w)
  case 0
  then show ?case by (simp add: returnP_def)
next
  case (Suc n)
  from choose_ends [OF Suc.prems] obtain name w1 where
    c: "bindP (randrange (int (length names))) (py_getitem names) w = Some (Inr name, w1)" by blast
  from choose_result [OF Suc.prems(1) c] have "draws w w1" by simp
  with Suc.prems(3) have "mt_fair (mt w1)" by (rule draws_fair [rotated])
  from Suc.IH [OF Suc.prems(1,2) this] obtain as w2 where "pick_authors names n w1 = Some (Inr as, w2)"
    by blast
  with c show ?case
    by (simp add: bindP_assoc [symmetric] bindP_Inr returnP_def)
qed

lemma pick_authors_no_names:
  "pick_authors [] (Suc n) w = Some (Inl (ValueError ''empty range for randrange()''), w)"
  by (simp add: randrange_empty bindP_Inl)

lemma fetch_authors_missing:
  "files w (AUTHORS cf) = None \<Longrightarrow>
   fetch_authors cf num w = Some (Inl (FileNotFoundError (AUTHORS cf)), w)"
  by (simp add: fetch_authors_def bindP_Inl)

lemma fetch_authors_result:
  assumes fl: "files w (AUTHORS cf) = Some raw" and ok: "raw \<noteq> [] \<or> num \<le> 0"
    and ret: "fetch_authors cf num w = Some (res, w')"
  shows "\<exists>as. res = Inr as \<and> length as = nat num \<and>
            set as \<subseteq> set (names_of (translate_newlines raw)) \<and> draws w w'"
proof (cases "num \<le> 0")
  case True
  with fl ret show ?thesis by (simp add: fetch_authors_def bindP_Inr returnP_def)
next
  case False
  with ok have ne: "names_of (translate_newlines raw) \<noteq> []"
    by (simp add: names_of_def readlines_Nil_iff)
  from ret fl have "pick_authors (names_of (translate_newlines raw)) (nat num) w = Some (res, w')"
    by (simp add: fetch_authors_def bindP_Inr)
  from pick_authors_result [OF ne this] show ?thesis .
qed

lemma fetch_authors_empty_file:
  "files w (AUTHORS cf) = Some [] \<Longrightarrow> 0 < num \<Longrightarrow>
   fetch_authors cf num w = Some (Inl (ValueError ''empty range for randrange()''), w)"
  using pick_authors_no_names [of "nat num - 1" w]
  by (simp add: fetch_authors_def bindP_Inr names_of_def readlines_def Suc_nat_eq_nat_zadd1)

lemma fetch_authors_ends:
  assumes fl: "files w (AUTHORS cf) = Some raw" and ok: "raw \<noteq> [] \<or> num \<le> 0"
    and small: "length (readlines (translate_newlines raw)) < 2 ^ 32" and fair: "mt_fair (mt w)"
  shows "\<exists>as w'. fetch_authors cf num w = Some (Inr as, w')"
proof (cases "num \<le> 0")
  case True
  with fl show ?thesis by (simp add: fetch_authors_def bindP_Inr returnP_def)
next
  case False
  with ok have ne: "names_of (translate_newlines raw) \<noteq> []"
    by (simp add: names_of_def readlines_Nil_iff)
  have "length (names_of (translate_newlines raw)) < 2 ^ 32" using small by (simp add: names_of_def)
  from pick_authors_ends [OF ne this fair] fl show ?thesis
    by (simp add: fetch_authors_def bindP_Inr)
qed

subsection \<open>Summaries used by the generator\<close>

lemma fetch_title_Inr:
  assumes "fetch_title cf w = Some (Inr t, w')"
  shows "\<exists>raw. files w (BOOK_TITLES cf) = Some raw \<and> t \<in> set (titles_of (translate_newlines raw))
           \<and> NL \<notin> set t \<and> draws w w'"
proof (cases "files w (BOOK_TITLES cf)")
  case None
  with assms show ?thesis by (simp add: fetch_title_missing)
next
  case (Some raw)
  show ?thesis
  proof (cases "raw = []")
    case True
    with Some assms show ?thesis by (simp add: fetch_title_empty)
  next
    case False
    from fetch_title_result [OF Some False assms] Some show ?thesis by auto
  qed
qed

lemma fetch_authors_Inr:
  assumes "fetch_authors cf num w = Some (Inr as, w')"
  shows "\<exists>raw. files w (AUTHORS cf) = Some raw \<and> length as = nat num
           \<and> set as \<subseteq> set (names_of (translate_newlines raw)) \<and> draws w w'"
proof (cases "files w (AUTHORS cf)")
  case None
  with assms show ?thesis by (simp add: fetch_authors_missing)
next
  case (Some raw)
  show ?thesis
  proof (cases "raw = [] \<and> 0 < num")
    case True
    with Some assms show ?thesis by (simp add: fetch_authors_empty_file)
  next
    case False
    then have "raw \<noteq> [] \<or> num \<le> 0" by auto
    from fetch_authors_result [OF Some this assms] Some show ?thesis by auto
  qed
qed

lemma fetch_title_zero_stream:
  "mt w = sconst 0 \<Longrightarrow> files w (BOOK_TITLES cf) = Some raw \<Longrightarrow>
   titles_of (translate_newlines raw) = t # ts \<Longrightarrow> length ts < 2 ^ 32 - 1 \<Longrightarrow>
   fetch_title cf w = Some (Inr t, w)"
  by (simp add: fetch_title_def bindP_Inr randrange_zero_stream returnP_def)

lemma pick_authors_zero_stream:
  "mt w = sconst 0 \<Longrightarrow> length names < 2 ^ 32 \<Longrightarrow> names = x # xs \<Longrightarrow>
   pick_authors names n w = Some (Inr (replicate n x), w)"
  by (induction n) (simp_all add: bindP_Inr randrange_zero_stream returnP_def)

lemma fetch_authors_zero_stream:
  "mt w = sconst 0 \<Longrightarrow> files w (AUTHORS cf) = Some raw \<Longrightarrow>
   names_of (translate_newlines raw) = x # xs \<Longrightarrow> length xs < 2 ^ 32 - 1 \<Longrightarrow>
   fetch_authors cf num w = Some (Inr (replicate (nat num) x), w)"
  by (simp add: fetch_authors_def bindP_Inr pick_authors_zero_stream)

lemma keeps_io_fetch_title [io_frame]: "keeps_io (fetch_title cf)"
  unfolding fetch_title_def by (intro io_frame)

lemma keeps_io_pick_authors [io_frame]: "keeps_io (pick_authors names n)"
  by (induction n) (simp_all add: io_frame)

lemma keeps_io_fetch_authors [io_frame]: "keeps_io (fetch_authors cf num)"
  unfolding fetch_authors_def by (intro io_frame)

end
