(* ===== verification/Book_Generator.thy ===== *)
theory Book_Generator
  imports Book_Fetch
begin

text \<open>
  The generator \<open>generate_book(args)\<close> of \<open>src/main.py\<close> (lines 124-153)
  and the command-line arguments it reads. One pass of its \<open>while True\<close>
  loop is \<open>gen_body\<close>: it resolves the author count and the discount, counts
  \<open>pk\<close> up, evaluates the dictionary's fields in their source order and
  yields the book. The generator object is the state machine \<open>gen_state\<close>:
  created and not yet started, suspended at the \<open>yield\<close> with its \<open>pk\<close>,
  or closed after an exception; \<open>gen_next\<close> is Python's \<open>next()\<close> on it.
  Faker is reached through the interface \<open>faker_api\<close>, whose state lives
  in the world.
\<close>

subsection \<open>Arguments and books\<close>

text \<open>
  The namespace \<open>create_parser()\<close> produces (lines 58-79): \<open>-a\<close> and
  \<open>-s\<close> default to \<open>-1\<close>, the subcommand (\<open>args.output\<close>, the field
  \<open>output_arg\<close>) decides which output arguments exist.
\<close>

datatype output_cmd =
    NoOutput
  | JsonOut string int
  | CsvOut string string string

record args =
  count :: int
  authors :: int
  sale :: int
  output_arg :: output_cmd

text \<open>
  The book dictionary of lines 137-151, its keys in source order. \<open>price\<close>
  holds the float \<open>round(random()*500, 2)\<close> as its number of hundredths:
  the float is the double nearest to \<open>price / 100\<close>.
\<close>

record book_fields =
  title :: string
  year :: int
  pages :: int
  isbn13 :: string
  rating :: int
  price :: int
  discount :: int
  author :: "string list"

record book =
  model :: string
  pk :: int
  bfields :: book_fields

text \<open>
  The Faker library: the state \<open>Faker.seed(0)\<close> sets, and \<open>isbn13()\<close>,
  which reads and advances that state. Faker draws from its own random
  instance, never from the global Mersenne Twister.
\<close>

record 'f faker_api =
  seed0 :: 'f
  isbn13_gen :: "'f \<Rightarrow> string \<times> 'f"

definition fake_isbn13 :: "'f faker_api \<Rightarrow> ('f world, string) pyM" where
  "fake_isbn13 fk w =
     (case isbn13_gen fk (faker w) of (s, f') \<Rightarrow> Some (Inr s, w\<lparr>faker := f'\<rparr>))"

subsection \<open>The price: \<open>round(random()*500, 2)\<close>\<close>

text \<open>
  Rounding \<open>a / d\<close> to the nearest integer, ties to even, as IEEE arithmetic
  and Python's \<open>round\<close> do.
\<close>

definition round_half_even_div :: "nat \<Rightarrow> nat \<Rightarrow> nat" where
  "round_half_even_div a d =
     (let q = a div d; r = a mod d
      in if 2 * r < d then q else if d < 2 * r then q + 1 else if even q then q else q + 1)"

text \<open>
  \<open>random()\<close> is \<open>k / 2^53\<close>. The product \<open>k / 2^53 * 500.0\<close> is
  \<open>k * 500 / 2^53\<close> rounded to 53 significant bits; \<open>float_times_500 k\<close> is
  its numerator over \<open>2^53\<close>.
\<close>

definition float_times_500 :: "nat \<Rightarrow> nat" where
  "float_times_500 k =
     (let m = k * 500; e = bit_length m - 53 in round_half_even_div m (2 ^ e) * 2 ^ e)"

text \<open>\<open>round(x, 2)\<close> of that float, in hundredths.\<close>

definition price_cents :: "nat \<Rightarrow> int" where
  "price_cents k = int (round_half_even_div (float_times_500 k * 100) (2 ^ 53))"

subsection \<open>One pass of the loop\<close>

text \<open>
  Lines 134-153, from the state \<open>pk = n\<close>: the conditional expressions of
  lines 134 and 135 draw only when the argument is the sentinel \<open>-1\<close>; the
  dictionary's values are evaluated in source order.
\<close>

definition gen_body :: "conf \<Rightarrow> 'f faker_api \<Rightarrow> args \<Rightarrow> int \<Rightarrow> ('f world, book \<times> int) pyM" where
  "gen_body cf fk a n =
     bindP (if authors a \<noteq> -1 then returnP (authors a) else randint 1 3) (\<lambda>amt_authors.
     bindP (if sale a \<noteq> -1 then returnP (sale a) else randint 0 100) (\<lambda>s.
     (let n' = n + 1 in
     bindP (fetch_title cf) (\<lambda>t.
     bindP (randint 1800 2020) (\<lambda>y.
     bindP (randint 100 500) (\<lambda>p.
     bindP (fake_isbn13 fk) (\<lambda>isbn.
     bindP (randint 0 5) (\<lambda>r.
     bindP py_random (\<lambda>x.
     bindP (fetch_authors cf amt_authors) (\<lambda>auths.
     returnP (\<lparr>model = MODEL cf, pk = n',
               bfields = \<lparr>title = t, year = y, pages = p, isbn13 = isbn, rating = r,
                          price = price_cents x, discount = s, author = auths\<rparr>\<rparr>, n')))))))))))"

subsection \<open>The generator object\<close>

datatype gen_state = GenCreated | GenSuspended int | GenClosed

text \<open>
  \<open>next(gen)\<close>. The first call runs lines 130-132 (\<open>pk = 0\<close>, Faker
  seeded) before the loop; later calls resume after the \<open>yield\<close>. An
  exception closes the generator (the caller sees it; \<open>gen_step\<close> records the
  closed state); a closed generator raises \<open>StopIteration\<close>.
\<close>

definition gen_resume :: "conf \<Rightarrow> 'f faker_api \<Rightarrow> args \<Rightarrow> int \<Rightarrow> ('f world, book \<times> gen_state) pyM" where
  "gen_resume cf fk a n =
     bindP (gen_body cf fk a n) (\<lambda>(b, n'). returnP (b, GenSuspended n'))"

fun gen_next :: "conf \<Rightarrow> 'f faker_api \<Rightarrow> args \<Rightarrow> gen_state \<Rightarrow> ('f world, book \<times> gen_state) pyM" where
  "gen_next cf fk a GenCreated =
     bindP (modifyP (\<lambda>w. w\<lparr>faker := seed0 fk\<rparr>)) (\<lambda>_. gen_resume cf fk a 0)"
| "gen_next cf fk a (GenSuspended n) = gen_resume cf fk a n"
| "gen_next cf fk a GenClosed = raiseP StopIteration"

inductive gen_step ::
  "conf \<Rightarrow> 'f faker_api \<Rightarrow> args \<Rightarrow> gen_state \<times> 'f world \<Rightarrow> pyerror + book \<Rightarrow> gen_state \<times> 'f world \<Rightarrow> bool"
  for cf fk a where
  yield: "gen_next cf fk a g w = Some (Inr (b, g'), w') \<Longrightarrow> gen_step cf fk a (g, w) (Inr b) (g', w')"
| raise: "gen_next cf fk a g w = Some (Inl e, w') \<Longrightarrow> gen_step cf fk a (g, w) (Inl e) (GenClosed, w')"

text \<open>
  The states a generator created in world \<open>w0\<close> reaches, with the number of
  books it has yielded.
\<close>

inductive gen_reach :: "conf \<Rightarrow> 'f faker_api \<Rightarrow> args \<Rightarrow> 'f world \<Rightarrow> nat \<Rightarrow> gen_state \<times> 'f world \<Rightarrow> bool"
  for cf fk a w0 where
  start: "gen_reach cf fk a w0 0 (GenCreated, w0)"
| yield: "gen_reach cf fk a w0 n s \<Longrightarrow> gen_step cf fk a s (Inr b) s' \<Longrightarrow> gen_reach cf fk a w0 (Suc n) s'"
| raise: "gen_reach cf fk a w0 n s \<Longrightarrow> gen_step cf fk a s (Inl e) s' \<Longrightarrow> gen_reach cf fk a w0 n s'"

subsection \<open>Collecting the books: lines 15-18 of \<open>main\<close>\<close>

fun collect_books :: "conf \<Rightarrow> 'f faker_api \<Rightarrow> args \<Rightarrow> nat \<Rightarrow> gen_state \<Rightarrow> ('f world, book list) pyM" where
  "collect_books cf fk a 0 g = returnP []"
| "collect_books cf fk a (Suc i) g =
     bindP (gen_next cf fk a g) (\<lambda>(b, g').
     bindP (collect_books cf fk a i g') (\<lambda>bs. returnP (b # bs)))"

definition generate_books :: "conf \<Rightarrow> 'f faker_api \<Rightarrow> args \<Rightarrow> ('f world, book list) pyM" where
  "generate_books cf fk a = collect_books cf fk a (nat (count a)) GenCreated"

subsection \<open>Rounding and the price bound\<close>

text \<open>Rounding to nearest is off by at most one half.\<close>

lemma round_half_even_div_bounds:
  assumes "0 < d"
  shows "2 * d * round_half_even_div a d \<le> 2 * a + d" and "2 * a \<le> 2 * d * round_half_even_div a d + d"
proof -
  define q r where "q = a div d" and "r = a mod d"
  have a: "a = d * q + r" and r: "r < d" using assms by (simp_all add: q_def r_def)
  have "2 * d * round_half_even_div a d \<le> 2 * a + d \<and> 2 * a \<le> 2 * d * round_half_even_div a d + d"
  proof -
    consider (down) "2 * r < d" | (up) "d < 2 * r" | (tie) "2 * r = d" by linarith
    then show ?thesis
    proof cases
      case down
      then show ?thesis by (simp add: round_half_even_div_def Let_def q_def [symmetric] r_def [symmetric] a)
    next
      case up
      then have "round_half_even_div a d = q + 1"
        by (simp add: round_half_even_div_def Let_def q_def [symmetric] r_def [symmetric])
      with up r show ?thesis by (simp add: a algebra_simps)
    next
      case tie
      then have "round_half_even_div a d = q \<or> round_half_even_div a d = q + 1"
        by (simp add: round_half_even_div_def Let_def q_def [symmetric] r_def [symmetric])
      with tie show ?thesis by (auto simp: a algebra_simps)
    qed
  qed
  then show "2 * d * round_half_even_div a d \<le> 2 * a + d" and "2 * a \<le> 2 * d * round_half_even_div a d + d"
    by simp_all
qed

text \<open>The float \<open>random() * 500\<close> stays below 500.\<close>

lemma float_times_500_less:
  assumes "k < 2 ^ 53"
  shows "float_times_500 k < 500 * 2 ^ 53"
proof -
  define m where "m = k * 500"
  define e where "e = bit_length m - 53"
  have "m < 2 ^ 62" using assms by (simp add: m_def)
  then have "bit_length m \<le> 62" by (simp add: bit_length_le_iff)
  then have "e \<le> 9" by (simp add: e_def)
  then have pe: "(2::nat) ^ e \<le> 512"
    using power_increasing [of e 9 "2::nat"] by simp
  have "2 * 2 ^ e * round_half_even_div m (2 ^ e) \<le> 2 * m + 2 ^ e"
    by (rule round_half_even_div_bounds) simp
  also have "\<dots> \<le> 2 * m + 512" using pe by simp
  also have "\<dots> < 2 * (500 * 2 ^ 53)" using assms by (simp add: m_def)
  finally have "round_half_even_div m (2 ^ e) * 2 ^ e < 500 * 2 ^ 53" by (simp add: mult.commute)
  then show ?thesis by (simp add: float_times_500_def m_def e_def Let_def)
qed

text \<open>
  \<open>round(random() * 500, 2)\<close> lies in \<open>[0, 500]\<close>: the upper end is
  reached (\<open>price_cents_max\<close>), because rounding to two places can carry a
  product just below 500 up to it.
\<close>

lemma price_cents_bounds: "k < 2 ^ 53 \<Longrightarrow> 0 \<le> price_cents k \<and> price_cents k \<le> 50000"
proof -
  assume k: "k < 2 ^ 53"
  define c where "c = round_half_even_div (float_times_500 k * 100) (2 ^ 53)"
  have "2 * 2 ^ 53 * c \<le> 2 * (float_times_500 k * 100) + 2 ^ 53"
    unfolding c_def by (rule round_half_even_div_bounds) simp
  also have "\<dots> < 2 * (500 * 2 ^ 53 * 100) + 2 ^ 53"
    using float_times_500_less [OF k] by simp
  finally have "c \<le> 50000" by simp
  then show ?thesis unfolding price_cents_def c_def by simp
qed

subsection \<open>One book\<close>

text \<open>
  What the code promises of every book's fields, given the arguments: the
  ranges of the \<open>randint\<close> calls, the price bound, and for the discount and
  the author count either the argument or the sampled range.
\<close>

definition fields_in_range :: "args \<Rightarrow> book_fields \<Rightarrow> bool" where
  "fields_in_range a f \<longleftrightarrow>
     1800 \<le> year f \<and> year f \<le> 2020 \<and> 100 \<le> pages f \<and> pages f \<le> 500 \<and>
     0 \<le> rating f \<and> rating f \<le> 5 \<and> 0 \<le> price f \<and> price f \<le> 50000 \<and>
     (if sale a = -1 then 0 \<le> discount f \<and> discount f \<le> 100 else discount f = sale a) \<and>
     (if authors a = -1 then 1 \<le> length (author f) \<and> length (author f) \<le> 3
      else length (author f) = nat (authors a))"

lemma sentinel_or_randint:
  assumes "(if v \<noteq> -1 then returnP v else randint lo hi) w = Some (Inr x, w')" "lo \<le> hi"
  shows "(if v = -1 then lo \<le> x \<and> x \<le> hi else x = v) \<and> draws w w'"
proof (cases "v = -1")
  case True
  with assms randint_result [of lo hi w "Inr x" w'] show ?thesis by auto
next
  case False
  with assms show ?thesis by (simp add: returnP_def)
qed

lemma randint_Inr:
  "randint lo hi w = Some (Inr x, w') \<Longrightarrow> lo \<le> hi \<Longrightarrow> lo \<le> x \<and> x \<le> hi \<and> draws w w'"
  using randint_result by fastforce

lemma fake_isbn13_eq:
  "fake_isbn13 fk w = Some (Inr (fst (isbn13_gen fk (faker w))), w\<lparr>faker := snd (isbn13_gen fk (faker w))\<rparr>)"
  by (simp add: fake_isbn13_def split: prod.split)

lemma gen_body_Inr:
  assumes "gen_body cf fk a n w = Some (Inr (b, n'), w')"
  shows "n' = n + 1 \<and> pk b = n + 1 \<and> model b = MODEL cf \<and> fields_in_range a (bfields b) \<and>
         isbn13 (bfields b) = fst (isbn13_gen fk (faker w)) \<and>
         faker w' = snd (isbn13_gen fk (faker w)) \<and> files w' = files w \<and> stdout w' = stdout w"
proof -
  from assms obtain amt w1 s w2 t w3 y w4 p w5 isbn w6 r w7 x w8 auths
    where amt: "(if authors a \<noteq> -1 then returnP (authors a) else randint 1 3) w = Some (Inr amt, w1)"
      and s: "(if sale a \<noteq> -1 then returnP (sale a) else randint 0 100) w1 = Some (Inr s, w2)"
      and t: "fetch_title cf w2 = Some (Inr t, w3)"
      and y: "randint 1800 2020 w3 = Some (Inr y, w4)"
      and p: "randint 100 500 w4 = Some (Inr p, w5)"
      and isbn: "fake_isbn13 fk w5 = Some (Inr isbn, w6)"
      and r: "randint 0 5 w6 = Some (Inr r, w7)"
      and x: "py_random w7 = Some (Inr x, w8)"
      and auths: "fetch_authors cf amt w8 = Some (Inr auths, w')"
      and b: "b = \<lparr>model = MODEL cf, pk = n + 1,
                 bfields = \<lparr>title = t, year = y, pages = p, isbn13 = isbn, rating = r,
                            price = price_cents x, discount = s, author = auths\<rparr>\<rparr>"
      and n': "n' = n + 1"
    unfolding gen_body_def by (auto simp: bindP_eq_Inr Let_def returnP_def)
  from sentinel_or_randint [OF amt] have amt': "if authors a = -1 then 1 \<le> amt \<and> amt \<le> 3 else amt = authors a"
    and d1: "draws w w1" by simp_all
  from sentinel_or_randint [OF s] have s': "if sale a = -1 then 0 \<le> s \<and> s \<le> 100 else s = sale a"
    and d2: "draws w1 w2" by simp_all
  from fetch_title_Inr [OF t] have d3: "draws w2 w3" by blast
  from randint_Inr [OF y] have y': "1800 \<le> y \<and> y \<le> 2020" and d4: "draws w3 w4" by simp_all
  from randint_Inr [OF p] have p': "100 \<le> p \<and> p \<le> 500" and d5: "draws w4 w5" by simp_all
  from isbn have isbn': "isbn = fst (isbn13_gen fk (faker w5))"
    and w6: "w6 = w5\<lparr>faker := snd (isbn13_gen fk (faker w5))\<rparr>"
    by (simp_all add: fake_isbn13_eq)
  from randint_Inr [OF r] have r': "0 \<le> r \<and> r \<le> 5" and d7: "draws w6 w7" by simp_all
  from py_random_result [OF x] have x': "x < 2 ^ 53" and d8: "draws w7 w8" by simp_all
  from fetch_authors_Inr [OF auths] have len: "length auths = nat amt" and d9: "draws w8 w'" by auto
  have d15: "draws w w5" using d1 d2 d3 d4 d5 by (blast intro: draws_trans)
  have d69: "draws w6 w'" using d7 d8 d9 by (blast intro: draws_trans)
  have fw5: "faker w5 = faker w" using d15 by simp
  have frame: "files w' = files w \<and> stdout w' = stdout w \<and> faker w' = faker w6"
    using d15 d69 w6 by simp
  have "fields_in_range a (bfields b)"
    using amt' s' y' p' r' len price_cents_bounds [OF x']
    by (auto simp: fields_in_range_def b split: if_splits)
  with frame w6 fw5 isbn' b n' show ?thesis by simp
qed

subsection \<open>next() and the generator's states\<close>

text \<open>The \<open>pk\<close> a generator resumes from.\<close>

fun gen_pk :: "gen_state \<Rightarrow> int" where
  "gen_pk GenCreated = 0"
| "gen_pk (GenSuspended n) = n"
| "gen_pk GenClosed = 0"

text \<open>The faker state the next pass starts from: the seeded one on the first call.\<close>

fun faker_at :: "'f faker_api \<Rightarrow> gen_state \<Rightarrow> 'f \<Rightarrow> 'f" where
  "faker_at fk GenCreated f = seed0 fk"
| "faker_at fk g f = f"

lemma gen_next_closed: "gen_next cf fk a GenClosed w = Some (Inl StopIteration, w)"
  by (simp add: raiseP_def)

lemma keeps_io_fake_isbn13 [io_frame]: "keeps_io (fake_isbn13 fk)"
  by (simp add: keeps_io_def fake_isbn13_def split: prod.splits)

lemma keeps_io_gen_next [io_frame]: "keeps_io (gen_next cf fk a g)"
  by (cases g) (simp_all add: gen_resume_def gen_body_def io_frame)

lemma gen_resume_Inr:
  "gen_resume cf fk a n w = Some (Inr (b, g'), w') \<longleftrightarrow>
   (\<exists>n'. gen_body cf fk a n w = Some (Inr (b, n'), w') \<and> g' = GenSuspended n')"
  by (auto simp: gen_resume_def bindP_eq_Inr returnP_def)

lemma gen_next_Inr:
  assumes "gen_next cf fk a g w = Some (Inr (b, g'), w')"
  shows "g \<noteq> GenClosed \<and> g' = GenSuspended (gen_pk g + 1) \<and> pk b = gen_pk g + 1 \<and>
         model b = MODEL cf \<and> fields_in_range a (bfields b) \<and>
         isbn13 (bfields b) = fst (isbn13_gen fk (faker_at fk g (faker w))) \<and>
         faker w' = snd (isbn13_gen fk (faker_at fk g (faker w))) \<and>
         files w' = files w \<and> stdout w' = stdout w"
proof (cases g)
  case GenCreated
  with assms obtain n' where "gen_body cf fk a 0 (w\<lparr>faker := seed0 fk\<rparr>) = Some (Inr (b, n'), w')"
    "g' = GenSuspended n'"
    by (auto simp: bindP_Inr modifyP_def gen_resume_Inr)
  with GenCreated show ?thesis by (auto dest: gen_body_Inr)
next
  case (GenSuspended n)
  with assms obtain n' where "gen_body cf fk a n w = Some (Inr (b, n'), w')" "g' = GenSuspended n'"
    by (auto simp: gen_resume_Inr)
  with GenSuspended show ?thesis by (auto dest: gen_body_Inr)
next
  case GenClosed
  with assms show ?thesis by (simp add: gen_next_closed raiseP_def)
qed

subsection \<open>The books main collects\<close>

text \<open>The ISBNs Faker produces from a state, in order.\<close>

fun faker_isbns :: "'f faker_api \<Rightarrow> 'f \<Rightarrow> nat \<Rightarrow> string list" where
  "faker_isbns fk f 0 = []"
| "faker_isbns fk f (Suc i) = fst (isbn13_gen fk f) # faker_isbns fk (snd (isbn13_gen fk f)) i"

lemma collect_books_Inr:
  assumes "collect_books cf fk a i g w = Some (Inr bs, w')"
  shows "length bs = i \<and> map pk bs = [gen_pk g + 1 .. gen_pk g + int i] \<and>
         (\<forall>b\<in>set bs. model b = MODEL cf \<and> fields_in_range a (bfields b)) \<and>
         map (isbn13 \<circ> bfields) bs = faker_isbns fk (faker_at fk g (faker w)) i \<and>
         files w' = files w \<and> stdout w' = stdout w"
  using assms
proof (induction i arbitrary: g w bs)
  case 0
  then show ?case by (simp add: returnP_def)
next
  case (Suc i)
  from Suc.prems obtain b g' w1 bs' where
    nx: "gen_next cf fk a g w = Some (Inr (b, g'), w1)" and
    rest: "collect_books cf fk a i g' w1 = Some (Inr bs', w')" and bs: "bs = b # bs'"
    by (auto simp: bindP_eq_Inr returnP_def)
  note one = gen_next_Inr [OF nx]
  note IH = Suc.IH [OF rest]
  have "[gen_pk g + 1 .. gen_pk g + int (Suc i)] = (gen_pk g + 1) # [gen_pk g + 1 + 1 .. gen_pk g + 1 + int i]"
    by (simp add: upto_rec1 algebra_simps)
  with one IH bs show ?case by (simp add: faker_at.simps(2))
qed

text \<open>A closed generator yields nothing: \<open>next\<close> raises \<open>StopIteration\<close>.\<close>

lemma collect_books_closed:
  "collect_books cf fk a (Suc i) GenClosed w = Some (Inl StopIteration, w)"
  by (simp add: raiseP_def bindP_def)

subsection \<open>Reachable generator states\<close>

inductive_cases gen_step_yieldE: "gen_step cf fk a s (Inr b) s'"
inductive_cases gen_step_raiseE: "gen_step cf fk a s (Inl e) s'"

lemma gen_step_closed:
  "gen_step cf fk a (GenClosed, w) r s' \<Longrightarrow> r = Inl StopIteration \<and> s' = (GenClosed, w)"
  by (auto elim!: gen_step.cases simp: gen_next_closed raiseP_def)

lemma gen_reach_inv:
  "gen_reach cf fk a w0 n s \<Longrightarrow>
   (fst s = GenCreated \<longrightarrow> n = 0 \<and> snd s = w0) \<and> (\<forall>k. fst s = GenSuspended k \<longrightarrow> k = int n) \<and>
   files (snd s) = files w0 \<and> stdout (snd s) = stdout w0"
proof (induction rule: gen_reach.induct)
  case start
  then show ?case by simp
next
  case (yield n s b s')
  then show ?case
    by (auto elim!: gen_step_yieldE dest!: gen_next_Inr) (cases "fst s"; simp)+
next
  case (raise n s e s')
  from raise.hyps(2) obtain w' where "s' = (GenClosed, w')" "gen_next cf fk a (fst s) (snd s) = Some (Inl e, w')"
    by (auto elim!: gen_step_raiseE)
  moreover have "files w' = files (snd s) \<and> stdout w' = stdout (snd s)"
    using keeps_io_gen_next calculation(2) by (rule keeps_ioD)
  ultimately show ?case using raise.IH by simp
qed

subsection \<open>Liveness\<close>

text \<open>
  The conditions under which a pass of the loop returns a book: both list
  files exist, are not empty and have fewer than \<open>2^32\<close> lines, and the
  Mersenne Twister keeps producing words with a clear top bit.
\<close>

definition list_file_ok :: "'f world \<Rightarrow> string \<Rightarrow> bool" where
  "list_file_ok w path \<longleftrightarrow>
     (case files w path of
        None \<Rightarrow> False
      | Some raw \<Rightarrow> raw \<noteq> [] \<and> length (readlines (translate_newlines raw)) < 2 ^ 32)"

definition sources_ok :: "conf \<Rightarrow> 'f world \<Rightarrow> bool" where
  "sources_ok cf w \<longleftrightarrow> list_file_ok w (BOOK_TITLES cf) \<and> list_file_ok w (AUTHORS cf) \<and> mt_fair (mt w)"

lemma sources_ok_draws: "draws w w' \<Longrightarrow> sources_ok cf w \<Longrightarrow> sources_ok cf w'"
  by (auto simp: sources_ok_def list_file_ok_def dest: draws_fair)

lemma sources_ok_faker [simp]: "sources_ok cf (w\<lparr>faker := f\<rparr>) = sources_ok cf w"
  by (simp add: sources_ok_def list_file_ok_def)

lemma sources_ok_file:
  assumes "sources_ok cf w"
  obtains rt ra where "files w (BOOK_TITLES cf) = Some rt" "rt \<noteq> []"
    "length (readlines (translate_newlines rt)) < 2 ^ 32"
    "files w (AUTHORS cf) = Some ra" "ra \<noteq> []" "length (readlines (translate_newlines ra)) < 2 ^ 32"
    "mt_fair (mt w)"
  using assms by (auto simp: sources_ok_def list_file_ok_def split: option.splits)

text \<open>One step of the loop body returns a value and keeps the conditions.\<close>

lemma ok_step:
  assumes "m w = Some (Inr x, w1)" "draws w w1" "sources_ok cf w"
    "\<exists>y w2. f x w1 = Some (Inr y, w2) \<and> sources_ok cf w2"
  shows "\<exists>y w2. bindP m f w = Some (Inr y, w2) \<and> sources_ok cf w2"
  using assms by (simp add: bindP_Inr)

lemma randint_ok:
  assumes "sources_ok cf w" "lo \<le> hi" "hi - lo < 2 ^ 32 - 1"
  obtains x w1 where "randint lo hi w = Some (Inr x, w1)" "draws w w1" "sources_ok cf w1"
proof -
  from assms(1) have "mt_fair (mt w)" by (simp add: sources_ok_def)
  from randint_ends [OF assms(2,3) this] obtain x w1 where r: "randint lo hi w = Some (Inr x, w1)" by blast
  from randint_Inr [OF r assms(2)] have d: "draws w w1" by simp
  from r d sources_ok_draws [OF d assms(1)] show ?thesis by (rule that)
qed

lemma sentinel_ok:
  assumes "sources_ok cf w" "lo \<le> hi" "hi - lo < 2 ^ 32 - 1"
  obtains x w1 where "(if v \<noteq> -1 then returnP v else randint lo hi) w = Some (Inr x, w1)"
    "draws w w1" "sources_ok cf w1"
proof (cases "v = -1")
  case True
  obtain x w1 where "randint lo hi w = Some (Inr x, w1)" "draws w w1" "sources_ok cf w1"
    using randint_ok [OF assms] by blast
  with True show ?thesis by (intro that) simp_all
next
  case False
  with assms(1) that show ?thesis by (simp add: returnP_def)
qed

lemma gen_body_ends:
  assumes ok: "sources_ok cf w"
  shows "\<exists>y w'. gen_body cf fk a n w = Some (Inr y, w') \<and> sources_ok cf w'"
proof -
  obtain amt w1 where amt: "(if authors a \<noteq> -1 then returnP (authors a) else randint 1 3) w = Some (Inr amt, w1)"
    and d1: "draws w w1" and ok1: "sources_ok cf w1" by (rule sentinel_ok [OF ok, of 1 3 "authors a"]) auto
  obtain s w2 where s: "(if sale a \<noteq> -1 then returnP (sale a) else randint 0 100) w1 = Some (Inr s, w2)"
    and d2: "draws w1 w2" and ok2: "sources_ok cf w2" by (rule sentinel_ok [OF ok1, of 0 100 "sale a"]) auto
  from ok2 obtain rt where "files w2 (BOOK_TITLES cf) = Some rt" "rt \<noteq> []"
    "length (readlines (translate_newlines rt)) < 2 ^ 32" "mt_fair (mt w2)"
    by (elim sources_ok_file)
  from fetch_title_ends [OF this] obtain t w3 where t: "fetch_title cf w2 = Some (Inr t, w3)" by blast
  from fetch_title_Inr [OF t] ok2 have ok3: "sources_ok cf w3" by (blast intro: sources_ok_draws)
  obtain y w4 where y: "randint 1800 2020 w3 = Some (Inr y, w4)" and ok4: "sources_ok cf w4"
    by (rule randint_ok [OF ok3, of 1800 2020]) auto
  obtain p w5 where p: "randint 100 500 w4 = Some (Inr p, w5)" and ok5: "sources_ok cf w5"
    by (rule randint_ok [OF ok4, of 100 500]) auto
  define w6 where "w6 = w5\<lparr>faker := snd (isbn13_gen fk (faker w5))\<rparr>"
  have isbn: "fake_isbn13 fk w5 = Some (Inr (fst (isbn13_gen fk (faker w5))), w6)"
    by (simp add: fake_isbn13_eq w6_def)
  have ok6: "sources_ok cf w6" using ok5 by (simp add: w6_def)
  obtain r w7 where r: "randint 0 5 w6 = Some (Inr r, w7)" and ok7: "sources_ok cf w7"
    by (rule randint_ok [OF ok6, of 0 5]) auto
  obtain x where x: "py_random w7 = Some (Inr x, w7\<lparr>mt := sdrop 2 (mt w7)\<rparr>)"
    using py_random_eq by blast
  have ok8: "sources_ok cf (w7\<lparr>mt := sdrop 2 (mt w7)\<rparr>)"
    using ok7 by (rule sources_ok_draws [rotated]) (auto simp: draws_def)
  from ok8 obtain ra where "files (w7\<lparr>mt := sdrop 2 (mt w7)\<rparr>) (AUTHORS cf) = Some ra" "ra \<noteq> [] \<or> amt \<le> 0"
    "length (readlines (translate_newlines ra)) < 2 ^ 32" "mt_fair (mt (w7\<lparr>mt := sdrop 2 (mt w7)\<rparr>))"
    by (elim sources_ok_file) blast
  from fetch_authors_ends [OF this] obtain auths w9
    where au: "fetch_authors cf amt (w7\<lparr>mt := sdrop 2 (mt w7)\<rparr>) = Some (Inr auths, w9)" by blast
  from fetch_authors_Inr [OF au] ok8 have ok9: "sources_ok cf w9" by (blast intro: sources_ok_draws)
  have "gen_body cf fk a n w =
        returnP (\<lparr>model = MODEL cf, pk = n + 1,
                   bfields = \<lparr>title = t, year = y, pages = p, isbn13 = fst (isbn13_gen fk (faker w5)),
                              rating = r, price = price_cents x, discount = s, author = auths\<rparr>\<rparr>, n + 1) w9"
    unfolding gen_body_def Let_def
    by (simp only: bindP_Inr [of "if authors a \<noteq> -1 then returnP (authors a) else randint 1 3" w, OF amt]
        bindP_Inr [of "if sale a \<noteq> -1 then returnP (sale a) else randint 0 100" w1, OF s]
        bindP_Inr [of "fetch_title cf" w2, OF t] bindP_Inr [of "randint 1800 2020" w3, OF y]
        bindP_Inr [of "randint 100 500" w4, OF p] bindP_Inr [of "fake_isbn13 fk" w5, OF isbn]
        bindP_Inr [of "randint 0 5" w6, OF r] bindP_Inr [of py_random w7, OF x]
        bindP_Inr [of "fetch_authors cf amt" "w7\<lparr>mt := sdrop 2 (mt w7)\<rparr>", OF au])
  with ok9 show ?thesis by (simp add: returnP_def)
qed

lemma gen_next_ends:
  assumes "g \<noteq> GenClosed" "sources_ok cf w"
  shows "\<exists>b g' w'. gen_next cf fk a g w = Some (Inr (b, g'), w') \<and> g' \<noteq> GenClosed \<and> sources_ok cf w'"
proof -
  let ?w = "if g = GenCreated then w\<lparr>faker := seed0 fk\<rparr> else w"
  have ok: "sources_ok cf ?w" using assms(2) by simp
  obtain y w' where body: "gen_body cf fk a (gen_pk g) ?w = Some (Inr y, w')" and ok': "sources_ok cf w'"
    using gen_body_ends [OF ok] by blast
  obtain b n' where y: "y = (b, n')" by fastforce
  have "gen_next cf fk a g w = Some (Inr (b, GenSuspended n'), w')"
    using assms(1) body y by (cases g) (simp_all add: gen_resume_def bindP_Inr modifyP_def returnP_def)
  with ok' show ?thesis by blast
qed

lemma collect_books_ends:
  "g \<noteq> GenClosed \<Longrightarrow> sources_ok cf w \<Longrightarrow> \<exists>bs w'. collect_books cf fk a i g w = Some (Inr bs, w')"
proof (induction i arbitrary: g w)
  case 0
  then show ?case by (simp add: returnP_def)
next
  case (Suc i)
  from gen_next_ends [OF Suc.prems] obtain b g' w1 where
    nx: "gen_next cf fk a g w = Some (Inr (b, g'), w1)" and "g' \<noteq> GenClosed" "sources_ok cf w1"
    by blast
  from Suc.IH [OF this(2,3)] obtain bs w' where "collect_books cf fk a i g' w1 = Some (Inr bs, w')"
    by blast
  with nx show ?case by (simp add: bindP_Inr returnP_def)
qed

text \<open>The generator stays open: after any number of books it is in a reachable open state.\<close>

lemma gen_reach_open:
  "sources_ok cf w0 \<Longrightarrow> \<exists>g w. gen_reach cf fk a w0 n (g, w) \<and> g \<noteq> GenClosed \<and> sources_ok cf w"
proof (induction n)
  case 0
  then show ?case by (blast intro: gen_reach.start)
next
  case (Suc n)
  then obtain g w where r: "gen_reach cf fk a w0 n (g, w)" and open_g: "g \<noteq> GenClosed" and ok: "sources_ok cf w"
    by blast
  from gen_next_ends [OF open_g ok] obtain b g' w' where
    "gen_next cf fk a g w = Some (Inr (b, g'), w')" "g' \<noteq> GenClosed" "sources_ok cf w'" by blast
  then show ?case using gen_reach.yield [OF r gen_step.yield] by blast
qed

subsection \<open>The whole run\<close>

lemma generate_books_Inr:
  assumes "generate_books cf fk a w = Some (Inr bs, w')"
  shows "length bs = nat (count a) \<and> map pk bs = [1 .. count a] \<and>
         (\<forall>b\<in>set bs. model b = MODEL cf \<and> fields_in_range a (bfields b)) \<and>
         map (isbn13 \<circ> bfields) bs = faker_isbns fk (seed0 fk) (nat (count a)) \<and>
         files w' = files w \<and> stdout w' = stdout w"
proof -
  from collect_books_Inr [OF assms [unfolded generate_books_def]]
  have "map pk bs = [1 .. int (nat (count a))]" and rest: "length bs = nat (count a) \<and>
         (\<forall>b\<in>set bs. model b = MODEL cf \<and> fields_in_range a (bfields b)) \<and>
         map (isbn13 \<circ> bfields) bs = faker_isbns fk (seed0 fk) (nat (count a)) \<and>
         files w' = files w \<and> stdout w' = stdout w"
    by simp_all
  moreover have "[1 .. int (nat (count a))] = [1 .. count a]"
    by (cases "count a \<le> 0") simp_all
  ultimately show ?thesis by simp
qed

lemma generate_books_ends:
  "sources_ok cf w \<Longrightarrow> \<exists>bs w'. generate_books cf fk a w = Some (Inr bs, w')"
  unfolding generate_books_def by (rule collect_books_ends) simp_all

subsection \<open>Concrete runs\<close>

text \<open>
  On the all-zero stream every \<open>randint\<close> returns its lower bound, every
  list draw picks the first line, and \<open>random()\<close> returns 0.0: one pass of
  the loop is a closed term.
\<close>

lemma gen_body_zero_stream:
  assumes "mt w = sconst 0"
    and "files w (BOOK_TITLES cf) = Some rt" "titles_of (translate_newlines rt) = t # ts" "length ts < 2 ^ 32 - 1"
    and "files w (AUTHORS cf) = Some ra" "names_of (translate_newlines ra) = x # xs" "length xs < 2 ^ 32 - 1"
  shows "gen_body cf fk a n w =
    Some (Inr (\<lparr>model = MODEL cf, pk = n + 1,
                bfields = \<lparr>title = t, year = 1800, pages = 100, isbn13 = fst (isbn13_gen fk (faker w)),
                           rating = 0, price = 0, discount = (if sale a \<noteq> -1 then sale a else 0),
                           author = replicate (nat (if authors a \<noteq> -1 then authors a else 1)) x\<rparr>\<rparr>, n + 1),
          w\<lparr>faker := snd (isbn13_gen fk (faker w))\<rparr>)"
proof -
  have p0: "price_cents 0 = 0"
    by (simp add: price_cents_def float_times_500_def round_half_even_div_def)
  show ?thesis
    using assms
    by (simp add: gen_body_def Let_def bindP_def returnP_def randint_zero_stream fetch_title_zero_stream
        fake_isbn13_eq py_random_zero_stream fetch_authors_zero_stream p0)
qed

subsection \<open>No I/O and errors of a whole run\<close>

lemma keeps_io_collect_books [io_frame]: "keeps_io (collect_books cf fk a i g)"
  by (induction i arbitrary: g) (simp_all add: io_frame)

lemma keeps_io_generate_books [io_frame]: "keeps_io (generate_books cf fk a)"
  unfolding generate_books_def by (rule keeps_io_collect_books)

lemma sentinel_fair:
  assumes "mt_fair (mt w)" "lo \<le> hi" "hi - lo < 2 ^ 32 - 1"
  obtains x w1 where "(if v \<noteq> -1 then returnP v else randint lo hi) w = Some (Inr x, w1)" "draws w w1"
proof (cases "v = -1")
  case True
  from randint_ends [OF assms(2,3,1)] obtain x w1 where r: "randint lo hi w = Some (Inr x, w1)" by blast
  with randint_Inr [OF r assms(2)] True show ?thesis by (intro that) auto
next
  case False
  then show ?thesis by (intro that) (auto simp: returnP_def)
qed

text \<open>
  When \<open>fetch_title\<close> raises for the file system at hand, the pass raises the
  same exception after the two sentinel draws.
\<close>

lemma gen_body_title_error:
  fixes w :: "'f world"
  assumes fair: "mt_fair (mt w)"
    and err: "\<And>w' :: 'f world. files w' = files w \<Longrightarrow> fetch_title cf w' = Some (Inl e, w')"
  shows "\<exists>w'. gen_body cf fk a n w = Some (Inl e, w')"
proof -
  obtain amt w1 where amt: "(if authors a \<noteq> -1 then returnP (authors a) else randint 1 3) w = Some (Inr amt, w1)"
    and d1: "draws w w1" by (rule sentinel_fair [OF fair, of 1 3 "authors a"]) auto
  obtain s w2 where s: "(if sale a \<noteq> -1 then returnP (sale a) else randint 0 100) w1 = Some (Inr s, w2)"
    and d2: "draws w1 w2" by (rule sentinel_fair [OF draws_fair [OF d1 fair], of 0 100 "sale a"]) auto
  have "files w2 = files w" using d1 d2 by simp
  from err [OF this] have t: "fetch_title cf w2 = Some (Inl e, w2)" .
  have "gen_body cf fk a n w = Some (Inl e, w2)"
    unfolding gen_body_def Let_def
    by (simp only: bindP_Inr [of "if authors a \<noteq> -1 then returnP (authors a) else randint 1 3" w, OF amt]
        bindP_Inr [of "if sale a \<noteq> -1 then returnP (sale a) else randint 0 100" w1, OF s]
        bindP_Inl [of "fetch_title cf" w2, OF t])
  then show ?thesis by blast
qed

lemma generate_books_title_error:
  fixes w :: "'f world"
  assumes "0 < count a" "mt_fair (mt w)"
    and err: "\<And>w' :: 'f world. files w' = files w \<Longrightarrow> fetch_title cf w' = Some (Inl e, w')"
  shows "\<exists>w'. generate_books cf fk a w = Some (Inl e, w')"
proof -
  let ?w = "w\<lparr>faker := seed0 fk\<rparr>"
  have e': "\<And>w' :: 'f world. files w' = files ?w \<Longrightarrow> fetch_title cf w' = Some (Inl e, w')" using err by simp
  have "mt_fair (mt ?w)" using assms(2) by simp
  from gen_body_title_error [OF this e'] obtain w' where
    "gen_body cf fk a 0 ?w = Some (Inl e, w')" by blast
  moreover obtain i where "nat (count a) = Suc i" using assms(1) by (cases "nat (count a)") auto
  ultimately show ?thesis
    by (simp add: generate_books_def gen_resume_def bindP_def modifyP_def)
qed

subsection \<open>The output subcommand does not affect generation\<close>

lemma gen_next_output_arg: "gen_next cf fk (a\<lparr>output_arg := oc\<rparr>) g = gen_next cf fk a g"
  by (cases g) (simp_all add: gen_resume_def gen_body_def)

lemma collect_books_output_arg:
  "collect_books cf fk (a\<lparr>output_arg := oc\<rparr>) i g = collect_books cf fk a i g"
  by (induction i arbitrary: g) (simp_all add: gen_next_output_arg)

lemma generate_books_output_arg: "generate_books cf fk (a\<lparr>output_arg := oc\<rparr>) = generate_books cf fk a"
  by (simp add: generate_books_def collect_books_output_arg)

end
