(* ===== verification/Py_Value.thy ===== *)
theory Py_Value
  imports Py_Text
begin

text \<open>
  The Python values the program prints or serialises, and Python's \<open>repr\<close>,
  \<open>str\<close> and \<open>print\<close> on them. A book is a \<open>dict\<close> of strings,
  integers, a float (the price) and a list of strings; \<open>pyval\<close> has one
  constructor per such type. The only floats are prices, which
  \<open>round(x, 2)\<close> makes the double nearest to a number of hundredths:
  \<open>PyFloat2 c\<close> is that float, \<open>float(c / 100)\<close>. Dictionaries keep
  their insertion order, so a \<open>dict\<close> is an association list with string keys.
\<close>

datatype pyval =
    PyInt int
  | PyFloat2 int
  | PyStr string
  | PyList "pyval list"
  | PyDict "(string \<times> pyval) list"

subsection \<open>Characters\<close>

text \<open>A lower-case hexadecimal digit, as \<open>'\xhh'\<close> and \<open>'\u00hh'\<close> write them.\<close>

definition hex_digit :: "nat \<Rightarrow> char" where
  "hex_digit n = (if n < 10 then char_of (48 + n) else char_of (87 + n))"

definition hex2 :: "char \<Rightarrow> string" where
  "hex2 c = [hex_digit (of_char c div 16), hex_digit (of_char c mod 16)]"

text \<open>
  \<open>str.isprintable\<close> on U+0000..U+00FF: the C0 and C1 controls, DEL,
  NO-BREAK SPACE (a space separator other than U+0020) and SOFT HYPHEN (a
  format character) are not printable.
\<close>

definition py_isprintable :: "char \<Rightarrow> bool" where
  "py_isprintable c \<longleftrightarrow>
     (let n = of_char c :: nat in (32 \<le> n \<and> n \<le> 126) \<or> (161 \<le> n \<and> n \<noteq> 173))"

subsection \<open>\<open>repr\<close>\<close>

text \<open>
  \<open>unicode_repr\<close> (Objects/unicodeobject.c): the quote is \<open>'\<close> unless the
  string holds \<open>'\<close> and no \<open>"\<close>; the quote and the backslash are escaped,
  tab, newline and carriage return by name, every other non-printable character
  as \<open>\xhh\<close>.
\<close>

definition repr_quote :: "string \<Rightarrow> char" where
  "repr_quote s = (if CHR 0x27 \<in> set s \<and> CHR 0x22 \<notin> set s then CHR 0x22 else CHR 0x27)"

definition repr_char :: "char \<Rightarrow> char \<Rightarrow> string" where
  "repr_char q c =
     (if c = q \<or> c = CHR 0x5C then [CHR 0x5C, c]
      else if c = CHR 0x09 then [CHR 0x5C, CHR ''t'']
      else if c = NL then [CHR 0x5C, CHR ''n'']
      else if c = CR then [CHR 0x5C, CHR ''r'']
      else if \<not> py_isprintable c then CHR 0x5C # CHR ''x'' # hex2 c
      else [c])"

definition repr_str :: "string \<Rightarrow> string" where
  "repr_str s = (let q = repr_quote s in q # concat (map (repr_char q) s) @ [q])"

text \<open>
  \<open>float.__repr__\<close> of \<open>float(c / 100)\<close>: the shortest digit string that
  reads back as the same double. For \<open>|c / 100| < 10^15\<close> that is the
  decimal value itself, with its trailing zeros dropped but one digit kept
  after the point (\<open>0.05\<close>, \<open>0.5\<close>, \<open>500.0\<close>).
\<close>

definition repr_cents :: "int \<Rightarrow> string" where
  "repr_cents c =
     (let m = nat \<bar>c\<bar>; f = m mod 100
      in (if c < 0 then ''-'' else []) @ str_nat (m div 100) @ ''.'' @
         (if f mod 10 = 0 then [decimal_digits ! (f div 10)]
          else [decimal_digits ! (f div 10), decimal_digits ! (f mod 10)]))"

text \<open>\<open>sep.join(xs)\<close>.\<close>

fun py_join :: "string \<Rightarrow> string list \<Rightarrow> string" where
  "py_join sep [] = []"
| "py_join sep [x] = x"
| "py_join sep (x # y # xs) = x @ sep @ py_join sep (y # xs)"

text \<open>
  \<open>repr\<close> of a value: \<open>list.__repr__\<close> and \<open>dict.__repr__\<close> join the
  items' \<open>repr\<close> with \<open>", "\<close>, a dict item being \<open>key: value\<close>.
\<close>

fun py_repr :: "pyval \<Rightarrow> string" where
  "py_repr (PyInt i) = str_int i"
| "py_repr (PyFloat2 c) = repr_cents c"
| "py_repr (PyStr s) = repr_str s"
| "py_repr (PyList vs) = ''['' @ py_join '', '' (map py_repr vs) @ '']''"
| "py_repr (PyDict kvs) =
     ''{'' @ py_join '', '' (map (\<lambda>(k, v). repr_str k @ '': '' @ py_repr v) kvs) @ ''}''"

text \<open>\<open>str\<close>: a string is itself, every other value its \<open>repr\<close>.\<close>

fun py_str :: "pyval \<Rightarrow> string" where
  "py_str (PyStr s) = s"
| "py_str v = py_repr v"

text \<open>\<open>print(s)\<close>: the text and a newline appended to standard output.\<close>

definition py_print :: "string \<Rightarrow> ('f world, unit) pyM" where
  "py_print s = modifyP (\<lambda>w. w\<lparr>stdout := stdout w @ s @ [NL]\<rparr>)"

text \<open>
  \<open>open(path, 'w')\<close>: the file is created or truncated to empty. The file system
  is a flat map from paths to contents; opening fails only on the empty path,
  with \<open>FileNotFoundError\<close> (directories and permissions are not modelled).
  Writes append to the file; what is written is what \<open>close\<close> leaves on a
  POSIX system, where \<open>\n\<close> is written unchanged.
\<close>

definition open_write :: "string \<Rightarrow> ('f world, unit) pyM" where
  "open_write path w =
     (if path = [] then Some (Inl (FileNotFoundError path), w)
      else Some (Inr (), w\<lparr>files := (files w)(path \<mapsto> [])\<rparr>))"

definition write_str :: "string \<Rightarrow> string \<Rightarrow> ('f world, unit) pyM" where
  "write_str path s =
     modifyP (\<lambda>w. w\<lparr>files := (files w)(path \<mapsto> (case files w path of Some t \<Rightarrow> t | None \<Rightarrow> []) @ s)\<rparr>)"

subsection \<open>\<open>repr\<close> is one line\<close>

lemma set_py_join: "set (py_join sep xs) \<subseteq> set sep \<union> \<Union> (set ` set xs)"
  by (induction sep xs rule: py_join.induct) auto

lemma of_char_hex_digit:
  "n < 16 \<Longrightarrow> (of_char (hex_digit n) :: nat) = (if n < 10 then 48 + n else 87 + n)"
  by (simp add: hex_digit_def)

lemma NL_CR_not_hex2: "NL \<notin> set (hex2 c) \<and> CR \<notin> set (hex2 c)"
proof -
  have "(of_char c :: nat) div 16 < 16" using nat_of_char_less_256 [of c] by (simp add: div_less_iff_less_mult)
  then have "\<forall>d\<in>set (hex2 c). 48 \<le> (of_char d :: nat)"
    by (simp add: hex2_def of_char_hex_digit)
  then show ?thesis by (auto simp: NL_def CR_def)
qed

lemma NL_CR_not_repr_char:
  assumes "q \<noteq> NL" "q \<noteq> CR"
  shows "NL \<notin> set (repr_char q c) \<and> CR \<notin> set (repr_char q c)"
proof -
  have "NL \<noteq> CHR 0x5C" "CR \<noteq> CHR 0x5C" "\<not> py_isprintable NL" "\<not> py_isprintable CR"
    "NL \<noteq> CHR 0x09" "CR \<noteq> CHR 0x09" "NL \<noteq> CR" "NL \<noteq> CHR ''t''" "CR \<noteq> CHR ''t''"
    "NL \<noteq> CHR ''n''" "CR \<noteq> CHR ''n''" "NL \<noteq> CHR ''r''" "CR \<noteq> CHR ''r''"
    "NL \<noteq> CHR ''x''" "CR \<noteq> CHR ''x''"
    by (simp_all add: NL_def CR_def py_isprintable_def)
  then show ?thesis using NL_CR_not_hex2 [of c] assms by (auto simp: repr_char_def)
qed

lemma NL_CR_not_repr_str: "NL \<notin> set (repr_str s) \<and> CR \<notin> set (repr_str s)"
proof -
  have "NL \<noteq> repr_quote s \<and> CR \<noteq> repr_quote s" by (simp add: repr_quote_def NL_def CR_def)
  then show ?thesis using NL_CR_not_repr_char [of "repr_quote s"] by (auto simp: repr_str_def Let_def)
qed

lemma decimal_digit_mem: "i < 10 \<Longrightarrow> decimal_digits ! i \<in> set decimal_digits"
  by (rule nth_mem) (simp add: decimal_digits_def)

lemma NL_CR_not_decimal_digits: "NL \<notin> set decimal_digits \<and> CR \<notin> set decimal_digits"
  by (simp add: decimal_digits_def NL_def CR_def)

lemma NL_CR_not_str_nat: "NL \<notin> set (str_nat n) \<and> CR \<notin> set (str_nat n)"
  using str_nat_digits [of n] NL_CR_not_decimal_digits by blast

lemma NL_CR_not_str_int: "NL \<notin> set (str_int i) \<and> CR \<notin> set (str_int i)"
  using NL_CR_not_str_nat by (simp add: str_int_def NL_def CR_def)

lemma set_repr_cents: "set (repr_cents c) \<subseteq> set decimal_digits \<union> {CHR ''-'', CHR ''.''}"
proof -
  have "nat \<bar>c\<bar> mod 100 div 10 < 10" "nat \<bar>c\<bar> mod 100 mod 10 < 10" by simp_all
  then show ?thesis using str_nat_digits decimal_digit_mem by (auto simp: repr_cents_def Let_def)
qed

lemma NL_CR_not_repr_cents: "NL \<notin> set (repr_cents c) \<and> CR \<notin> set (repr_cents c)"
  using set_repr_cents [of c] NL_CR_not_decimal_digits by (auto simp: NL_def CR_def)

text \<open>\<open>repr\<close> of any value is one line: it holds no newline and no carriage return.\<close>

lemma NL_CR_not_py_repr: "NL \<notin> set (py_repr v) \<and> CR \<notin> set (py_repr v)"
proof (induction v)
  case (PyList vs)
  then show ?case
    using set_py_join [of "'', ''" "map py_repr vs"] by (auto simp: NL_def CR_def)
next
  case (PyDict kvs)
  have "\<forall>x\<in>set (map (\<lambda>(k, v). repr_str k @ '': '' @ py_repr v) kvs). NL \<notin> set x \<and> CR \<notin> set x"
    using PyDict NL_CR_not_repr_str by (fastforce simp: NL_def CR_def)
  then show ?case
    using set_py_join [of "'', ''" "map (\<lambda>(k, v). repr_str k @ '': '' @ py_repr v) kvs"]
    by (auto simp: NL_def CR_def)
qed (simp_all add: NL_CR_not_str_int NL_CR_not_repr_cents NL_CR_not_repr_str)

lemma py_print_eq: "py_print s w = Some (Inr (), w\<lparr>stdout := stdout w @ s @ [NL]\<rparr>)"
  by (simp add: py_print_def modifyP_def)

subsection \<open>Writing files\<close>

text \<open>The world with one file's content replaced, kept folded in proofs.\<close>

definition set_file :: "'f world \<Rightarrow> string \<Rightarrow> string \<Rightarrow> 'f world" where
  "set_file w path t = w\<lparr>files := (files w)(path \<mapsto> t)\<rparr>"

lemma set_file_simps [simp]:
  "files (set_file w path t) = (files w)(path \<mapsto> t)"
  "stdout (set_file w path t) = stdout w"
  "mt (set_file w path t) = mt w"
  "faker (set_file w path t) = faker w"
  "set_file (set_file w path t1) path t2 = set_file w path t2"
  by (simp_all add: set_file_def)

lemma set_file_same: "files w path = Some t \<Longrightarrow> set_file w path t = w"
  by (simp add: set_file_def map_upd_triv)

lemma open_write_ok: "path \<noteq> [] \<Longrightarrow> open_write path w = Some (Inr (), set_file w path [])"
  by (simp add: open_write_def set_file_def)

lemma open_write_empty: "open_write [] w = Some (Inl (FileNotFoundError []), w)"
  by (simp add: open_write_def)

lemma write_str_eq: "files w path = Some t \<Longrightarrow> write_str path s w = Some (Inr (), set_file w path (t @ s))"
  by (simp add: write_str_def modifyP_def set_file_def)

end
