(* ===== verification/Py_Json.thy ===== *)
theory Py_Json
  imports Py_Value
begin

text \<open>
  \<open>json.dump(obj, fp, indent=dent, ensure_ascii=False)\<close> as \<open>to_json\<close>
  calls it. With an indent the encoder is the pure-Python
  \<open>_make_iterencode\<close> of Lib/json/encoder.py: an integer indent becomes
  \<open>' ' * dent\<close> (empty when \<open>dent \<le> 0\<close>), the separators are
  \<open>','\<close> and \<open>': '\<close>, every non-empty list or dict opens a new line
  indented one level deeper, and strings are escaped by
  \<open>py_encode_basestring\<close>. The reader \<open>json_loads\<close> is the abstract side:
  a JSON reader for the values of \<open>pyval\<close>, bounded by fuel (the length of
  its input), against which the encoder is proved to round-trip.
\<close>

subsection \<open>Encoder\<close>

text \<open>
  \<open>py_encode_basestring\<close>: \<open>"\<close> and \<open>\\<close> escaped, the five named
  controls by name, the other characters below U+0020 as \<open>\u00hh\<close>; every
  other character is written as itself (\<open>ensure_ascii=False\<close>).
\<close>

definition json_char :: "char \<Rightarrow> string" where
  "json_char c =
     (if c = CHR 0x22 then [CHR 0x5C, CHR 0x22]
      else if c = CHR 0x5C then [CHR 0x5C, CHR 0x5C]
      else if c = NL then [CHR 0x5C, CHR ''n'']
      else if c = CR then [CHR 0x5C, CHR ''r'']
      else if c = CHR 0x09 then [CHR 0x5C, CHR ''t'']
      else if c = CHR 0x08 then [CHR 0x5C, CHR ''b'']
      else if c = CHR 0x0C then [CHR 0x5C, CHR ''f'']
      else if (of_char c :: nat) < 32 then CHR 0x5C # CHR ''u'' # CHR ''0'' # CHR ''0'' # hex2 c
      else [c])"

definition json_str :: "string \<Rightarrow> string" where
  "json_str s = CHR 0x22 # concat (map json_char s) @ [CHR 0x22]"

text \<open>\<open>'\n' + _indent * _current_indent_level\<close>.\<close>

definition json_nl :: "string \<Rightarrow> nat \<Rightarrow> string" where
  "json_nl ind l = NL # concat (replicate l ind)"

text \<open>
  \<open>_iterencode\<close> at indent level \<open>l\<close>: \<open>int.__repr__\<close> and
  \<open>float.__repr__\<close> for numbers; \<open>[]\<close> and \<open>{}\<close> for empty containers;
  otherwise the items, each on its own line one level deeper, separated by
  \<open>','\<close>, and the closing bracket on a line at level \<open>l\<close>.
\<close>

fun json_enc :: "string \<Rightarrow> nat \<Rightarrow> pyval \<Rightarrow> string" where
  "json_enc ind l (PyInt i) = str_int i"
| "json_enc ind l (PyFloat2 c) = repr_cents c"
| "json_enc ind l (PyStr s) = json_str s"
| "json_enc ind l (PyList vs) =
     (if vs = [] then ''[]''
      else ''['' @ json_nl ind (Suc l) @
           py_join ('','' @ json_nl ind (Suc l)) (map (json_enc ind (Suc l)) vs) @
           json_nl ind l @ '']'')"
| "json_enc ind l (PyDict kvs) =
     (if kvs = [] then ''{}''
      else ''{'' @ json_nl ind (Suc l) @
           py_join ('','' @ json_nl ind (Suc l))
             (map (\<lambda>(k, v). json_str k @ '': '' @ json_enc ind (Suc l) v) kvs) @
           json_nl ind l @ ''}'')"

text \<open>The text \<open>json.dump\<close> writes for an integer indent \<open>dent\<close>.\<close>

definition json_dumps :: "int \<Rightarrow> pyval \<Rightarrow> string" where
  "json_dumps dent v = json_enc (replicate (nat dent) (CHR '' '')) 0 v"

subsection \<open>Reader\<close>

definition json_ws :: "char \<Rightarrow> bool" where
  "json_ws c \<longleftrightarrow> c = CHR '' '' \<or> c = CHR 0x09 \<or> c = NL \<or> c = CR"

definition skip_ws :: "string \<Rightarrow> string" where
  "skip_ws s = dropWhile json_ws s"

definition is_digit :: "char \<Rightarrow> bool" where
  "is_digit c \<longleftrightarrow> c \<in> set decimal_digits"

definition digits_val :: "string \<Rightarrow> nat" where
  "digits_val ds = foldl (\<lambda>n d. 10 * n + (of_char d - 48)) 0 ds"

definition hex_val :: "char \<Rightarrow> nat option" where
  "hex_val c =
     (let n = of_char c :: nat in
      if 48 \<le> n \<and> n \<le> 57 then Some (n - 48)
      else if 97 \<le> n \<and> n \<le> 102 then Some (n - 87)
      else if 65 \<le> n \<and> n \<le> 70 then Some (n - 55) else None)"

text \<open>\<open>\uXXXX\<close>, for the code points the model's characters have.\<close>

definition hex4 :: "char \<Rightarrow> char \<Rightarrow> char \<Rightarrow> char \<Rightarrow> char option" where
  "hex4 a b c d =
     (case (hex_val a, hex_val b, hex_val c, hex_val d) of
        (Some x1, Some x2, Some x3, Some x4) \<Rightarrow>
          (let n = ((x1 * 16 + x2) * 16 + x3) * 16 + x4 in if n < 256 then Some (char_of n) else None)
      | _ \<Rightarrow> None)"

definition json_unescape :: "char \<Rightarrow> char option" where
  "json_unescape e =
     (if e = CHR 0x22 \<or> e = CHR 0x5C \<or> e = CHR ''/'' then Some e
      else if e = CHR ''n'' then Some NL
      else if e = CHR ''r'' then Some CR
      else if e = CHR ''t'' then Some (CHR 0x09)
      else if e = CHR ''b'' then Some (CHR 0x08)
      else if e = CHR ''f'' then Some (CHR 0x0C)
      else None)"

definition cons_fst :: "'a \<Rightarrow> ('a list \<times> 'b) option \<Rightarrow> ('a list \<times> 'b) option" where
  "cons_fst x r = map_option (\<lambda>(xs, rest). (x # xs, rest)) r"

text \<open>The body of a string literal, up to and without its closing quote.\<close>

fun json_str_body :: "string \<Rightarrow> (string \<times> string) option" where
  "json_str_body [] = None"
| "json_str_body (c # r) =
     (if c = CHR 0x22 then Some ([], r)
      else if c = CHR 0x5C then
        (case r of
           [] \<Rightarrow> None
         | e # r' \<Rightarrow>
             if e = CHR ''u'' then
               (case r' of
                  a # b # c' # d # r'' \<Rightarrow>
                    (case hex4 a b c' d of Some ch \<Rightarrow> cons_fst ch (json_str_body r'') | None \<Rightarrow> None)
                | _ \<Rightarrow> None)
             else (case json_unescape e of Some ch \<Rightarrow> cons_fst ch (json_str_body r') | None \<Rightarrow> None))
      else if (of_char c :: nat) < 32 then None
      else cons_fst c (json_str_body r))"

text \<open>
  A number: an optional minus, digits, and optionally a point and one or two
  digits, read as a float in hundredths.
\<close>

definition json_number :: "string \<Rightarrow> (pyval \<times> string) option" where
  "json_number s =
     (let neg = (s \<noteq> [] \<and> hd s = CHR ''-'');
          s1 = (if neg then tl s else s);
          sg = (if neg then -1 else 1 :: int);
          ip = takeWhile is_digit s1; r1 = dropWhile is_digit s1
      in if ip = [] then None
         else if r1 \<noteq> [] \<and> hd r1 = CHR ''.'' then
           (let fp = takeWhile is_digit (tl r1); r2 = dropWhile is_digit (tl r1)
            in if fp = [] \<or> 2 < length fp then None
               else Some (PyFloat2 (sg * int (100 * digits_val ip + digits_val (take 2 (fp @ ''0'')))), r2))
         else Some (PyInt (sg * int (digits_val ip)), r1))"

type_synonym fuel = nat

fun json_value :: "fuel \<Rightarrow> string \<Rightarrow> (pyval \<times> string) option"
and json_items :: "fuel \<Rightarrow> string \<Rightarrow> (pyval list \<times> string) option"
and json_members :: "fuel \<Rightarrow> string \<Rightarrow> ((string \<times> pyval) list \<times> string) option" where
  "json_value 0 s = None"
| "json_value (Suc n) s =
     (case skip_ws s of
        [] \<Rightarrow> None
      | c # r \<Rightarrow>
          if c = CHR ''['' then
            (case skip_ws r of
               [] \<Rightarrow> None
             | d # r' \<Rightarrow> if d = CHR '']'' then Some (PyList [], r')
                         else map_option (\<lambda>(vs, r''). (PyList vs, r'')) (json_items n r))
          else if c = CHR ''{'' then
            (case skip_ws r of
               [] \<Rightarrow> None
             | d # r' \<Rightarrow> if d = CHR ''}'' then Some (PyDict [], r')
                         else map_option (\<lambda>(kvs, r''). (PyDict kvs, r'')) (json_members n r))
          else if c = CHR 0x22 then map_option (\<lambda>(t, r'). (PyStr t, r')) (json_str_body r)
          else json_number (c # r))"
| "json_items 0 s = None"
| "json_items (Suc n) s =
     (case json_value n s of
        None \<Rightarrow> None
      | Some (v, r) \<Rightarrow>
          (case skip_ws r of
             [] \<Rightarrow> None
           | d # r' \<Rightarrow> if d = CHR '','' then cons_fst v (json_items n r')
                       else if d = CHR '']'' then Some ([v], r') else None))"
| "json_members 0 s = None"
| "json_members (Suc n) s =
     (case skip_ws s of
        [] \<Rightarrow> None
      | c # r \<Rightarrow>
          if c \<noteq> CHR 0x22 then None
          else (case json_str_body r of
                  None \<Rightarrow> None
                | Some (k, r1) \<Rightarrow>
                    (case skip_ws r1 of
                       [] \<Rightarrow> None
                     | d # r2 \<Rightarrow>
                         if d \<noteq> CHR '':'' then None
                         else (case json_value n r2 of
                                 None \<Rightarrow> None
                               | Some (v, r3) \<Rightarrow>
                                   (case skip_ws r3 of
                                      [] \<Rightarrow> None
                                    | e # r4 \<Rightarrow>
                                        if e = CHR '','' then cons_fst (k, v) (json_members n r4)
                                        else if e = CHR ''}'' then Some ([(k, v)], r4) else None)))))"

definition json_loads :: "string \<Rightarrow> pyval option" where
  "json_loads s =
     (case json_value (length s) s of
        Some (v, r) \<Rightarrow> if skip_ws r = [] then Some v else None
      | None \<Rightarrow> None)"

subsection \<open>Reading back what the encoder writes\<close>

definition ws_str :: "string \<Rightarrow> bool" where
  "ws_str w \<longleftrightarrow> (\<forall>c\<in>set w. json_ws c)"

text \<open>What may follow a number so that reading it stops there.\<close>

definition num_stop :: "string \<Rightarrow> bool" where
  "num_stop r \<longleftrightarrow> r = [] \<or> (\<not> is_digit (hd r) \<and> hd r \<noteq> CHR ''.'')"

text \<open>
  The fuel reading a value needs: one unit per value and one more per item of a
  list or dict.
\<close>

fun val_size :: "pyval \<Rightarrow> nat" where
  "val_size (PyList vs) = Suc (sum_list (map (\<lambda>v. Suc (val_size v)) vs))"
| "val_size (PyDict kvs) = Suc (sum_list (map (\<lambda>(k, v). Suc (val_size v)) kvs))"
| "val_size v = 1"

lemma ws_str_simps [simp]:
  "ws_str []" "ws_str (w @ w') \<longleftrightarrow> ws_str w \<and> ws_str w'" "ws_str (c # w) \<longleftrightarrow> json_ws c \<and> ws_str w"
  by (auto simp: ws_str_def)

lemma skip_ws_append: "ws_str w \<Longrightarrow> skip_ws (w @ s) = skip_ws s"
  by (simp add: skip_ws_def ws_str_def dropWhile_append2)

lemma skip_ws_Cons: "\<not> json_ws c \<Longrightarrow> skip_ws (c # s) = c # s"
  by (simp add: skip_ws_def)

lemma ws_str_json_nl: "set ind \<subseteq> {CHR '' ''} \<Longrightarrow> ws_str (json_nl ind l)"
  by (auto simp: json_nl_def ws_str_def json_ws_def)

lemma num_stop_Cons: "\<not> is_digit c \<Longrightarrow> c \<noteq> CHR ''.'' \<Longrightarrow> num_stop (c # r)"
  by (simp add: num_stop_def)

lemma not_digit_ws: "json_ws c \<Longrightarrow> \<not> is_digit c \<and> c \<noteq> CHR ''.''"
  by (auto simp: json_ws_def is_digit_def decimal_digits_def NL_def CR_def)

lemma num_stop_ws: "ws_str w \<Longrightarrow> w \<noteq> [] \<Longrightarrow> num_stop (w @ r)"
  by (cases w) (simp_all add: num_stop_def not_digit_ws)

subsubsection \<open>Strings\<close>

lemma hex_val_hex_digit: "n < 16 \<Longrightarrow> hex_val (hex_digit n) = Some n"
  by (simp add: hex_val_def of_char_hex_digit)

lemma hex4_hex2:
  assumes lt: "(of_char c :: nat) < 32" and h: "hex2 c = [x, y]"
  shows "hex4 (CHR ''0'') (CHR ''0'') x y = Some c"
proof -
  have "(of_char c :: nat) div 16 < 16" "(of_char c :: nat) mod 16 < 16" using lt by simp_all
  moreover have "x = hex_digit (of_char c div 16)" "y = hex_digit (of_char c mod 16)"
    using h by (simp_all add: hex2_def)
  ultimately have "hex_val x = Some (of_char c div 16)" "hex_val y = Some (of_char c mod 16)"
    by (simp_all add: hex_val_hex_digit)
  moreover have "hex_val (CHR ''0'') = Some 0" by (simp add: hex_val_def)
  moreover have "(of_char c div 16) * 16 + of_char c mod 16 = (of_char c :: nat)" by simp
  ultimately show ?thesis using lt by (simp add: hex4_def)
qed

lemma json_str_body_char: "json_str_body (json_char c @ s) = cons_fst c (json_str_body s)"
proof -
  consider "c = CHR 0x22" | "c = CHR 0x5C" | "c = NL" | "c = CR" | "c = CHR 0x09" | "c = CHR 0x08"
    | "c = CHR 0x0C" | "c \<notin> {CHR 0x22, CHR 0x5C, NL, CR, CHR 0x09, CHR 0x08, CHR 0x0C}" "(of_char c :: nat) < 32"
    | "c \<notin> {CHR 0x22, CHR 0x5C, NL, CR, CHR 0x09, CHR 0x08, CHR 0x0C}" "\<not> (of_char c :: nat) < 32"
    by blast
  then show ?thesis
  proof cases
    case 8
    obtain x y where h: "hex2 c = [x, y]" by (simp add: hex2_def)
    with 8 have "json_char c = CHR 0x5C # CHR ''u'' # CHR ''0'' # CHR ''0'' # [x, y]"
      by (simp add: json_char_def)
    with 8 show ?thesis by (simp add: hex4_hex2 [OF _ h])
  next
    case 9
    then show ?thesis by (simp add: json_char_def)
  qed (simp_all add: json_char_def json_unescape_def NL_def CR_def)
qed

lemma json_str_body_roundtrip: "json_str_body (concat (map json_char s) @ CHR 0x22 # rest) = Some (s, rest)"
  by (induction s) (simp_all add: json_str_body_char cons_fst_def)

subsubsection \<open>Numbers\<close>

lemma of_char_decimal_digit: "i < 10 \<Longrightarrow> (of_char (decimal_digits ! i) :: nat) = 48 + i"
  by (simp add: decimal_digits_def less_Suc_eq numeral_eq_Suc) (elim disjE; simp)

lemma digits_val_snoc: "digits_val (ds @ [d]) = 10 * digits_val ds + (of_char d - 48)"
  by (simp add: digits_val_def)

lemma digits_val_str_nat: "digits_val (str_nat n) = n"
proof (induction n rule: str_nat.induct)
  case (1 n)
  show ?case
  proof (cases "n < 10")
    case True
    then show ?thesis by (subst str_nat.simps) (simp add: digits_val_def of_char_decimal_digit)
  next
    case False
    then have "digits_val (str_nat n) = 10 * (n div 10) + n mod 10"
      using "1.IH" by (subst str_nat.simps) (simp add: digits_val_snoc of_char_decimal_digit)
    then show ?thesis by simp
  qed
qed

lemma is_digit_str_nat: "\<forall>c\<in>set (str_nat n). is_digit c"
  using str_nat_digits by (auto simp: is_digit_def)

lemma take_drop_digits:
  assumes "\<forall>c\<in>set ds. is_digit c" and "r = [] \<or> \<not> is_digit (hd r)"
  shows "takeWhile is_digit (ds @ r) = ds" "dropWhile is_digit (ds @ r) = r"
proof -
  have "takeWhile is_digit r = [] \<and> dropWhile is_digit r = r"
    using assms(2) by (cases r) simp_all
  then show "takeWhile is_digit (ds @ r) = ds" "dropWhile is_digit (ds @ r) = r"
    using assms(1) by (simp_all add: takeWhile_append2 dropWhile_append2)
qed

lemma hd_str_nat: "hd (str_nat n) \<noteq> CHR ''-''"
proof -
  have "hd (str_nat n) \<in> set decimal_digits"
    using str_nat_digits [of n] hd_in_set [OF str_nat_nonempty] by blast
  then show ?thesis by (auto simp: decimal_digits_def)
qed

lemma json_number_str_int:
  assumes r: "num_stop r"
  shows "json_number (str_int i @ r) = Some (PyInt i, r)"
proof -
  have nodot: "\<not> (r \<noteq> [] \<and> hd r = CHR ''.'')" using r by (auto simp: num_stop_def)
  have "r = [] \<or> \<not> is_digit (hd r)" using r by (auto simp: num_stop_def)
  note td = take_drop_digits [OF is_digit_str_nat this]
  show ?thesis
  proof (cases "i < 0")
    case True
    then have "str_int i @ r = CHR ''-'' # (str_nat (nat (- i)) @ r)" by (simp add: str_int_def)
    with True nodot td show ?thesis by (simp add: json_number_def Let_def digits_val_str_nat)
  next
    case False
    then have s: "str_int i @ r = str_nat (nat i) @ r" by (simp add: str_int_def)
    have "hd (str_nat (nat i) @ r) \<noteq> CHR ''-''" using hd_str_nat [of "nat i"] by simp
    with False nodot td s show ?thesis by (simp add: json_number_def Let_def digits_val_str_nat)
  qed
qed

lemma is_digit_decimal_digit: "i < 10 \<Longrightarrow> is_digit (decimal_digits ! i)"
  by (simp add: is_digit_def decimal_digit_mem)

lemma not_digit_dot: "\<not> is_digit (CHR ''.'')"
  by (simp add: is_digit_def decimal_digits_def)

text \<open>The digits after the point of \<open>repr_cents\<close> read back as the hundredths.\<close>

lemma cents_fraction:
  fixes f :: nat
  assumes "f < 100"
  defines "F \<equiv> (if f mod 10 = 0 then [decimal_digits ! (f div 10)]
                 else [decimal_digits ! (f div 10), decimal_digits ! (f mod 10)])"
  shows "F \<noteq> [] \<and> length F \<le> 2 \<and> (\<forall>c\<in>set F. is_digit c) \<and> digits_val (take 2 (F @ ''0'')) = f"
proof -
  have lt: "f div 10 < 10" "f mod 10 < 10" using assms by simp_all
  have z: "(of_char (CHR ''0'') :: nat) = 48" by simp
  have "digits_val (take 2 (F @ ''0'')) = 10 * (f div 10) + f mod 10"
    by (cases "f mod 10 = 0") (simp_all add: F_def digits_val_def of_char_decimal_digit lt z)
  then show ?thesis using lt by (auto simp: F_def is_digit_decimal_digit)
qed

lemma json_number_repr_cents:
  assumes r: "num_stop r"
  shows "json_number (repr_cents c @ r) = Some (PyFloat2 c, r)"
proof -
  define m where "m = nat \<bar>c\<bar>"
  define f where "f = m mod 100"
  define F where "F = (if f mod 10 = 0 then [decimal_digits ! (f div 10)]
                      else [decimal_digits ! (f div 10), decimal_digits ! (f mod 10)])"
  have fr: "F \<noteq> [] \<and> length F \<le> 2 \<and> (\<forall>c\<in>set F. is_digit c) \<and> digits_val (take 2 (F @ ''0'')) = f"
    unfolding F_def by (rule cents_fraction) (simp add: f_def)
  have body: "str_nat (m div 100) @ ''.'' @ F @ r = str_nat (m div 100) @ (CHR ''.'' # (F @ r))" by simp
  have stop_dot: "CHR ''.'' # (F @ r) = [] \<or> \<not> is_digit (hd (CHR ''.'' # (F @ r)))"
    by (simp add: not_digit_dot)
  note ip = take_drop_digits [OF is_digit_str_nat stop_dot, of "m div 100"]
  have "r = [] \<or> \<not> is_digit (hd r)" using r by (auto simp: num_stop_def)
  note fp = take_drop_digits [of F r, OF _ this] fr
  have val: "100 * digits_val (str_nat (m div 100)) + f = m" by (simp add: digits_val_str_nat f_def)
  have rc: "repr_cents c = (if c < 0 then ''-'' else []) @ str_nat (m div 100) @ ''.'' @ F"
    by (simp add: repr_cents_def Let_def m_def f_def F_def)
  show ?thesis
  proof (cases "c < 0")
    case True
    then have "repr_cents c @ r = CHR ''-'' # (str_nat (m div 100) @ ''.'' @ F @ r)" by (simp add: rc)
    with True ip fp fr val show ?thesis by (simp add: json_number_def Let_def m_def)
  next
    case False
    then have "repr_cents c @ r = str_nat (m div 100) @ ''.'' @ F @ r" by (simp add: rc)
    moreover have "hd (str_nat (m div 100) @ ''.'' @ F @ r) \<noteq> CHR ''-''" using hd_str_nat by simp
    ultimately show ?thesis using False ip fp fr val by (simp add: json_number_def Let_def m_def)
  qed
qed

subsubsection \<open>Containers\<close>

lemma num_stop_before: "ws_str w \<Longrightarrow> \<not> is_digit c \<Longrightarrow> c \<noteq> CHR ''.'' \<Longrightarrow> num_stop (w @ c # r)"
  by (cases w) (simp_all add: num_stop_def not_digit_ws)

lemma punct_facts:
  "\<not> json_ws (CHR '','') \<and> \<not> is_digit (CHR '','') \<and> \<not> json_ws (CHR '']'') \<and> \<not> is_digit (CHR '']'')
   \<and> \<not> json_ws (CHR ''}'') \<and> \<not> is_digit (CHR ''}'') \<and> \<not> json_ws (CHR '':'') \<and> \<not> json_ws (CHR 0x22)
   \<and> json_ws (CHR '' '')"
  by (simp add: json_ws_def is_digit_def decimal_digits_def NL_def CR_def)

lemma val_size_pos: "0 < val_size v"
  by (cases v) simp_all

text \<open>
  The items of a non-empty list, as the encoder writes them with any element
  encoder \<open>E\<close> that reads back, read back.
\<close>

lemma json_items_enc:
  assumes IH: "\<forall>v\<in>set vs. \<forall>n w0 rest. ws_str w0 \<longrightarrow> val_size v \<le> n \<longrightarrow> num_stop rest \<longrightarrow>
                 json_value n (w0 @ E v @ rest) = Some (v, rest)"
    and ne: "vs \<noteq> []" and w0: "ws_str w0" and nl: "ws_str nl" and w1: "ws_str w1"
    and fuel: "sum_list (map (\<lambda>v. Suc (val_size v)) vs) \<le> m"
  shows "json_items m (w0 @ py_join (CHR '','' # nl) (map E vs) @ w1 @ CHR '']'' # rest) = Some (vs, rest)"
  using IH ne w0 fuel
proof (induction vs arbitrary: w0 m)
  case Nil
  then show ?case by simp
next
  case (Cons v vs)
  obtain m' where m: "m = Suc m'" using Cons.prems(4) by (cases m) simp_all
  have fv: "val_size v \<le> m'" and fr: "sum_list (map (\<lambda>v. Suc (val_size v)) vs) \<le> m'"
    using Cons.prems(4) m by simp_all
  have IHv: "\<And>n w0 rest. ws_str w0 \<Longrightarrow> val_size v \<le> n \<Longrightarrow> num_stop rest \<Longrightarrow>
               json_value n (w0 @ E v @ rest) = Some (v, rest)"
    using Cons.prems(1) by simp
  show ?case
  proof (cases vs)
    case Nil
    have "json_value m' (w0 @ E v @ (w1 @ CHR '']'' # rest)) = Some (v, w1 @ CHR '']'' # rest)"
      using IHv [OF Cons.prems(3) fv] num_stop_before [OF w1] punct_facts by simp
    then show ?thesis
      using Nil m w1 punct_facts by (simp add: skip_ws_append skip_ws_Cons)
  next
    case (Cons v2 vs')
    have "json_value m' (w0 @ E v @ (CHR '','' # nl @ py_join (CHR '','' # nl) (map E vs) @ w1 @ CHR '']'' # rest))
          = Some (v, CHR '','' # nl @ py_join (CHR '','' # nl) (map E vs) @ w1 @ CHR '']'' # rest)"
      using IHv [OF Cons.prems(3) fv] num_stop_before [of "[]"] punct_facts by simp
    moreover have "json_items m' (nl @ py_join (CHR '','' # nl) (map E vs) @ w1 @ CHR '']'' # rest) = Some (vs, rest)"
      using Cons.IH [OF _ _ nl fr] Cons.prems(1) \<open>vs = v2 # vs'\<close> by simp
    ultimately show ?thesis
      using \<open>vs = v2 # vs'\<close> m punct_facts by (simp add: skip_ws_Cons cons_fst_def)
  qed
qed

lemma json_str_read:
  "ws_str w0 \<Longrightarrow> skip_ws (w0 @ json_str k @ rest) = CHR 0x22 # concat (map json_char k) @ CHR 0x22 # rest"
  using punct_facts by (simp add: json_str_def skip_ws_append skip_ws_Cons)

text \<open>The members of a non-empty dict read back, likewise.\<close>

lemma json_members_enc:
  assumes IH: "\<forall>(k, v)\<in>set kvs. \<forall>n w0 rest. ws_str w0 \<longrightarrow> val_size v \<le> n \<longrightarrow> num_stop rest \<longrightarrow>
                 json_value n (w0 @ E v @ rest) = Some (v, rest)"
    and ne: "kvs \<noteq> []" and w0: "ws_str w0" and nl: "ws_str nl" and w1: "ws_str w1"
    and fuel: "sum_list (map (\<lambda>(k, v). Suc (val_size v)) kvs) \<le> m"
  shows "json_members m (w0 @ py_join (CHR '','' # nl) (map (\<lambda>(k, v). json_str k @ '': '' @ E v) kvs) @
                         w1 @ CHR ''}'' # rest) = Some (kvs, rest)"
  using IH ne w0 fuel
proof (induction kvs arbitrary: w0 m)
  case Nil
  then show ?case by simp
next
  case (Cons kv kvs)
  obtain k v where kv: "kv = (k, v)" by (cases kv)
  obtain m' where m: "m = Suc m'" using Cons.prems(4) kv by (cases m) simp_all
  have fv: "val_size v \<le> m'" and fr: "sum_list (map (\<lambda>(k, v). Suc (val_size v)) kvs) \<le> m'"
    using Cons.prems(4) m kv by simp_all
  have IHv: "\<And>n w0 rest. ws_str w0 \<Longrightarrow> val_size v \<le> n \<Longrightarrow> num_stop rest \<Longrightarrow>
               json_value n (w0 @ E v @ rest) = Some (v, rest)"
    using Cons.prems(1) kv by simp
  define item where "item = (\<lambda>(k, v). json_str k @ '': '' @ E v)"
  have step: "\<And>tl. num_stop tl \<Longrightarrow>
      json_members (Suc m') (w0 @ item (k, v) @ tl) =
        (case skip_ws tl of [] \<Rightarrow> None
         | e # r4 \<Rightarrow> if e = CHR '','' then cons_fst (k, v) (json_members m' r4)
                     else if e = CHR ''}'' then Some ([(k, v)], r4) else None)"
  proof -
    fix tl assume st: "num_stop tl"
    have "ws_str [CHR '' '']" using punct_facts by simp
    from IHv [OF this fv st] have "json_value m' ([CHR '' ''] @ E v @ tl) = Some (v, tl)" .
    then show "?thesis tl"
      using json_str_read [OF Cons.prems(3), of k "'': '' @ E v @ tl"] punct_facts
      by (simp add: item_def json_str_body_roundtrip skip_ws_Cons)
  qed
  show ?case
  proof (cases kvs)
    case Nil
    have "num_stop (w1 @ CHR ''}'' # rest)" using num_stop_before [OF w1] punct_facts by simp
    from step [OF this] show ?thesis
      using Nil m kv w1 punct_facts by (simp add: item_def skip_ws_append skip_ws_Cons)
  next
    case (Cons kv2 kvs')
    have "num_stop (CHR '','' # nl @ py_join (CHR '','' # nl) (map item kvs) @ w1 @ CHR ''}'' # rest)"
      using punct_facts by (simp add: num_stop_def)
    note st = step [OF this]
    have "json_members m' (nl @ py_join (CHR '','' # nl) (map item kvs) @ w1 @ CHR ''}'' # rest) = Some (kvs, rest)"
      using Cons.IH [OF _ _ nl fr] Cons.prems(1) \<open>kvs = kv2 # kvs'\<close> by (simp add: item_def)
    with st show ?thesis
      using \<open>kvs = kv2 # kvs'\<close> m kv punct_facts by (simp add: item_def skip_ws_Cons cons_fst_def)
  qed
qed

subsubsection \<open>Values\<close>

definition num_heads :: string where
  "num_heads = CHR ''-'' # decimal_digits"

lemma num_head_facts:
  "c \<in> set num_heads \<Longrightarrow> \<not> json_ws c \<and> c \<noteq> CHR ''['' \<and> c \<noteq> CHR ''{'' \<and> c \<noteq> CHR 0x22 \<and>
     c \<noteq> CHR '']'' \<and> c \<noteq> CHR ''}''"
  by (auto simp: num_heads_def decimal_digits_def json_ws_def NL_def CR_def)

lemma str_nat_Cons: "\<exists>c s. str_nat n = c # s \<and> c \<in> set num_heads"
proof -
  obtain c s where "str_nat n = c # s" using str_nat_nonempty [of n] by (cases "str_nat n") auto
  moreover from this have "c \<in> set decimal_digits" using str_nat_digits [of n] by auto
  ultimately show ?thesis by (auto simp: num_heads_def)
qed

lemma str_int_Cons: "\<exists>c s. str_int i = c # s \<and> c \<in> set num_heads"
  using str_nat_Cons by (auto simp: str_int_def num_heads_def)

lemma repr_cents_Cons: "\<exists>c s. repr_cents c0 = c # s \<and> c \<in> set num_heads"
proof -
  obtain c s where "str_nat (nat \<bar>c0\<bar> div 100) = c # s" "c \<in> set num_heads" using str_nat_Cons by blast
  then show ?thesis by (auto simp: repr_cents_def Let_def num_heads_def)
qed

lemma json_value_number:
  "ws_str w0 \<Longrightarrow> c \<in> set num_heads \<Longrightarrow> json_value (Suc n) (w0 @ c # s) = json_number (c # s)"
  using num_head_facts [of c] by (simp add: skip_ws_append skip_ws_Cons)

lemma json_enc_Cons:
  "\<exists>c s. json_enc ind l v = c # s \<and> \<not> json_ws c \<and> c \<noteq> CHR '']'' \<and> c \<noteq> CHR ''}''"
proof (cases v)
  case (PyInt i)
  then show ?thesis using str_int_Cons [of i] num_head_facts by fastforce
next
  case (PyFloat2 c0)
  then show ?thesis using repr_cents_Cons [of c0] num_head_facts by fastforce
qed (simp_all add: json_str_def json_ws_def NL_def CR_def)

lemma py_join_Cons: "\<exists>t. py_join sep (x # xs) = x @ t"
  by (cases xs) auto

text \<open>Every value the encoder writes, at any level and after any whitespace, reads back.\<close>

lemma json_value_enc:
  assumes ind: "set ind \<subseteq> {CHR '' ''}"
  shows "ws_str w0 \<Longrightarrow> val_size v \<le> n \<Longrightarrow> num_stop rest \<Longrightarrow>
         json_value n (w0 @ json_enc ind l v @ rest) = Some (v, rest)"
proof (induction v arbitrary: n w0 rest l)
  case (PyInt i)
  obtain n' where n: "n = Suc n'" using PyInt.prems(2) by (cases n) simp_all
  obtain c s where "str_int i = c # s" "c \<in> set num_heads" using str_int_Cons by blast
  then show ?case
    using json_value_number [OF PyInt.prems(1)] json_number_str_int [OF PyInt.prems(3), of i] n by simp
next
  case (PyFloat2 c0)
  obtain n' where n: "n = Suc n'" using PyFloat2.prems(2) by (cases n) simp_all
  obtain c s where "repr_cents c0 = c # s" "c \<in> set num_heads" using repr_cents_Cons by blast
  then show ?case
    using json_value_number [OF PyFloat2.prems(1)] json_number_repr_cents [OF PyFloat2.prems(3), of c0] n
    by simp
next
  case (PyStr t)
  obtain n' where n: "n = Suc n'" using PyStr.prems(2) by (cases n) simp_all
  show ?case
    using json_str_read [OF PyStr.prems(1), of t rest] n
    by (simp add: json_str_body_roundtrip)
next
  case (PyList vs)
  obtain n' where n: "n = Suc n'" using PyList.prems(2) by (cases n) simp_all
  have nl: "\<And>k. ws_str (json_nl ind k)" using ws_str_json_nl [OF ind] .
  have nb: "\<not> json_ws (CHR ''['')" by (simp add: json_ws_def NL_def CR_def)
  show ?case
  proof (cases "vs = []")
    case True
    then show ?thesis using n nb punct_facts PyList.prems(1) by (simp add: skip_ws_append skip_ws_Cons)
  next
    case False
    then obtain v1 vs' where vs: "vs = v1 # vs'" by (cases vs) auto
    obtain c s where c: "json_enc ind (Suc l) v1 = c # s" "\<not> json_ws c" "c \<noteq> CHR '']''"
      using json_enc_Cons by blast
    obtain t where t: "py_join (CHR '','' # json_nl ind (Suc l)) (map (json_enc ind (Suc l)) vs) =
                       json_enc ind (Suc l) v1 @ t" using py_join_Cons vs by fastforce
    define r where "r = json_nl ind (Suc l) @ py_join (CHR '','' # json_nl ind (Suc l)) (map (json_enc ind (Suc l)) vs) @
                       json_nl ind l @ CHR '']'' # rest"
    have IH': "\<forall>v\<in>set vs. \<forall>n w0 rest. ws_str w0 \<longrightarrow> val_size v \<le> n \<longrightarrow> num_stop rest \<longrightarrow>
                 json_value n (w0 @ json_enc ind (Suc l) v @ rest) = Some (v, rest)"
      using PyList.IH by blast
    have items: "json_items n' r = Some (vs, rest)"
      unfolding r_def using json_items_enc [OF IH' False nl nl nl] PyList.prems(2) n by simp
    have "skip_ws r = c # s @ t @ json_nl ind l @ CHR '']'' # rest"
      using c t nl by (simp add: r_def skip_ws_append skip_ws_Cons)
    moreover have "w0 @ json_enc ind l (PyList vs) @ rest = w0 @ CHR ''['' # r"
      using False by (simp add: r_def)
    ultimately show ?thesis
      using n nb c items PyList.prems(1) by (simp add: skip_ws_append skip_ws_Cons)
  qed
next
  case (PyDict kvs)
  obtain n' where n: "n = Suc n'" using PyDict.prems(2) by (cases n) simp_all
  have nl: "\<And>k. ws_str (json_nl ind k)" using ws_str_json_nl [OF ind] .
  have nb: "\<not> json_ws (CHR ''{'')" by (simp add: json_ws_def NL_def CR_def)
  define item where "item = (\<lambda>(k, v). json_str k @ '': '' @ json_enc ind (Suc l) v)"
  show ?case
  proof (cases "kvs = []")
    case True
    then show ?thesis using n nb punct_facts PyDict.prems(1) by (simp add: skip_ws_append skip_ws_Cons)
  next
    case False
    then obtain k1 v1 kvs' where kvs: "kvs = (k1, v1) # kvs'" by (cases kvs) auto
    obtain t where t: "py_join (CHR '','' # json_nl ind (Suc l)) (map item kvs) = item (k1, v1) @ t"
      using py_join_Cons kvs by fastforce
    define r where "r = json_nl ind (Suc l) @ py_join (CHR '','' # json_nl ind (Suc l)) (map item kvs) @
                       json_nl ind l @ CHR ''}'' # rest"
    have IH': "\<forall>(k, v)\<in>set kvs. \<forall>n w0 rest. ws_str w0 \<longrightarrow> val_size v \<le> n \<longrightarrow> num_stop rest \<longrightarrow>
                 json_value n (w0 @ json_enc ind (Suc l) v @ rest) = Some (v, rest)"
      using PyDict.IH by fastforce
    have members: "json_members n' r = Some (kvs, rest)"
      unfolding r_def item_def using json_members_enc [OF IH' False nl nl nl] PyDict.prems(2) n by simp
    have "skip_ws r = CHR 0x22 # concat (map json_char k1) @ CHR 0x22 # (('': '' @ json_enc ind (Suc l) v1) @ t @
                        json_nl ind l @ CHR ''}'' # rest)"
      using t nl json_str_read [of "[]" k1] by (simp add: r_def item_def skip_ws_append)
    moreover have "w0 @ json_enc ind l (PyDict kvs) @ rest = w0 @ CHR ''{'' # r"
      using False by (simp add: r_def item_def)
    ultimately show ?thesis
      using n nb members PyDict.prems(1) punct_facts by (simp add: skip_ws_append skip_ws_Cons)
  qed
qed

subsubsection \<open>The round trip\<close>

lemma length_py_join: "length (py_join sep xs) = sum_list (map length xs) + (length xs - 1) * length sep"
  by (induction sep xs rule: py_join.induct) auto

lemma sum_list_Suc: "sum_list (map (\<lambda>x. Suc (f x)) xs) = sum_list (map f xs) + length xs"
  by (induction xs) auto

lemma sum_list_Suc_prod: "sum_list (map (\<lambda>(k, v). Suc (f v)) xs) = sum_list (map (f \<circ> snd) xs) + length xs"
  by (induction xs) auto

text \<open>The encoding is long enough to pay the fuel that reading it back takes.\<close>

lemma val_size_le_length: "val_size v \<le> length (json_enc ind l v)"
proof (induction v arbitrary: l)
  case (PyInt i)
  then show ?case using str_int_Cons [of i] by (auto simp: Suc_le_eq)
next
  case (PyFloat2 c)
  then show ?case using repr_cents_Cons [of c] by (auto simp: Suc_le_eq)
next
  case (PyList vs)
  let ?E = "json_enc ind (Suc l)"
  have "sum_list (map val_size vs) \<le> sum_list (map (length \<circ> ?E) vs)"
    using PyList.IH by (intro sum_list_mono) auto
  moreover have "length vs - 1 \<le> (length vs - 1) * length (CHR '','' # json_nl ind (Suc l))" by simp
  moreover have "length vs \<le> Suc (length vs - 1)" by simp
  ultimately show ?case
    by (cases "vs = []") (simp_all add: length_py_join sum_list_Suc json_nl_def)
next
  case (PyDict kvs)
  let ?item = "\<lambda>(k, v). json_str k @ '': '' @ json_enc ind (Suc l) v"
  have "\<And>kv. kv \<in> set kvs \<Longrightarrow> Suc ((val_size \<circ> snd) kv) \<le> (length \<circ> ?item) kv"
  proof -
    fix kv assume kv: "kv \<in> set kvs"
    obtain k v where kv_eq: "kv = (k, v)" by (cases kv)
    have "val_size v \<le> length (json_enc ind (Suc l) v)" using PyDict.IH kv kv_eq by simp
    then show "Suc ((val_size \<circ> snd) kv) \<le> (length \<circ> ?item) kv" by (simp add: kv_eq json_str_def)
  qed
  then have "sum_list (map (\<lambda>kv. Suc ((val_size \<circ> snd) kv)) kvs) \<le> sum_list (map (length \<circ> ?item) kvs)"
    by (rule sum_list_mono)
  then have "sum_list (map (val_size \<circ> snd) kvs) + length kvs \<le> sum_list (map length (map ?item kvs))"
    by (simp add: sum_list_Suc comp_def)
  then show ?case
    by (simp add: length_py_join sum_list_Suc_prod json_nl_def)
qed (simp add: json_str_def)

text \<open>\<open>json.loads\<close> of what \<open>json.dump\<close> writes gives the value back, for every indent.\<close>

lemma json_loads_dumps: "json_loads (json_dumps dent v) = Some v"
proof -
  let ?ind = "replicate (nat dent) (CHR '' '')"
  have "set ?ind \<subseteq> {CHR '' ''}" by (simp add: set_replicate_conv_if)
  then have "json_value (length (json_dumps dent v)) ([] @ json_enc ?ind 0 v @ []) = Some (v, [])"
    by (rule json_value_enc) (simp_all add: json_dumps_def val_size_le_length num_stop_def)
  then show ?thesis by (simp add: json_loads_def json_dumps_def skip_ws_def)
qed

end
