(* ===== verification/Py_Csv.thy ===== *)
theory Py_Csv
  imports Py_Value
begin

text \<open>
  The writer of Python's \<open>csv\<close> module (Modules/_csv.c) as \<open>to_csv\<close>
  configures it: \<open>csv.writer(f, delimiter=d, lineterminator=lt,
  quoting=csv.QUOTE_MINIMAL)\<close>, with the default quote character \<open>"\<close>,
  \<open>doublequote=True\<close> and no escape character. Creating the writer checks
  that the delimiter is one character; \<open>writerow\<close> converts each field with
  \<open>str\<close>, quotes a field that holds the delimiter, the quote character or a
  character of the line terminator (doubling the quotes inside), joins the
  fields with the delimiter and ends the row with the line terminator. The
  module's reader follows, as the specification the written rows are read
  back against.
\<close>

definition csv_delimiter_error :: pyerror where
  "csv_delimiter_error = TypeError ''\"delimiter\" must be a 1-character string''"

definition csv_needs_quote :: "char \<Rightarrow> string \<Rightarrow> string \<Rightarrow> bool" where
  "csv_needs_quote d lt f = list_ex (\<lambda>c. c = d \<or> c = CHR 0x22 \<or> c \<in> set lt) f"

definition csv_field :: "char \<Rightarrow> string \<Rightarrow> string \<Rightarrow> string" where
  "csv_field d lt f =
     (if csv_needs_quote d lt f
      then CHR 0x22 # concat (map (\<lambda>c. if c = CHR 0x22 then [c, c] else [c]) f) @ [CHR 0x22]
      else f)"

text \<open>
  \<open>writerow(fields)\<close>: a row that is one empty field is written as \<open>""\<close>,
  so that it is not read back as an empty line.
\<close>

definition csv_row :: "char \<Rightarrow> string \<Rightarrow> string list \<Rightarrow> string" where
  "csv_row d lt row =
     (if row = [[]] then [CHR 0x22, CHR 0x22] @ lt
      else py_join [d] (map (csv_field d lt) row) @ lt)"

text \<open>\<open>csv.writer(f, delimiter=sep, ...)\<close>: the delimiter checked, the writer's \<open>d\<close>.\<close>

definition csv_writer :: "string \<Rightarrow> ('f world, char) pyM" where
  "csv_writer sep = (if length sep = 1 then returnP (hd sep) else raiseP csv_delimiter_error)"

subsection \<open>Properties of the writer\<close>

lemma csv_writer_ok: "length sep = 1 \<Longrightarrow> csv_writer sep = returnP (hd sep)"
  by (simp add: csv_writer_def)

lemma csv_writer_bad: "length sep \<noteq> 1 \<Longrightarrow> csv_writer sep w = Some (Inl csv_delimiter_error, w)"
  by (simp add: csv_writer_def raiseP_def)

text \<open>A field with nothing to quote is written as it is.\<close>

lemma csv_field_plain:
  "\<forall>c\<in>set f. c \<noteq> d \<and> c \<noteq> CHR 0x22 \<and> c \<notin> set lt \<Longrightarrow> csv_field d lt f = f"
  by (auto simp: csv_field_def csv_needs_quote_def list_ex_iff)

text \<open>A field holding the delimiter is quoted, its quotes doubled.\<close>

lemma csv_field_delim:
  assumes "d \<in> set f"
  shows "csv_field d lt f = CHR 0x22 # concat (map (\<lambda>c. if c = CHR 0x22 then [c, c] else [c]) f) @ [CHR 0x22]"
proof -
  have "csv_needs_quote d lt f" unfolding csv_needs_quote_def list_ex_iff using assms by (rule bexI [rotated]) simp
  then show ?thesis by (simp add: csv_field_def)
qed

text \<open>A two-field row is the two fields around the delimiter, then the terminator.\<close>

lemma csv_row_pair: "csv_row d lt [k, v] = csv_field d lt k @ d # csv_field d lt v @ lt"
  by (simp add: csv_row_def)

subsection \<open>The reader, as the specification of what the writer writes\<close>

text \<open>
  \<open>csv.reader(f, delimiter=d)\<close> over a file opened for reading (universal
  newlines), as CPython 3.11's \<open>Modules/_csv.c\<close> parses it with the default
  dialect (quote character \<open>"\<close>, \<open>doublequote=True\<close>, no escape character,
  \<open>skipinitialspace=False\<close>, \<open>strict=False\<close>): \<open>csv_char\<close> is
  \<open>parse_process_char\<close>, with \<open>None\<close> for the end-of-line marker it is
  called with after each line and the result \<open>None\<close> for a \<open>csv.Error\<close>
  (a field over \<open>field_size_limit()\<close>, 131072 by default, or text after a
  line break outside quotes); \<open>csv_read_lines\<close> is \<open>Reader_iternext\<close>
  over the lines of \<open>readlines\<close>, a record ending when the state is back at
  the start of a record after a line, and a quoted field still open at the end
  of the input kept as the last field. \<open>csv_reader\<close> is
  \<open>list(csv.reader(open(path), delimiter=d))\<close> on the file's text.
\<close>

datatype csv_rstate = StartRecord | StartField | InField | InQuotedField | QuoteInQuotedField | EatCrnl

type_synonym csv_parse = "csv_rstate \<times> string \<times> string list"

definition csv_field_limit :: nat where
  "csv_field_limit = 131072"

definition csv_add :: "csv_rstate \<Rightarrow> string \<Rightarrow> char \<Rightarrow> string list \<Rightarrow> csv_parse option" where
  "csv_add st fld x flds = (if csv_field_limit \<le> length fld then None else Some (st, fld @ [x], flds))"

definition csv_start_field :: "char \<Rightarrow> char option \<Rightarrow> string \<Rightarrow> string list \<Rightarrow> csv_parse option" where
  "csv_start_field d c fld flds =
     (case c of
        None \<Rightarrow> Some (StartRecord, [], flds @ [fld])
      | Some x \<Rightarrow>
          if x = NL \<or> x = CR then Some (EatCrnl, [], flds @ [fld])
          else if x = CHR 0x22 then Some (InQuotedField, fld, flds)
          else if x = d then Some (StartField, [], flds @ [fld])
          else csv_add InField fld x flds)"

fun csv_char :: "char \<Rightarrow> char option \<Rightarrow> csv_parse \<Rightarrow> csv_parse option" where
  "csv_char d c (StartRecord, fld, flds) =
     (case c of
        None \<Rightarrow> Some (StartRecord, fld, flds)
      | Some x \<Rightarrow> if x = NL \<or> x = CR then Some (EatCrnl, fld, flds) else csv_start_field d c fld flds)"
| "csv_char d c (StartField, fld, flds) = csv_start_field d c fld flds"
| "csv_char d c (InField, fld, flds) =
     (case c of
        None \<Rightarrow> Some (StartRecord, [], flds @ [fld])
      | Some x \<Rightarrow>
          if x = NL \<or> x = CR then Some (EatCrnl, [], flds @ [fld])
          else if x = d then Some (StartField, [], flds @ [fld])
          else csv_add InField fld x flds)"
| "csv_char d c (InQuotedField, fld, flds) =
     (case c of
        None \<Rightarrow> Some (InQuotedField, fld, flds)
      | Some x \<Rightarrow> if x = CHR 0x22 then Some (QuoteInQuotedField, fld, flds) else csv_add InQuotedField fld x flds)"
| "csv_char d c (QuoteInQuotedField, fld, flds) =
     (case c of
        None \<Rightarrow> Some (StartRecord, [], flds @ [fld])
      | Some x \<Rightarrow>
          if x = CHR 0x22 then csv_add InQuotedField fld x flds
          else if x = d then Some (StartField, [], flds @ [fld])
          else if x = NL \<or> x = CR then Some (EatCrnl, [], flds @ [fld])
          else csv_add InField fld x flds)"
| "csv_char d c (EatCrnl, fld, flds) =
     (case c of
        None \<Rightarrow> Some (StartRecord, fld, flds)
      | Some x \<Rightarrow> if x = NL \<or> x = CR then Some (EatCrnl, fld, flds) else None)"

fun csv_chars :: "char \<Rightarrow> char option list \<Rightarrow> csv_parse \<Rightarrow> csv_parse option" where
  "csv_chars d [] s = Some s"
| "csv_chars d (c # cs) s = (case csv_char d c s of None \<Rightarrow> None | Some s' \<Rightarrow> csv_chars d cs s')"

fun csv_read_lines :: "char \<Rightarrow> string list \<Rightarrow> csv_parse \<Rightarrow> string list list option" where
  "csv_read_lines d [] (st, fld, flds) =
     (if fld \<noteq> [] \<or> st = InQuotedField then Some [flds @ [fld]] else Some [])"
| "csv_read_lines d (l # ls) s =
     (case csv_chars d (map Some l @ [None]) s of
        None \<Rightarrow> None
      | Some (st, fld, flds) \<Rightarrow>
          if st = StartRecord then map_option ((#) flds) (csv_read_lines d ls (StartRecord, [], []))
          else csv_read_lines d ls (st, fld, flds))"

definition csv_reader :: "char \<Rightarrow> string \<Rightarrow> string list list option" where
  "csv_reader d text = csv_read_lines d (readlines (translate_newlines text)) (StartRecord, [], [])"

subsubsection \<open>Reading back what \<open>writerow\<close> wrote\<close>

lemma csv_chars_append:
  "csv_chars d (xs @ ys) s = (case csv_chars d xs s of None \<Rightarrow> None | Some s' \<Rightarrow> csv_chars d ys s')"
  by (induction xs arbitrary: s) (auto split: option.split)

definition csv_doubled :: "string \<Rightarrow> string" where
  "csv_doubled f = concat (map (\<lambda>c. if c = CHR 0x22 then [c, c] else [c]) f)"

lemma csv_chars_unquoted:
  "\<forall>c\<in>set f. c \<noteq> d \<and> c \<noteq> NL \<and> c \<noteq> CR \<Longrightarrow> length (acc @ f) \<le> csv_field_limit \<Longrightarrow>
   csv_chars d (map Some f) (InField, acc, fs) = Some (InField, acc @ f, fs)"
  by (induction f arbitrary: acc) (auto simp: csv_add_def)

lemma csv_chars_quoted:
  "length (acc @ f) \<le> csv_field_limit \<Longrightarrow>
   csv_chars d (map Some (csv_doubled f)) (InQuotedField, acc, fs) = Some (InQuotedField, acc @ f, fs)"
  by (induction f arbitrary: acc) (auto simp: csv_add_def csv_doubled_def)


text \<open>The delimiters the reader can split on: not the quote and not a line break.\<close>

definition csv_delim_ok :: "char \<Rightarrow> bool" where
  "csv_delim_ok d \<longleftrightarrow> d \<noteq> CHR 0x22 \<and> d \<noteq> NL \<and> d \<noteq> CR"

lemma csv_delim_okD:
  "csv_delim_ok d \<Longrightarrow> d \<noteq> CHR 0x22 \<and> CHR 0x22 \<noteq> d \<and> d \<noteq> NL \<and> NL \<noteq> d \<and> d \<noteq> CR \<and> CR \<noteq> d"
  by (auto simp: csv_delim_ok_def)

text \<open>The fields the reader gives back: one line, within the field size limit.\<close>

definition csv_field_ok :: "string \<Rightarrow> bool" where
  "csv_field_ok f \<longleftrightarrow> NL \<notin> set f \<and> CR \<notin> set f \<and> length f \<le> csv_field_limit"

lemma csv_field_ok_repr: "csv_field_ok (py_repr v) \<longleftrightarrow> length (py_repr v) \<le> csv_field_limit"
  using NL_CR_not_py_repr [of v] by (simp add: csv_field_ok_def)

lemma csv_field_ok_str_int: "csv_field_ok (str_int i) \<longleftrightarrow> length (str_int i) \<le> csv_field_limit"
  using NL_CR_not_str_int [of i] by (simp add: csv_field_ok_def)

lemma csv_field_cases:
  "csv_field d lt f = (if csv_needs_quote d lt f then CHR 0x22 # csv_doubled f @ [CHR 0x22] else f)"
  by (simp add: csv_field_def csv_doubled_def)

lemma csv_chars_quoted_field:
  assumes "csv_delim_ok d" "csv_field_ok f" "t = d \<or> t = NL"
  shows "csv_chars d (map Some (CHR 0x22 # csv_doubled f @ [CHR 0x22, t])) (StartField, [], fs) =
         Some (if t = d then StartField else EatCrnl, [], fs @ [f])"
  using assms csv_chars_quoted [of "[]" f d fs]
  by (auto simp: csv_chars_append csv_start_field_def csv_delim_ok_def csv_field_ok_def NL_def CR_def)

lemma csv_chars_field:
  assumes "csv_delim_ok d" "csv_field_ok f" "t = d \<or> t = NL"
  shows "csv_chars d (map Some (csv_field d [NL] f @ [t])) (StartField, [], fs) =
         Some (if t = d then StartField else EatCrnl, [], fs @ [f])"
proof (cases "csv_needs_quote d [NL] f")
  case True
  then show ?thesis using csv_chars_quoted_field [OF assms] by (simp add: csv_field_cases)
next
  case False
  then have plain: "\<forall>c\<in>set f. c \<noteq> d \<and> c \<noteq> CHR 0x22 \<and> c \<noteq> NL"
    by (simp add: csv_needs_quote_def list_ex_iff)
  show ?thesis
  proof (cases f)
    case Nil
    then show ?thesis using assms False by (auto simp: csv_field_cases csv_start_field_def csv_delim_ok_def NL_def CR_def)
  next
    case (Cons x f')
    have "\<forall>c\<in>set f'. c \<noteq> d \<and> c \<noteq> NL \<and> c \<noteq> CR" "length ([x] @ f') \<le> csv_field_limit"
      using plain assms(2) Cons by (auto simp: csv_field_ok_def)
    note u = csv_chars_unquoted [OF this, of fs]
    have "x \<noteq> NL" "x \<noteq> CR" "x \<noteq> CHR 0x22" "x \<noteq> d" using plain assms(2) Cons by (auto simp: csv_field_ok_def)
    then show ?thesis using False Cons assms u
      by (auto simp: csv_field_cases csv_chars_append csv_start_field_def csv_add_def csv_field_limit_def
          csv_delim_ok_def NL_def CR_def)
  qed
qed


lemma csv_chars_fields:
  "csv_delim_ok d \<Longrightarrow> row \<noteq> [] \<Longrightarrow> list_all csv_field_ok row \<Longrightarrow>
   csv_chars d (map Some (py_join [d] (map (csv_field d [NL]) row) @ [NL])) (StartField, [], fs) =
   Some (EatCrnl, [], fs @ row)"
proof (induction row arbitrary: fs rule: induct_list012)
  case (2 f)
  then show ?case using csv_chars_field [of d f NL fs] csv_delim_okD [of d] by simp
next
  case (3 f g row)
  have h: "csv_chars d (map Some (csv_field d [NL] f @ [d])) (StartField, [], fs) = Some (StartField, [], fs @ [f])"
    using csv_chars_field [of d f d fs] 3(3,5) by simp
  have eq: "map Some (py_join [d] (map (csv_field d [NL]) (f # g # row)) @ [NL]) =
            map Some (csv_field d [NL] f @ [d]) @ map Some (py_join [d] (map (csv_field d [NL]) (g # row)) @ [NL])"
    by simp
  show ?case unfolding eq csv_chars_append h using "3.IH"(2) [of "fs @ [f]"] 3(3,5) by simp
qed simp

text \<open>A row as \<open>writerow\<close> writes it with the line terminator \<open>\n\<close> is read back as that row.\<close>

lemma csv_chars_row:
  assumes d: "csv_delim_ok d" and ok: "list_all csv_field_ok row"
  shows "csv_chars d (map Some (csv_row d [NL] row) @ [None]) (StartRecord, [], []) = Some (StartRecord, [], row)"
proof -
  consider "row = []" | "row = [[]]" | f r where "row = f # r" "row \<noteq> [[]]"
    by (cases row) auto
  then show ?thesis
  proof cases
    case 1
    then show ?thesis by (simp add: csv_row_def)
  next
    case 2
    then show ?thesis using csv_delim_okD [OF d] by (simp add: csv_row_def csv_start_field_def NL_def CR_def)
  next
    case (3 f r)
    define t where "t = py_join [d] (map (csv_field d [NL]) row)"
    have fields: "csv_chars d (map Some (t @ [NL])) (StartField, [], []) = Some (EatCrnl, [], row)"
      using csv_chars_fields [OF d _ ok, of "[]"] 3 by (simp add: t_def)
    obtain x t' where t: "t = x # t'" and x: "x \<noteq> NL" "x \<noteq> CR"
    proof (cases f)
      case Nil
      with 3 obtain g r' where "r = g # r'" by (cases r) auto
      with Nil 3 d show ?thesis using that by (simp add: t_def csv_field_def csv_needs_quote_def csv_delim_ok_def)
    next
      case (Cons y f')
      then have y: "y \<noteq> NL" "y \<noteq> CR" using ok 3 by (auto simp: csv_field_ok_def)
      obtain t' where hf: "csv_field d [NL] f = (if csv_needs_quote d [NL] f then CHR 0x22 else y) # t'"
        using Cons by (cases "csv_needs_quote d [NL] f") (simp_all add: csv_field_cases)
      obtain u where "t = csv_field d [NL] f @ u" using 3 by (cases r) (simp_all add: t_def)
      with hf y show ?thesis using that by (auto simp: NL_def CR_def split: if_splits)
    qed
    have "csv_char d (Some x) (StartRecord, [], []) = csv_char d (Some x) (StartField, [], [])"
      using x by simp
    then have "csv_chars d (map Some (t @ [NL])) (StartRecord, [], []) = Some (EatCrnl, [], row)"
      using fields by (simp add: t del: map_append split: option.split)
    moreover have "csv_row d [NL] row = t @ [NL]" using 3(2) by (simp add: csv_row_def t_def)
    ultimately show ?thesis unfolding csv_chars_append by simp
  qed
qed


lemma set_csv_doubled [simp]: "set (csv_doubled f) = set f"
  by (induction f) (auto simp: csv_doubled_def)

lemma notin_py_join: "c \<notin> set sep \<Longrightarrow> \<forall>x\<in>set xs. c \<notin> set x \<Longrightarrow> c \<notin> set (py_join sep xs)"
  by (induction sep xs rule: py_join.induct) auto

lemma notin_csv_field: "c \<noteq> CHR 0x22 \<Longrightarrow> c \<notin> set f \<Longrightarrow> c \<notin> set (csv_field d lt f)"
  by (simp add: csv_field_cases)

text \<open>A written row is one line: its only line break is the terminator.\<close>

lemma csv_row_line:
  assumes d: "csv_delim_ok d" and ok: "list_all csv_field_ok row"
  shows "\<exists>xs. csv_row d [NL] row = xs @ [NL] \<and> NL \<notin> set xs \<and> CR \<notin> set xs"
proof -
  have q: "NL \<noteq> CHR 0x22" "CR \<noteq> CHR 0x22" by (simp_all add: NL_def CR_def)
  have "\<forall>x\<in>set (map (csv_field d [NL]) row). c \<notin> set x" if "c = NL \<or> c = CR" for c
  proof
    fix x
    assume "x \<in> set (map (csv_field d [NL]) row)"
    then obtain f where f: "f \<in> set row" and x: "x = csv_field d [NL] f" by auto
    have "c \<notin> set f" "c \<noteq> CHR 0x22" using ok f that q by (auto simp: list_all_iff csv_field_ok_def)
    then show "c \<notin> set x" using x notin_csv_field by simp
  qed
  then have "NL \<notin> set (py_join [d] (map (csv_field d [NL]) row))" "CR \<notin> set (py_join [d] (map (csv_field d [NL]) row))"
    using csv_delim_okD [OF d] by (simp_all add: notin_py_join)
  then show ?thesis using q by (auto simp: csv_row_def)
qed

lemma readlines_csv_rows:
  "csv_delim_ok d \<Longrightarrow> list_all (list_all csv_field_ok) rows \<Longrightarrow>
   readlines_from [] (concat (map (csv_row d [NL]) rows)) = map (csv_row d [NL]) rows"
proof (induction rows)
  case (Cons row rows)
  obtain xs where "csv_row d [NL] row = xs @ [NL]" "NL \<notin> set xs"
    using csv_row_line [OF Cons(2)] Cons(3) by auto
  then show ?case using Cons by (simp add: readlines_from_line)
qed simp

lemma CR_not_in_csv_rows:
  "csv_delim_ok d \<Longrightarrow> list_all (list_all csv_field_ok) rows \<Longrightarrow> CR \<notin> set (concat (map (csv_row d [NL]) rows))"
  using csv_row_line [of d] by (fastforce simp: list_all_iff NL_def CR_def)

lemma csv_read_lines_rows:
  "csv_delim_ok d \<Longrightarrow> list_all (list_all csv_field_ok) rows \<Longrightarrow>
   csv_read_lines d (map (csv_row d [NL]) rows) (StartRecord, [], []) = Some rows"
  by (induction rows) (simp_all add: csv_chars_row)

text \<open>
  Round trip: \<open>csv.reader(open(path), delimiter=d)\<close> reads the rows that
  \<open>writerow\<close> wrote with the line terminator \<open>\n\<close> back as they were.
\<close>

lemma csv_reader_rows:
  "csv_delim_ok d \<Longrightarrow> list_all (list_all csv_field_ok) rows \<Longrightarrow>
   csv_reader d (concat (map (csv_row d [NL]) rows)) = Some rows"
proof -
  assume d: "csv_delim_ok d" and ok: "list_all (list_all csv_field_ok) rows"
  have "translate_newlines (concat (map (csv_row d [NL]) rows)) = concat (map (csv_row d [NL]) rows)"
    by (rule translate_newlines_no_CR) (rule CR_not_in_csv_rows [OF d ok])
  then show ?thesis by (simp add: csv_reader_def readlines_def readlines_csv_rows [OF d ok] csv_read_lines_rows [OF d ok])
qed

end
