(* ===== verification/Book_Output.thy ===== *)
theory Book_Output
  imports Book_Generator Py_Json Py_Csv
begin

text \<open>
  The output side of src/main.py: the book as the Python dict the generator
  yields (lines 137-151), \<open>to_json\<close> (lines 46-55), \<open>to_csv\<close> (lines 30-43),
  the printing loop and the dispatch on the subcommand in \<open>main\<close> (lines
  19-27), and \<open>main\<close> after argument parsing (lines 15-27). \<open>csv_text\<close> is the
  reference rendering of a CSV file that \<open>to_csv\<close>'s row-by-row writes are
  proved to produce.
\<close>

subsection \<open>The book as a Python value\<close>

definition fields_items :: "book_fields \<Rightarrow> (string \<times> pyval) list" where
  "fields_items f =
     [(''title'', PyStr (title f)), (''year'', PyInt (year f)), (''pages'', PyInt (pages f)),
      (''isbn13'', PyStr (isbn13 f)), (''rating'', PyInt (rating f)), (''price'', PyFloat2 (price f)),
      (''discount'', PyInt (discount f)), (''author'', PyList (map PyStr (author f)))]"

definition book_items :: "book \<Rightarrow> (string \<times> pyval) list" where
  "book_items b = [(''model'', PyStr (model b)), (''pk'', PyInt (pk b)), (''fields'', PyDict (fields_items (bfields b)))]"

definition book_val :: "book \<Rightarrow> pyval" where
  "book_val b = PyDict (book_items b)"

subsection \<open>\<open>to_json\<close>\<close>

definition to_json :: "pyval list \<Rightarrow> string \<Rightarrow> int \<Rightarrow> ('f world, unit) pyM" where
  "to_json obj filename dent =
     bindP (open_write filename) (\<lambda>_. write_str filename (json_dumps dent (PyList obj)))"

subsection \<open>\<open>to_csv\<close>\<close>

text \<open>The inner loop: one \<open>writerow([key, value])\<close> per item of a book.\<close>

fun csv_write_items :: "string \<Rightarrow> char \<Rightarrow> string \<Rightarrow> (string \<times> pyval) list \<Rightarrow> ('f world, unit) pyM" where
  "csv_write_items filename d lt [] = returnP ()"
| "csv_write_items filename d lt ((key, value) # kvs) =
     bindP (write_str filename (csv_row d lt [key, py_str value])) (\<lambda>_. csv_write_items filename d lt kvs)"

text \<open>The outer loop, over the books.\<close>

fun csv_write_books :: "string \<Rightarrow> char \<Rightarrow> string \<Rightarrow> (string \<times> pyval) list list \<Rightarrow> ('f world, unit) pyM" where
  "csv_write_books filename d lt [] = returnP ()"
| "csv_write_books filename d lt (book # obj) =
     bindP (csv_write_items filename d lt book) (\<lambda>_. csv_write_books filename d lt obj)"

definition to_csv :: "(string \<times> pyval) list list \<Rightarrow> string \<Rightarrow> string \<Rightarrow> string \<Rightarrow> ('f world, unit) pyM" where
  "to_csv obj filename v_sep l_sep =
     bindP (open_write filename) (\<lambda>_.
     bindP (csv_writer v_sep) (\<lambda>d. csv_write_books filename d l_sep obj))"

text \<open>The reference rendering: every book's rows, one per key, in order.\<close>

definition csv_text :: "char \<Rightarrow> string \<Rightarrow> (string \<times> pyval) list list \<Rightarrow> string" where
  "csv_text d lt obj = concat (map (\<lambda>book. concat (map (\<lambda>(k, v). csv_row d lt [k, py_str v]) book)) obj)"

subsection \<open>\<open>main\<close>\<close>

text \<open>\<open>for book in book_list: print(book)\<close>.\<close>

fun print_books :: "pyval list \<Rightarrow> ('f world, unit) pyM" where
  "print_books [] = returnP ()"
| "print_books (b # bs) = bindP (py_print (py_str b)) (\<lambda>_. print_books bs)"

definition saved_msg :: "string \<Rightarrow> string" where
  "saved_msg filename = ''Output saved to '' @ filename @ ''...''"

text \<open>Lines 19-27: the dispatch on \<open>args.output\<close>.\<close>

definition main_output :: "args \<Rightarrow> book list \<Rightarrow> ('f world, unit) pyM" where
  "main_output a book_list =
     (case output_arg a of
        JsonOut filename indent \<Rightarrow>
          bindP (to_json (map book_val book_list) filename indent) (\<lambda>_. py_print (saved_msg filename))
      | CsvOut filename v_separator l_separator \<Rightarrow>
          bindP (to_csv (map book_items book_list) filename v_separator l_separator)
            (\<lambda>_. py_print (saved_msg filename))
      | NoOutput \<Rightarrow> print_books (map book_val book_list))"

text \<open>Lines 15-27: \<open>main\<close> once the arguments are parsed.\<close>

definition main_body :: "conf \<Rightarrow> 'f faker_api \<Rightarrow> args \<Rightarrow> ('f world, unit) pyM" where
  "main_body cf fk a = bindP (generate_books cf fk a) (main_output a)"

subsection \<open>Effects of the output functions\<close>

lemma to_json_eq:
  "filename \<noteq> [] \<Longrightarrow>
   to_json obj filename dent w = Some (Inr (), set_file w filename (json_dumps dent (PyList obj)))"
  by (simp add: to_json_def bindP_def open_write_ok write_str_eq)

lemma to_json_empty_name: "to_json obj [] dent w = Some (Inl (FileNotFoundError []), w)"
  by (simp add: to_json_def bindP_def open_write_empty)

lemma csv_write_items_eq:
  "files w filename = Some t \<Longrightarrow>
   csv_write_items filename d lt kvs w =
     Some (Inr (), set_file w filename (t @ concat (map (\<lambda>(k, v). csv_row d lt [k, py_str v]) kvs)))"
proof (induction kvs arbitrary: w t)
  case Nil
  then show ?case by (simp add: returnP_def set_file_same)
next
  case (Cons kv kvs)
  obtain k v where kv: "kv = (k, v)" by (cases kv)
  let ?w1 = "set_file w filename (t @ csv_row d lt [k, py_str v])"
  have "csv_write_items filename d lt kvs ?w1 =
          Some (Inr (), set_file ?w1 filename ((t @ csv_row d lt [k, py_str v]) @
                 concat (map (\<lambda>(k, v). csv_row d lt [k, py_str v]) kvs)))"
    by (rule Cons.IH) simp
  then show ?case using Cons.prems by (simp add: kv bindP_def write_str_eq)
qed

lemma csv_write_books_eq:
  "files w filename = Some t \<Longrightarrow>
   csv_write_books filename d lt obj w = Some (Inr (), set_file w filename (t @ csv_text d lt obj))"
proof (induction obj arbitrary: w t)
  case Nil
  then show ?case by (simp add: returnP_def csv_text_def set_file_same)
next
  case (Cons book obj)
  let ?t1 = "t @ concat (map (\<lambda>(k, v). csv_row d lt [k, py_str v]) book)"
  let ?w1 = "set_file w filename ?t1"
  have "csv_write_books filename d lt obj ?w1 = Some (Inr (), set_file ?w1 filename (?t1 @ csv_text d lt obj))"
    by (rule Cons.IH) simp
  then show ?case using Cons.prems by (simp add: bindP_def csv_write_items_eq csv_text_def)
qed

lemma print_books_eq:
  "print_books vs w = Some (Inr (), w\<lparr>stdout := stdout w @ concat (map (\<lambda>v. py_str v @ [NL]) vs)\<rparr>)"
  by (induction vs arbitrary: w) (simp_all add: returnP_def bindP_def py_print_eq)

lemma py_str_book_val: "py_str (book_val b) = py_repr (book_val b)"
  by (simp add: book_val_def)

subsection \<open>\<open>main\<close> on each output branch\<close>

lemma main_body_Inr:
  "main_body cf fk a w = Some (Inr (), w') \<longleftrightarrow>
   (\<exists>bs w1. generate_books cf fk a w = Some (Inr bs, w1) \<and> main_output a bs w1 = Some (Inr (), w'))"
  by (simp add: main_body_def bindP_eq_Inr)

lemma main_output_json:
  "output_arg a = JsonOut filename dent \<Longrightarrow> filename \<noteq> [] \<Longrightarrow>
   main_output a bs w = Some (Inr (), (set_file w filename (json_dumps dent (PyList (map book_val bs))))
                                        \<lparr>stdout := stdout w @ saved_msg filename @ [NL]\<rparr>)"
  by (simp add: main_output_def bindP_def to_json_eq py_print_eq)

lemma main_output_json_Inr:
  "output_arg a = JsonOut filename dent \<Longrightarrow> main_output a bs w = Some (Inr (), w') \<Longrightarrow> filename \<noteq> []"
  by (auto simp: main_output_def bindP_def to_json_empty_name)

lemma main_output_csv:
  "output_arg a = CsvOut filename v_sep l_sep \<Longrightarrow>
   main_output a bs w =
     (if filename = [] then Some (Inl (FileNotFoundError []), w)
      else if length v_sep \<noteq> 1 then Some (Inl csv_delimiter_error, set_file w filename [])
      else Some (Inr (), (set_file w filename (csv_text (hd v_sep) l_sep (map book_items bs)))
                           \<lparr>stdout := stdout w @ saved_msg filename @ [NL]\<rparr>))"
  by (simp add: main_output_def bindP_def to_csv_def open_write_ok open_write_empty csv_writer_def raiseP_def
      returnP_def csv_write_books_eq py_print_eq)

lemma main_output_print:
  "output_arg a = NoOutput \<Longrightarrow>
   main_output a bs w = Some (Inr (), w\<lparr>stdout := stdout w @ concat (map (\<lambda>b. py_repr (book_val b) @ [NL]) bs)\<rparr>)"
  by (simp add: main_output_def print_books_eq py_str_book_val comp_def)

lemma to_json_Inr: "to_json obj filename dent w = Some (Inr (), w') \<Longrightarrow> filename \<noteq> []"
  by (cases "filename = []") (simp_all add: to_json_empty_name)

text \<open>With indent \<open>0\<close> a non-empty list still opens a new line after \<open>[\<close>.\<close>

lemma json_dumps_zero_list: "vs \<noteq> [] \<Longrightarrow> \<exists>u. json_dumps 0 (PyList vs) = CHR ''['' # NL # u"
  by (simp add: json_dumps_def json_nl_def)


subsection \<open>The rows of the CSV file\<close>

text \<open>The rows \<open>to_csv\<close> hands to \<open>writerow\<close>: \<open>[key, str(value)]\<close> for each key of each book.\<close>

lemma csv_text_rows:
  "csv_text d lt (map book_items bs) =
   concat (map (csv_row d lt) (concat (map (\<lambda>b. [[''model'', model b], [''pk'', str_int (pk b)],
                                                   [''fields'', py_repr (PyDict (fields_items (bfields b)))]]) bs)))"
  by (induction bs) (simp_all add: csv_text_def book_items_def)

text \<open>What the \<open>csv\<close> branch of \<open>main\<close> leaves in the file it names.\<close>

lemma main_body_csv_written:
  "main_body cf fk a w = Some (Inr (), w') \<Longrightarrow> output_arg a = CsvOut fn v l \<Longrightarrow>
   \<exists>bs w1. generate_books cf fk a w = Some (Inr bs, w1) \<and> main_output a bs w1 = Some (Inr (), w') \<and>
     length v = 1 \<and> files w' fn = Some (csv_text (hd v) l (map book_items bs))"
proof -
  assume run: "main_body cf fk a w = Some (Inr (), w')" and out: "output_arg a = CsvOut fn v l"
  from run obtain bs w1 where gen: "generate_books cf fk a w = Some (Inr bs, w1)"
    and mo: "main_output a bs w1 = Some (Inr (), w')" by (auto simp: main_body_Inr)
  from mo out have "length v = 1 \<and> files w' fn = Some (csv_text (hd v) l (map book_items bs))"
    by (auto simp: main_output_csv split: if_splits)
  with gen mo show ?thesis by blast
qed

end
