(* ===== verification/Py_Argparse.thy ===== *)
theory Py_Argparse
  imports Py_Json
begin

text \<open>
  The part of Python's \<open>argparse\<close> (Lib/argparse.py, CPython 3.11) that
  \<open>create_parser\<close>'s parser uses: optionals that store one value converted by
  \<open>int\<close> or kept as a string, with defaults; the automatic \<open>-h/--help\<close>;
  positionals with one argument each; and one optional \<open>add_subparsers\<close>
  action whose subparsers have optionals only. \<open>parse_args\<close> first classifies
  every argument as an option (\<open>O\<close>), a value (\<open>A\<close>) or the \<open>--\<close>
  separator (\<open>_parse_optional\<close>: exact option strings, \<open>--opt=value\<close>,
  unique prefixes of long options, \<open>-xVALUE\<close>, negative numbers and strings
  with a space as values), then consumes options and positionals in order
  (\<open>_parse_known_args\<close>). A failure is \<open>SystemExit\<close> with status 2 and the
  message after \<open>error:\<close>; \<open>--help\<close> is \<open>SystemExit\<close> with status 0 (the
  usage and help texts are not modelled).
\<close>

subsection \<open>Python's \<open>int(str)\<close>\<close>

text \<open>Decimal digits with single underscores between them.\<close>

fun digits_us :: "string \<Rightarrow> bool" where
  "digits_us [] = False"
| "digits_us [c] = is_digit c"
| "digits_us (c # d # r) =
     (is_digit c \<and> (if d = CHR ''_'' then (case r of [] \<Rightarrow> False | e # _ \<Rightarrow> is_digit e \<and> digits_us r)
                     else digits_us (d # r)))"

text \<open>
  \<open>int(s)\<close>: surrounding whitespace ignored, an optional sign, then the
  digits; anything else is a \<open>ValueError\<close> (here \<open>None\<close>).
\<close>

definition py_int :: "string \<Rightarrow> int option" where
  "py_int s =
     (let t = py_strip s;
          sg = (if t \<noteq> [] \<and> hd t = CHR ''-'' then -1 else 1 :: int);
          b = (if t \<noteq> [] \<and> (hd t = CHR ''-'' \<or> hd t = CHR ''+'') then tl t else t)
      in if digits_us b then Some (sg * int (digits_val (filter (\<lambda>c. c \<noteq> CHR ''_'') b))) else None)"

subsection \<open>Parsers\<close>

datatype arg_type = TInt | TStr | THelp

datatype nsval = NInt int | NStr string | NNone

record opt_action =
  ostrings :: "string list"
  odest :: string
  otype :: arg_type
  odefault :: nsval

text \<open>The action \<open>add_help=True\<close> registers first.\<close>

definition help_action :: opt_action where
  "help_action = \<lparr>ostrings = [''-h'', ''--help''], odest = ''help'', otype = THelp, odefault = NNone\<rparr>"

text \<open>
  A parser: its optionals in the order they were added (help first), its
  positionals, and the dest and the choices of its subparsers action (none when
  the list is empty).
\<close>

record arg_parser =
  pa_acts :: "opt_action list"
  pa_pos :: "(string \<times> arg_type) list"
  pa_sdest :: string
  pa_subs :: "(string \<times> opt_action list) list"

type_synonym namespace = "(string \<times> nsval) list"

definition opt_name :: "opt_action \<Rightarrow> string" where
  "opt_name a = py_join ''/'' (ostrings a)"

definition lookup_opt :: "opt_action list \<Rightarrow> string \<Rightarrow> opt_action option" where
  "lookup_opt acts s = find (\<lambda>a. s \<in> set (ostrings a)) acts"

subsection \<open>Classifying the arguments\<close>

text \<open>\<open>_negative_number_matcher\<close>: \<open>^-\d+$|^-\d*\.\d+$\<close> (\<open>$\<close> also before a final newline).\<close>

definition is_neg_number :: "string \<Rightarrow> bool" where
  "is_neg_number s =
     (let t = (if s \<noteq> [] \<and> last s = NL then butlast s else s) in
      t \<noteq> [] \<and> hd t = CHR ''-'' \<and>
      (let r = tl t; ds = dropWhile is_digit r in
       (r \<noteq> [] \<and> list_all is_digit r) \<or>
       (ds \<noteq> [] \<and> hd ds = CHR ''.'' \<and> tl ds \<noteq> [] \<and> list_all is_digit (tl ds))))"

text \<open>\<open>_get_option_tuples\<close>: the option strings an argument may abbreviate.\<close>

definition option_tuples :: "opt_action list \<Rightarrow> string \<Rightarrow> (opt_action \<times> string \<times> string option) list" where
  "option_tuples acts s =
     (if length s \<ge> 2 \<and> s ! 1 = CHR ''-'' then
        (let pre = takeWhile (\<lambda>c. c \<noteq> CHR ''='') s;
             ex = (if CHR ''='' \<in> set s then Some (tl (dropWhile (\<lambda>c. c \<noteq> CHR ''='') s)) else None)
         in concat (map (\<lambda>a. concat (map (\<lambda>os. if take (length pre) os = pre then [(a, os, ex)] else []) (ostrings a))) acts))
      else
        concat (map (\<lambda>a. concat (map (\<lambda>os.
            if os = take 2 s then [(a, os, Some (drop 2 s))]
            else if take (length s) os = s then [(a, os, None)] else []) (ostrings a))) acts))"

datatype optres =
    PosArg
  | OptHit opt_action string "string option"
  | OptUnknown
  | OptAmbiguous string

text \<open>\<open>_parse_optional\<close>.\<close>

definition parse_optional :: "opt_action list \<Rightarrow> string \<Rightarrow> optres" where
  "parse_optional acts s =
     (if s = [] \<or> hd s \<noteq> CHR ''-'' then PosArg
      else case lookup_opt acts s of
        Some a \<Rightarrow> OptHit a s None
      | None \<Rightarrow>
          if length s = 1 then PosArg
          else
            let pre = takeWhile (\<lambda>c. c \<noteq> CHR ''='') s;
                post = tl (dropWhile (\<lambda>c. c \<noteq> CHR ''='') s)
            in case (if CHR ''='' \<in> set s then lookup_opt acts pre else None) of
                 Some a \<Rightarrow> OptHit a pre (Some post)
               | None \<Rightarrow>
                   let ts = option_tuples acts s in
                   if length ts > 1 then OptAmbiguous (py_join '', '' (map (\<lambda>(a, os, ex). os) ts))
                   else if length ts = 1 then (case hd ts of (a, os, ex) \<Rightarrow> OptHit a os ex)
                   else if is_neg_number s then PosArg
                   else if CHR '' '' \<in> set s then PosArg
                   else OptUnknown)"

datatype tok =
    TokA string
  | TokD
  | TokO string "(opt_action \<times> string \<times> string option) option"

definition tok_str :: "tok \<Rightarrow> string" where
  "tok_str t = (case t of TokA s \<Rightarrow> s | TokD \<Rightarrow> ''--'' | TokO s _ \<Rightarrow> s)"

text \<open>
  The pattern pass of \<open>_parse_known_args\<close>: everything after the first
  \<open>--\<close> is a value; an ambiguous abbreviation is an error at once.
\<close>

fun classify :: "opt_action list \<Rightarrow> string list \<Rightarrow> string + tok list" where
  "classify acts [] = Inr []"
| "classify acts (s # ss) =
     (if s = ''--'' then Inr (TokD # map TokA ss)
      else case parse_optional acts s of
        OptAmbiguous m \<Rightarrow> Inl (''ambiguous option: '' @ s @ '' could match '' @ m)
      | r \<Rightarrow> (case classify acts ss of
                Inl m \<Rightarrow> Inl m
              | Inr ts \<Rightarrow> Inr ((case r of PosArg \<Rightarrow> TokA s | OptHit a os ex \<Rightarrow> TokO s (Some (a, os, ex))
                                   | _ \<Rightarrow> TokO s None) # ts)))"

lemma classify_length: "classify acts ss = Inr ts \<Longrightarrow> length ts = length ss"
  by (induction acts ss arbitrary: ts rule: classify.induct)
     (auto split: if_splits optres.splits sum.splits)

subsection \<open>Consuming the arguments\<close>

text \<open>
  The argument of a one-value action or positional, \<open>(-*A-*)\<close> on the pattern:
  a \<open>--\<close> next to the value is absorbed and then removed from it.
\<close>

fun match_one :: "tok list \<Rightarrow> (string \<times> tok list) option" where
  "match_one (TokD # TokA a # r) = Some (a, (case r of TokD # r' \<Rightarrow> r' | _ \<Rightarrow> r))"
| "match_one (TokA a # r) = Some (a, (case r of TokD # r' \<Rightarrow> r' | _ \<Rightarrow> r))"
| "match_one _ = None"

text \<open>
  The subparsers action, \<open>(-*A[-AO]*)\<close>: every remaining argument, a leading
  \<open>--\<close> included (it then stands where the subcommand's name is read).
\<close>

fun match_parser :: "tok list \<Rightarrow> string list option" where
  "match_parser (TokD # TokA a # r) = Some (''--'' # a # map tok_str r)"
| "match_parser (TokA a # r) = Some (a # map tok_str r)"
| "match_parser _ = None"

text \<open>\<open>_get_values\<close> for one string: the \<open>type\<close> conversion.\<close>

definition convert_val :: "string \<Rightarrow> arg_type \<Rightarrow> string \<Rightarrow> (int \<times> string) + nsval" where
  "convert_val name ty v =
     (case ty of
        TInt \<Rightarrow> (case py_int v of Some n \<Rightarrow> Inr (NInt n)
                 | None \<Rightarrow> Inl (2, ''argument '' @ name @ '': invalid int value: '' @ repr_str v))
      | _ \<Rightarrow> Inr (NStr v))"

text \<open>
  \<open>-h\<close> with an attached argument: \<open>consume_optional\<close> reads the following
  characters as further short flags; help runs first when they all parse, so
  the outcome is exit status 0 or the error met while reading them.
\<close>

fun help_chain :: "opt_action list \<Rightarrow> string \<Rightarrow> string option \<Rightarrow> tok list \<Rightarrow> int \<times> string" where
  "help_chain acts os None r = (0, [])"
| "help_chain acts os (Some e) r =
     (if length os \<ge> 2 \<and> os ! 1 \<noteq> CHR ''-'' \<and> e \<noteq> [] then
        (case lookup_opt acts [CHR ''-'', hd e] of
           None \<Rightarrow> (2, ''argument '' @ opt_name help_action @ '': ignored explicit argument '' @ repr_str e)
         | Some a' \<Rightarrow>
             if otype a' = THelp then help_chain acts [CHR ''-'', hd e] (if tl e = [] then None else Some (tl e)) r
             else if tl e \<noteq> [] then (0, [])
             else (case match_one r of
                     Some _ \<Rightarrow> (0, [])
                   | None \<Rightarrow> (2, ''argument '' @ opt_name a' @ '': expected one argument'')))
      else (2, ''argument '' @ opt_name help_action @ '': ignored explicit argument '' @ repr_str e))"

definition ns_defaults :: "opt_action list \<Rightarrow> namespace" where
  "ns_defaults acts = map (\<lambda>a. (odest a, odefault a)) (filter (\<lambda>a. otype a \<noteq> THelp) acts)"

definition is_opt_tok :: "tok \<Rightarrow> bool" where
  "is_opt_tok t = (case t of TokO _ _ \<Rightarrow> True | _ \<Rightarrow> False)"

definition invalid_choice :: "string \<Rightarrow> string \<Rightarrow> (string \<times> opt_action list) list \<Rightarrow> string" where
  "invalid_choice sdest name subs =
     ''argument '' @ sdest @ '': invalid choice: '' @ repr_str name @
     '' (choose from '' @ py_join '', '' (map (\<lambda>(n, _). repr_str n) subs) @ '')''"

lemma match_one_length: "match_one ts = Some (v, r) \<Longrightarrow> length r < length ts"
  by (induction ts rule: match_one.induct) (auto split: list.splits tok.splits)

lemma match_parser_length: "match_parser ts = Some vs \<Longrightarrow> length vs = length ts"
  by (induction ts rule: match_parser.induct) auto

text \<open>
  The loop of \<open>_parse_known_args\<close>: an option consumes its value; values
  before the next option feed the positionals in order (\<open>argpos\<close>), then the
  subparsers action, which takes every remaining argument and runs the chosen
  subparser on them; values nothing takes are extras. \<open>ns\<close> lists the values
  set, the latest first; \<open>ex\<close> the extras in order.
\<close>

function argloop ::
  "opt_action list \<Rightarrow> (string \<times> arg_type) list \<Rightarrow> string \<Rightarrow> (string \<times> opt_action list) list \<Rightarrow>
   tok list \<Rightarrow> namespace \<Rightarrow> string list \<Rightarrow> (int \<times> string) + (namespace \<times> string list)"
and argpos ::
  "opt_action list \<Rightarrow> (string \<times> arg_type) list \<Rightarrow> string \<Rightarrow> (string \<times> opt_action list) list \<Rightarrow>
   tok \<Rightarrow> tok list \<Rightarrow> namespace \<Rightarrow> string list \<Rightarrow> (int \<times> string) + (namespace \<times> string list)" where
  "argloop acts pos sdest subs [] ns ex =
     (if pos \<noteq> [] then Inl (2, ''the following arguments are required: '' @ py_join '', '' (map fst pos))
      else Inr (ns, ex))"
| "argloop acts pos sdest subs (TokO s None # r) ns ex = argloop acts pos sdest subs r ns (ex @ [s])"
| "argloop acts pos sdest subs (TokO s (Some (a, os, exp)) # r) ns ex =
     (if otype a = THelp then Inl (help_chain acts os exp r)
      else case (case exp of Some e \<Rightarrow> Some (e, r) | None \<Rightarrow> match_one r) of
        None \<Rightarrow> Inl (2, ''argument '' @ opt_name a @ '': expected one argument'')
      | Some (v, r') \<Rightarrow>
          (case convert_val (opt_name a) (otype a) v of
             Inl err \<Rightarrow> Inl err
           | Inr x \<Rightarrow> argloop acts pos sdest subs r' ((odest a, x) # ns) ex))"
| "argloop acts pos sdest subs (TokA s # r) ns ex = argpos acts pos sdest subs (TokA s) r ns ex"
| "argloop acts pos sdest subs (TokD # r) ns ex = argpos acts pos sdest subs TokD r ns ex"
| "argpos acts pos sdest subs t r ns ex =
     (case (if pos \<noteq> [] then map_option Inl (match_one (t # r))
            else if subs \<noteq> [] then map_option Inr (match_parser (t # r)) else None) of
        Some (Inl (v, r')) \<Rightarrow>
          (case convert_val (fst (hd pos)) (snd (hd pos)) v of
             Inl err \<Rightarrow> Inl err
           | Inr x \<Rightarrow> argloop acts (tl pos) sdest subs r' ((fst (hd pos), x) # ns) ex)
      | Some (Inr vals) \<Rightarrow>
          (case map_of subs (hd vals) of
             None \<Rightarrow> Inl (2, invalid_choice sdest (hd vals) subs)
           | Some sacts \<Rightarrow>
               (case classify sacts (tl vals) of
                  Inl m \<Rightarrow> Inl (2, m)
                | Inr sts \<Rightarrow>
                    (case argloop sacts [] [] [] sts (ns_defaults sacts) [] of
                       Inl err \<Rightarrow> Inl err
                     | Inr (sns, sex) \<Rightarrow> Inr (sns @ (sdest, NStr (hd vals)) # ns, ex @ sex))))
      | None \<Rightarrow>
          argloop acts pos sdest subs (dropWhile (Not \<circ> is_opt_tok) r) ns
            (ex @ tok_str t # map tok_str (takeWhile (Not \<circ> is_opt_tok) r)))"
  by pat_completeness auto

termination
  by (relation "measure (\<lambda>x. case x of
        Inl (acts, pos, sdest, subs, ts, ns, ex) \<Rightarrow> 2 * length ts + 1
      | Inr (acts, pos, sdest, subs, t, r, ns, ex) \<Rightarrow> 2 * length r + 2)")
     (auto dest!: match_one_length match_parser_length classify_length
           simp: length_dropWhile_le le_imp_less_Suc split: if_splits option.splits)

text \<open>
  The namespace \<open>parse_known_args\<close> starts from: every optional's default
  (help has none) and \<open>None\<close> for the positionals and the subparsers' dest.
\<close>

definition init_ns :: "arg_parser \<Rightarrow> namespace" where
  "init_ns p =
     ns_defaults (pa_acts p) @ map (\<lambda>(n, _). (n, NNone)) (pa_pos p) @
     (if pa_subs p = [] then [] else [(pa_sdest p, NNone)])"

text \<open>\<open>parser.parse_args(argv)\<close>: extras left over are an error.\<close>

definition parse_args :: "arg_parser \<Rightarrow> string list \<Rightarrow> (int \<times> string) + namespace" where
  "parse_args p argv =
     (case classify (pa_acts p) argv of
        Inl m \<Rightarrow> Inl (2, m)
      | Inr ts \<Rightarrow>
          (case argloop (pa_acts p) (pa_pos p) (pa_sdest p) (pa_subs p) ts (init_ns p) [] of
             Inl err \<Rightarrow> Inl err
           | Inr (ns, ex) \<Rightarrow> if ex = [] then Inr ns else Inl (2, ''unrecognized arguments: '' @ py_join '' '' ex)))"

subsection \<open>Types of the parsed values\<close>

text \<open>
  A type assignment \<open>T\<close> gives each dest the type its values have:
  \<open>has_type\<close> is \<open>isinstance\<close>, \<open>conf_ok\<close> says a parser
  declares its actions consistently with \<open>T\<close> (defaults included) and keeps
  the subparsers' dest apart from every other dest, and \<open>added_ok\<close> is what
  a run of the loop may put in front of the namespace.
\<close>

fun has_type :: "arg_type \<Rightarrow> nsval \<Rightarrow> bool" where
  "has_type TInt (NInt _) = True"
| "has_type TStr (NStr _) = True"
| "has_type _ _ = False"

fun tok_in :: "opt_action list \<Rightarrow> tok \<Rightarrow> bool" where
  "tok_in acts (TokO s (Some (a, os, e))) \<longleftrightarrow> a \<in> set acts"
| "tok_in acts _ \<longleftrightarrow> True"

definition toks_ok :: "opt_action list \<Rightarrow> tok list \<Rightarrow> bool" where
  "toks_ok acts ts \<longleftrightarrow> list_all (tok_in acts) ts"

definition acts_typed :: "(string \<Rightarrow> arg_type) \<Rightarrow> opt_action list \<Rightarrow> bool" where
  "acts_typed T acts \<longleftrightarrow>
     (\<forall>a\<in>set acts. otype a \<noteq> THelp \<longrightarrow> T (odest a) = otype a \<and> has_type (otype a) (odefault a))"

definition conf_ok :: "(string \<Rightarrow> arg_type) \<Rightarrow> opt_action list \<Rightarrow> (string \<times> arg_type) list \<Rightarrow> string \<Rightarrow>
                       (string \<times> opt_action list) list \<Rightarrow> bool" where
  "conf_ok T acts pos sdest subs \<longleftrightarrow>
     acts_typed T acts \<and> (\<forall>(n, t)\<in>set pos. T n = t \<and> t \<noteq> THelp) \<and>
     (subs \<noteq> [] \<longrightarrow> T sdest = TStr \<and> sdest \<notin> odest ` set acts \<and> sdest \<notin> fst ` set pos \<and>
        (\<forall>(n, sacts)\<in>set subs. acts_typed T sacts \<and> sdest \<notin> odest ` set sacts))"

definition added_ok :: "(string \<Rightarrow> arg_type) \<Rightarrow> opt_action list \<Rightarrow> (string \<times> arg_type) list \<Rightarrow> string \<Rightarrow>
                        (string \<times> opt_action list) list \<Rightarrow> namespace \<Rightarrow> bool" where
  "added_ok T acts pos sdest subs xs \<longleftrightarrow>
     (\<forall>(d, v)\<in>set xs. has_type (T d) v) \<and>
     fst ` set pos \<subseteq> fst ` set xs \<and>
     fst ` set xs \<subseteq> odest ` set acts \<union> fst ` set pos \<union>
       (if subs = [] then {} else insert sdest (\<Union>(_, sacts)\<in>set subs. odest ` set sacts)) \<and>
     (subs \<noteq> [] \<longrightarrow> sdest \<notin> fst ` set xs \<or>
        (\<exists>name sacts. map_of xs sdest = Some (NStr name) \<and> map_of subs name = Some sacts \<and>
           odest ` set (filter (\<lambda>a. otype a \<noteq> THelp) sacts) \<subseteq> fst ` set xs))"

lemma option_tuples_acts: "(a, os, e) \<in> set (option_tuples acts s) \<Longrightarrow> a \<in> set acts"
  by (auto simp: option_tuples_def Let_def split: if_splits)

lemma lookup_opt_acts: "lookup_opt acts s = Some a \<Longrightarrow> a \<in> set acts"
  by (simp add: lookup_opt_def find_Some_iff) (metis nth_mem)

lemma parse_optional_acts: "parse_optional acts s = OptHit a os e \<Longrightarrow> a \<in> set acts"
proof -
  assume h: "parse_optional acts s = OptHit a os e"
  let ?ts = "option_tuples acts s"
  have "length ?ts = 1 \<Longrightarrow> hd ?ts \<in> set ?ts" by (cases ?ts) auto
  with h show ?thesis
    by (auto simp: parse_optional_def Let_def dest: lookup_opt_acts option_tuples_acts
             split: if_splits option.splits prod.splits)
qed

lemma classify_toks: "classify acts ss = Inr ts \<Longrightarrow> toks_ok acts ts"
proof (induction acts ss arbitrary: ts rule: classify.induct)
  case (2 acts s ss)
  then show ?case using parse_optional_acts [of acts s]
    by (auto simp: toks_ok_def list_all_iff split: if_splits optres.splits sum.splits)
qed (simp add: toks_ok_def)

lemma match_one_set: "match_one ts = Some (v, r) \<Longrightarrow> set r \<subseteq> set ts"
  by (induction ts rule: match_one.induct) (auto split: list.splits tok.splits)

lemma toks_ok_subset: "toks_ok acts ts \<Longrightarrow> set r \<subseteq> set ts \<Longrightarrow> toks_ok acts r"
  by (auto simp: toks_ok_def list_all_iff)

lemma convert_val_type: "convert_val name t v = Inr x \<Longrightarrow> t \<noteq> THelp \<Longrightarrow> has_type t x"
  by (cases t) (auto simp: convert_val_def split: option.splits)


lemma toks_ok_tl: "toks_ok acts (t # r) \<Longrightarrow> toks_ok acts r"
  by (simp add: toks_ok_def)

lemma conf_ok_tl: "conf_ok T acts pos sdest subs \<Longrightarrow> conf_ok T acts (tl pos) sdest subs"
  by (cases pos) (simp_all add: conf_ok_def)

lemma acts_typed_dest:
  "acts_typed T acts \<Longrightarrow> a \<in> set acts \<Longrightarrow> otype a \<noteq> THelp \<Longrightarrow> T (odest a) = otype a"
  by (simp add: acts_typed_def)

lemma ns_defaults_typed: "acts_typed T acts \<Longrightarrow> \<forall>(d, v)\<in>set (ns_defaults acts). has_type (T d) v"
  by (auto simp: acts_typed_def ns_defaults_def)

lemma ns_defaults_keys: "fst ` set (ns_defaults acts) = odest ` set (filter (\<lambda>a. otype a \<noteq> THelp) acts)"
  by (force simp: ns_defaults_def)

abbreviation sub_keys :: "string \<Rightarrow> (string \<times> opt_action list) list \<Rightarrow> string set" where
  "sub_keys sdest subs \<equiv> (if subs = [] then {} else insert sdest (\<Union>(_, sacts)\<in>set subs. odest ` set sacts))"

lemma added_okI:
  assumes "\<forall>(d, v)\<in>set xs. has_type (T d) v"
    and "fst ` set pos \<subseteq> fst ` set xs"
    and "fst ` set xs \<subseteq> odest ` set acts \<union> fst ` set pos \<union> sub_keys sdest subs"
    and "subs \<noteq> [] \<Longrightarrow> sdest \<notin> fst ` set xs \<or>
           (\<exists>name sacts. map_of xs sdest = Some (NStr name) \<and> map_of subs name = Some sacts \<and>
              odest ` set (filter (\<lambda>a. otype a \<noteq> THelp) sacts) \<subseteq> fst ` set xs)"
  shows "added_ok T acts pos sdest subs xs"
  using assms unfolding added_ok_def by (simp only: if_False) simp

lemma added_okD:
  assumes "added_ok T acts pos sdest subs xs"
  shows "\<forall>(d, v)\<in>set xs. has_type (T d) v"
    and "fst ` set pos \<subseteq> fst ` set xs"
    and "fst ` set xs \<subseteq> odest ` set acts \<union> fst ` set pos \<union> sub_keys sdest subs"
    and "subs \<noteq> [] \<Longrightarrow> sdest \<notin> fst ` set xs \<or>
           (\<exists>name sacts. map_of xs sdest = Some (NStr name) \<and> map_of subs name = Some sacts \<and>
              odest ` set (filter (\<lambda>a. otype a \<noteq> THelp) sacts) \<subseteq> fst ` set xs)"
  using assms unfolding added_ok_def by simp_all

lemma added_ok_Nil: "added_ok T acts [] sdest subs []"
  by (simp add: added_ok_def)

text \<open>One more value at the end of the added part, under a key other than the subparsers' dest.\<close>

lemma added_ok_snoc:
  assumes ok: "added_ok T acts pos' sdest subs xs" and ty: "has_type (T d) x"
    and ps: "fst ` set pos \<subseteq> insert d (fst ` set pos')"
    and ks: "insert d (fst ` set pos') \<subseteq> odest ` set acts \<union> fst ` set pos"
    and sd: "subs \<noteq> [] \<Longrightarrow> sdest \<noteq> d"
  shows "added_ok T acts pos sdest subs (xs @ [(d, x)])"
proof (rule added_okI)
  have k: "fst ` set (xs @ [(d, x)]) = insert d (fst ` set xs)" by auto
  show "\<forall>(d, v)\<in>set (xs @ [(d, x)]). has_type (T d) v" using added_okD(1) [OF ok] ty by auto
  show "fst ` set pos \<subseteq> fst ` set (xs @ [(d, x)])" unfolding k using added_okD(2) [OF ok] ps by blast
  show "fst ` set (xs @ [(d, x)]) \<subseteq> odest ` set acts \<union> fst ` set pos \<union> sub_keys sdest subs"
    unfolding k using added_okD(3) [OF ok] ks by blast
  assume ne: "subs \<noteq> []"
  from added_okD(4) [OF ok ne]
  consider (N) "sdest \<notin> fst ` set xs"
    | (S) name sacts where "map_of xs sdest = Some (NStr name)" "map_of subs name = Some sacts"
        "odest ` set (filter (\<lambda>a. otype a \<noteq> THelp) sacts) \<subseteq> fst ` set xs"
    by blast
  then show "sdest \<notin> fst ` set (xs @ [(d, x)]) \<or>
           (\<exists>name sacts. map_of (xs @ [(d, x)]) sdest = Some (NStr name) \<and> map_of subs name = Some sacts \<and>
              odest ` set (filter (\<lambda>a. otype a \<noteq> THelp) sacts) \<subseteq> fst ` set (xs @ [(d, x)]))"
  proof cases
    case N
    then show ?thesis using sd [OF ne] unfolding k by blast
  next
    case (S name sacts)
    then have "map_of (xs @ [(d, x)]) sdest = Some (NStr name)" by simp
    with S show ?thesis unfolding k by blast
  qed
qed

lemma added_ok_opt:
  "added_ok T acts pos sdest subs xs \<Longrightarrow> a \<in> set acts \<Longrightarrow> has_type (T (odest a)) x \<Longrightarrow>
   (subs \<noteq> [] \<Longrightarrow> sdest \<notin> odest ` set acts) \<Longrightarrow> added_ok T acts pos sdest subs (xs @ [(odest a, x)])"
  by (rule added_ok_snoc) auto

lemma added_ok_pos:
  "added_ok T acts (tl pos) sdest subs xs \<Longrightarrow> pos \<noteq> [] \<Longrightarrow> has_type (T (fst (hd pos))) x \<Longrightarrow>
   (subs \<noteq> [] \<Longrightarrow> sdest \<notin> fst ` set pos) \<Longrightarrow> added_ok T acts pos sdest subs (xs @ [(fst (hd pos), x)])"
  by (rule added_ok_snoc) (auto simp: neq_Nil_conv)

lemma added_ok_sub:
  assumes ys: "\<forall>(d, v)\<in>set ys. has_type (T d) v" "fst ` set ys \<subseteq> odest ` set sacts"
    and ty: "acts_typed T sacts" and sub: "map_of subs name = Some sacts"
    and sd: "sdest \<notin> odest ` set sacts" "T sdest = TStr"
  shows "added_ok T acts [] sdest subs (ys @ ns_defaults sacts @ [(sdest, NStr name)])"
proof (rule added_okI)
  let ?xs = "ys @ ns_defaults sacts @ [(sdest, NStr name)]"
  have mem: "(name, sacts) \<in> set subs" using sub by (rule map_of_SomeD)
  have dk: "fst ` set (ns_defaults sacts) \<subseteq> odest ` set sacts" by (auto simp: ns_defaults_keys)
  have "map_of ys sdest = None" "map_of (ns_defaults sacts) sdest = None"
    using ys(2) dk sd(1) by (auto simp: map_of_eq_None_iff)
  then have lk: "map_of ?xs sdest = Some (NStr name)" by (simp add: map_add_def)
  show "\<forall>(d, v)\<in>set ?xs. has_type (T d) v" using ys(1) ns_defaults_typed [OF ty] sd(2) by auto
  show "fst ` set [] \<subseteq> fst ` set ?xs" by simp
  define U where "U = (\<Union>(_, sacts)\<in>set subs. odest ` set sacts)"
  have "odest ` set sacts \<subseteq> U" using mem by (force simp: U_def)
  moreover have e: "sub_keys sdest subs = insert sdest U" using mem by (auto simp: U_def)
  moreover have "fst ` set ?xs \<subseteq> insert sdest (odest ` set sacts)" using ys(2) dk by auto
  ultimately have "fst ` set ?xs \<subseteq> sub_keys sdest subs" by blast
  then show "fst ` set ?xs \<subseteq> odest ` set acts \<union> fst ` set [] \<union> sub_keys sdest subs"
    by blast
  show "sdest \<notin> fst ` set ?xs \<or>
           (\<exists>name sacts. map_of ?xs sdest = Some (NStr name) \<and> map_of subs name = Some sacts \<and>
              odest ` set (filter (\<lambda>a. otype a \<noteq> THelp) sacts) \<subseteq> fst ` set ?xs)"
  proof (intro disjI2 exI conjI)
    show "map_of ?xs sdest = Some (NStr name)" by (fact lk)
    show "map_of subs name = Some sacts" by (fact sub)
    show "odest ` set (filter (\<lambda>a. otype a \<noteq> THelp) sacts) \<subseteq> fst ` set ?xs"
      using ns_defaults_keys [of sacts] by auto
  qed
qed


text \<open>The three kinds of value a run adds, each of its declared type.\<close>

lemma added_ok_opt_val:
  "conf_ok T acts pos sdest subs \<Longrightarrow> a \<in> set acts \<Longrightarrow> otype a \<noteq> THelp \<Longrightarrow>
   convert_val n (otype a) v = Inr x \<Longrightarrow> added_ok T acts pos sdest subs xs \<Longrightarrow>
   added_ok T acts pos sdest subs (xs @ [(odest a, x)])"
  using convert_val_type [of n "otype a" v x] acts_typed_dest [of T acts a]
  by (intro added_ok_opt) (auto simp: conf_ok_def)

lemma added_ok_pos_val:
  "conf_ok T acts pos sdest subs \<Longrightarrow> pos \<noteq> [] \<Longrightarrow> convert_val n (snd (hd pos)) v = Inr x \<Longrightarrow>
   added_ok T acts (tl pos) sdest subs xs \<Longrightarrow> added_ok T acts pos sdest subs (xs @ [(fst (hd pos), x)])"
proof -
  assume conf: "conf_ok T acts pos sdest subs" and pos: "pos \<noteq> []"
    and c: "convert_val n (snd (hd pos)) v = Inr x" and ok: "added_ok T acts (tl pos) sdest subs xs"
  have "hd pos \<in> set pos" using pos by simp
  then have "T (fst (hd pos)) = snd (hd pos) \<and> snd (hd pos) \<noteq> THelp" using conf by (auto simp: conf_ok_def)
  then have "has_type (T (fst (hd pos))) x" using convert_val_type [OF c] by simp
  then show ?thesis using added_ok_pos [OF ok pos] conf by (simp add: conf_ok_def)
qed

lemma conf_ok_sub:
  "conf_ok T acts pos sdest subs \<Longrightarrow> subs \<noteq> [] \<Longrightarrow> map_of subs name = Some sacts \<Longrightarrow>
   conf_ok T sacts [] [] [] \<and> sdest \<notin> odest ` set sacts \<and> T sdest = TStr"
  by (drule map_of_SomeD) (auto simp: conf_ok_def)

lemma added_ok_sub_run:
  "conf_ok T acts [] sdest subs \<Longrightarrow> subs \<noteq> [] \<Longrightarrow> map_of subs name = Some sacts \<Longrightarrow>
   added_ok T sacts [] [] [] ys \<Longrightarrow> added_ok T acts [] sdest subs (ys @ ns_defaults sacts @ [(sdest, NStr name)])"
proof -
  assume conf: "conf_ok T acts [] sdest subs" and ne: "subs \<noteq> []" and ms: "map_of subs name = Some sacts"
    and ys: "added_ok T sacts [] [] [] ys"
  from conf_ok_sub [OF conf ne ms] have "acts_typed T sacts" "sdest \<notin> odest ` set sacts" "T sdest = TStr"
    by (simp_all add: conf_ok_def)
  then show ?thesis using added_ok_sub [OF added_okD(1) [OF ys] _ _ ms] added_okD(3) [OF ys] by simp
qed

text \<open>What a successful step of the loop consists of.\<close>

lemma argloop_opt_Inr:
  "argloop acts pos sdest subs (TokO s (Some (a, os, exp)) # r) ns ex = Inr (ns', ex') \<Longrightarrow>
   otype a \<noteq> THelp \<and> (\<exists>v r' x. (case exp of None \<Rightarrow> match_one r | Some e \<Rightarrow> Some (e, r)) = Some (v, r') \<and>
     convert_val (opt_name a) (otype a) v = Inr x \<and> argloop acts pos sdest subs r' ((odest a, x) # ns) ex = Inr (ns', ex'))"
  by (auto split: if_splits option.splits sum.splits)

lemma argpos_Inr:
  assumes "argpos acts pos sdest subs t r ns ex = Inr (ns', ex')"
  shows "((if pos \<noteq> [] then map_option Inl (match_one (t # r))
       else if subs \<noteq> [] then map_option Inr (match_parser (t # r)) else None) = None \<and>
          argloop acts pos sdest subs (dropWhile (Not \<circ> is_opt_tok) r) ns
            (ex @ tok_str t # map tok_str (takeWhile (Not \<circ> is_opt_tok) r)) = Inr (ns', ex')) \<or>
         (\<exists>v r' x. (if pos \<noteq> [] then map_option Inl (match_one (t # r))
       else if subs \<noteq> [] then map_option Inr (match_parser (t # r)) else None) = Some (Inl (v, r')) \<and> convert_val (fst (hd pos)) (snd (hd pos)) v = Inr x \<and>
            argloop acts (tl pos) sdest subs r' ((fst (hd pos), x) # ns) ex = Inr (ns', ex')) \<or>
         (\<exists>vals sacts sts sns sex. (if pos \<noteq> [] then map_option Inl (match_one (t # r))
       else if subs \<noteq> [] then map_option Inr (match_parser (t # r)) else None) = Some (Inr vals) \<and> map_of subs (hd vals) = Some sacts \<and>
            classify sacts (tl vals) = Inr sts \<and> argloop sacts [] [] [] sts (ns_defaults sacts) [] = Inr (sns, sex) \<and>
            ns' = sns @ (sdest, NStr (hd vals)) # ns)"
  using assms by (auto split: option.splits sum.splits prod.splits)

text \<open>
  What a successful run of the loop adds in front of the namespace it started
  from: values of the declared types, one for every positional, and, when a
  subcommand ran, its name under the dest and every option of that
  subcommand.
\<close>

lemma argloop_added:
  "conf_ok T acts pos sdest subs \<Longrightarrow> toks_ok acts ts \<Longrightarrow>
   argloop acts pos sdest subs ts ns ex = Inr (ns', ex') \<Longrightarrow>
   \<exists>xs. ns' = xs @ ns \<and> added_ok T acts pos sdest subs xs"
and argpos_added:
  "conf_ok T acts pos sdest subs \<Longrightarrow> toks_ok acts (t # r) \<Longrightarrow>
   argpos acts pos sdest subs t r ns ex = Inr (ns', ex') \<Longrightarrow>
   \<exists>xs. ns' = xs @ ns \<and> added_ok T acts pos sdest subs xs"
proof (induction acts pos sdest subs ts ns ex and acts pos sdest subs t r ns ex
       arbitrary: ns' ex' and ns' ex' rule: argloop_argpos.induct)
  case (1 acts pos sdest subs ns ex)
  then show ?case using added_ok_Nil by (fastforce split: if_splits)
next
  case (2 acts pos sdest subs s r ns ex)
  then show ?case by (simp add: toks_ok_def)
next
  case (3 acts pos sdest subs s a os exp r ns ex)
  from argloop_opt_Inr [OF 3(4)] obtain v r' x where nh: "otype a \<noteq> THelp"
    and m: "(case exp of None \<Rightarrow> match_one r | Some e \<Rightarrow> Some (e, r)) = Some (v, r')"
    and c: "convert_val (opt_name a) (otype a) v = Inr x"
    and run: "argloop acts pos sdest subs r' ((odest a, x) # ns) ex = Inr (ns', ex')" by blast
  have "set r' \<subseteq> set r" using m by (auto split: option.splits dest: match_one_set)
  then have "toks_ok acts r'" using toks_ok_tl [OF 3(3)] toks_ok_subset by blast
  then obtain xs where xs: "ns' = xs @ (odest a, x) # ns" "added_ok T acts pos sdest subs xs"
    using "3.IH" [OF nh m refl c 3(2) _ run] by blast
  have "a \<in> set acts" using 3(3) by (simp add: toks_ok_def)
  with xs show ?case using added_ok_opt_val [OF 3(2) _ nh c] by auto
next
  case (4 acts pos sdest subs s r ns ex)
  then show ?case by simp
next
  case (5 acts pos sdest subs r ns ex)
  then show ?case by simp
next
  case (6 acts pos sdest subs t r ns ex)
  note conf = 6(4) and tk = 6(5)
  from argpos_Inr [OF 6(6)] show ?case
  proof (elim disjE exE conjE)
    assume None: "(if pos \<noteq> [] then map_option Inl (match_one (t # r))
       else if subs \<noteq> [] then map_option Inr (match_parser (t # r)) else None) = None"
      and run: "argloop acts pos sdest subs (dropWhile (Not \<circ> is_opt_tok) r) ns
                  (ex @ tok_str t # map tok_str (takeWhile (Not \<circ> is_opt_tok) r)) = Inr (ns', ex')"
    have "set (dropWhile (Not \<circ> is_opt_tok) r) \<subseteq> set (t # r)" by (auto dest: set_dropWhileD)
    then show ?thesis using "6.IH"(1) [OF None conf _ run] tk toks_ok_subset by blast
  next
    fix v r' x
    assume sel: "(if pos \<noteq> [] then map_option Inl (match_one (t # r))
       else if subs \<noteq> [] then map_option Inr (match_parser (t # r)) else None) = Some (Inl (v, r'))" and c: "convert_val (fst (hd pos)) (snd (hd pos)) v = Inr x"
      and run: "argloop acts (tl pos) sdest subs r' ((fst (hd pos), x) # ns) ex = Inr (ns', ex')"
    have pos: "pos \<noteq> []" and m: "match_one (t # r) = Some (v, r')" using sel by (auto split: if_splits)
    have "toks_ok acts r'" using tk toks_ok_subset match_one_set [OF m] by blast
    then obtain xs where "ns' = xs @ (fst (hd pos), x) # ns" "added_ok T acts (tl pos) sdest subs xs"
      using "6.IH"(2) [OF sel refl refl c conf_ok_tl [OF conf] _ run] by blast
    then show ?thesis using added_ok_pos_val [OF conf pos c] by auto
  next
    fix vals sacts sts sns sex
    assume sel: "(if pos \<noteq> [] then map_option Inl (match_one (t # r))
       else if subs \<noteq> [] then map_option Inr (match_parser (t # r)) else None) = Some (Inr vals)" and ms: "map_of subs (hd vals) = Some sacts"
      and cl: "classify sacts (tl vals) = Inr sts"
      and nr: "argloop sacts [] [] [] sts (ns_defaults sacts) [] = Inr (sns, sex)"
      and ns': "ns' = sns @ (sdest, NStr (hd vals)) # ns"
    have pos: "pos = []" and ne: "subs \<noteq> []" using sel by (auto split: if_splits)
    obtain ys where ys: "sns = ys @ ns_defaults sacts" "added_ok T sacts [] [] [] ys"
      using "6.IH"(3) [OF sel refl ms cl _ classify_toks [OF cl] nr] conf_ok_sub [OF conf ne ms] by blast
    then show ?thesis using added_ok_sub_run [OF conf [unfolded pos] ne ms ys(2)] ns' pos by auto
  qed
qed

text \<open>The namespace \<open>parse_args\<close> returns: the added values in front of \<open>init_ns\<close>.\<close>

lemma parse_args_added:
  "conf_ok T (pa_acts p) (pa_pos p) (pa_sdest p) (pa_subs p) \<Longrightarrow> parse_args p argv = Inr ns \<Longrightarrow>
   \<exists>xs. ns = xs @ init_ns p \<and> added_ok T (pa_acts p) (pa_pos p) (pa_sdest p) (pa_subs p) xs"
proof -
  assume conf: "conf_ok T (pa_acts p) (pa_pos p) (pa_sdest p) (pa_subs p)" and ok: "parse_args p argv = Inr ns"
  then obtain ts where cl: "classify (pa_acts p) argv = Inr ts"
    and run: "argloop (pa_acts p) (pa_pos p) (pa_sdest p) (pa_subs p) ts (init_ns p) [] = Inr (ns, [])"
    by (auto simp: parse_args_def split: sum.splits if_splits)
  show ?thesis by (rule argloop_added [OF conf classify_toks [OF cl] run])
qed

subsection \<open>\<open>int\<close> and \<open>str\<close>, and arguments that are values\<close>

lemma digit_facts:
  "is_digit c \<Longrightarrow>
   \<not> py_isspace c \<and> c \<noteq> CHR ''_'' \<and> c \<noteq> CHR ''-'' \<and> c \<noteq> CHR ''+'' \<and> c \<noteq> CHR ''='' \<and> c \<noteq> NL"
  by (auto simp: is_digit_def decimal_digits_def py_isspace_def NL_def)

lemma digits_us_digits: "xs \<noteq> [] \<Longrightarrow> \<forall>c\<in>set xs. is_digit c \<Longrightarrow> digits_us xs"
  by (induction xs rule: digits_us.induct) (auto dest: digit_facts)

lemma py_strip_digits: "\<forall>c\<in>set s. is_digit c \<Longrightarrow> py_strip s = s"
  using digit_facts by (blast intro: py_strip_id)

lemma py_int_str_nat: "py_int (str_nat n) = Some (int n)"
proof -
  have d: "\<forall>c\<in>set (str_nat n). is_digit c" by (rule is_digit_str_nat)
  then have "hd (str_nat n) \<noteq> CHR ''-'' \<and> hd (str_nat n) \<noteq> CHR ''+''"
    using digit_facts hd_in_set [OF str_nat_nonempty] by blast
  moreover have "filter (\<lambda>c. c \<noteq> CHR ''_'') (str_nat n) = str_nat n" using d digit_facts by (auto simp: filter_id_conv)
  ultimately show ?thesis using d digits_us_digits [OF str_nat_nonempty d]
    by (simp add: py_int_def py_strip_digits digits_val_str_nat)
qed

lemma py_int_str_int: "py_int (str_int n) = Some n"
proof (cases "n < 0")
  case True
  have d: "\<forall>c\<in>set (str_nat (nat (- n))). is_digit c" by (rule is_digit_str_nat)
  have "py_strip (CHR ''-'' # str_nat (nat (- n))) = CHR ''-'' # str_nat (nat (- n))"
    using d digit_facts by (intro py_strip_id) (auto simp: py_isspace_def)
  moreover have "filter (\<lambda>c. c \<noteq> CHR ''_'') (str_nat (nat (- n))) = str_nat (nat (- n))"
    using d digit_facts by (auto simp: filter_id_conv)
  ultimately show ?thesis using True digits_us_digits [OF str_nat_nonempty d]
    by (simp add: py_int_def str_int_def digits_val_str_nat)
qed (simp add: str_int_def py_int_str_nat)


lemma parse_optional_str_int:
  assumes os: "\<forall>a\<in>set acts. \<forall>ostr\<in>set (ostrings a). 2 \<le> length ostr \<and> \<not> is_digit (ostr ! 1)"
  shows "parse_optional acts (str_int n) = PosArg"
proof (cases "n < 0")
  case False
  then show ?thesis using hd_str_nat by (simp add: parse_optional_def str_int_def)
next
  case True
  obtain c r where cr: "str_nat (nat (- n)) = c # r" by (cases "str_nat (nat (- n))") auto
  have d: "is_digit c" "\<forall>x\<in>set r. is_digit x" using is_digit_str_nat [of "nat (- n)"] cr by auto
  define s where "s = CHR ''-'' # c # r"
  have s: "str_int n = s" using True cr by (simp add: str_int_def s_def)
  have no: "ostr \<noteq> take 2 s \<and> take (length s) ostr \<noteq> s \<and> ostr \<noteq> s" if "a \<in> set acts" "ostr \<in> set (ostrings a)" for a ostr
  proof -
    have ostr: "\<not> is_digit (ostr ! 1)" using os that by auto
    have "ostr ! 1 \<noteq> c" using ostr d(1) by auto
    moreover have "ostr ! 1 = c" if "take (length s) ostr = s"
      using that nth_take [of 1 "length s" ostr] by (simp add: s_def)
    ultimately show ?thesis by (auto simp: s_def)
  qed
  have "lookup_opt acts s = None" using no by (auto simp: lookup_opt_def find_None_iff)
  moreover have "option_tuples acts s = []"
  proof -
    have ne1: "(2 \<le> length s \<and> s ! 1 = CHR ''-'') = False" using d(1) digit_facts [of c] by (simp add: s_def)
    have "\<forall>a\<in>set acts. \<forall>ostr\<in>set (ostrings a).
            (if ostr = take 2 s then [(a, ostr, Some (drop 2 s))]
             else if take (length s) ostr = s then [(a, ostr, None)] else []) = []"
      using no by simp
    then show ?thesis by (simp only: option_tuples_def ne1 if_False) simp
  qed
  moreover have "CHR ''='' \<notin> set s" using d digit_facts by (auto simp: s_def)
  moreover have "is_neg_number s"
  proof -
    have "last (c # r) \<in> set (c # r)" by (rule last_in_set) simp
    then have "last s \<noteq> NL" using d digit_facts by (auto simp: s_def)
    moreover have "s \<noteq> []" "hd s = CHR ''-''" "tl s = c # r" by (simp_all add: s_def)
    ultimately show ?thesis using d by (simp add: is_neg_number_def list_all_iff Let_def)
  qed
  moreover have "s \<noteq> []" "hd s = CHR ''-''" "length s \<noteq> 1" by (simp_all add: s_def)
  ultimately show ?thesis by (simp add: parse_optional_def s Let_def)
qed

text \<open>\<open>str(n)\<close> of an int is never an option when no option string has a digit second.\<close>

definition opts_nondigit :: "opt_action list \<Rightarrow> bool" where
  "opts_nondigit acts \<longleftrightarrow> (\<forall>a\<in>set acts. \<forall>ostr\<in>set (ostrings a). 2 \<le> length ostr \<and> \<not> is_digit (ostr ! 1))"

lemma str_int_not_dd: "str_int n \<noteq> ''--''"
proof -
  have "str_nat m \<noteq> CHR ''-'' # r" for m r
    using hd_str_nat [of m] by (metis list.sel(1))
  then show ?thesis by (auto simp: str_int_def)
qed

lemma classify_str_int:
  "opts_nondigit acts \<Longrightarrow>
   classify acts (str_int n # ss) = (case classify acts ss of Inl m \<Rightarrow> Inl m | Inr ts \<Rightarrow> Inr (TokA (str_int n) # ts))"
  by (simp add: opts_nondigit_def parse_optional_str_int str_int_not_dd split: sum.splits)

text \<open>One step of the pattern pass, for each kind of argument.\<close>

lemma classify_val:
  "s = [] \<or> hd s \<noteq> CHR ''-'' \<Longrightarrow>
   classify acts (s # ss) = (case classify acts ss of Inl m \<Rightarrow> Inl m | Inr ts \<Rightarrow> Inr (TokA s # ts))"
  by (auto simp: parse_optional_def split: sum.splits)

lemma classify_opt:
  "s \<noteq> [] \<Longrightarrow> hd s = CHR ''-'' \<Longrightarrow> s \<noteq> ''--'' \<Longrightarrow> lookup_opt acts s = Some a \<Longrightarrow>
   classify acts (s # ss) = (case classify acts ss of Inl m \<Rightarrow> Inl m | Inr ts \<Rightarrow> Inr (TokO s (Some (a, s, None)) # ts))"
  by (simp add: parse_optional_def split: sum.splits)

lemma classify_unknown:
  "s \<noteq> ''--'' \<Longrightarrow> parse_optional acts s = OptUnknown \<Longrightarrow>
   classify acts (s # ss) = (case classify acts ss of Inl m \<Rightarrow> Inl m | Inr ts \<Rightarrow> Inr (TokO s None # ts))"
  by (simp split: sum.splits)

lemma classify_plain:
  "\<forall>s\<in>set argv. s = [] \<or> hd s \<noteq> CHR ''-'' \<Longrightarrow> classify acts argv = Inr (map TokA argv)"
  by (induction argv) (simp_all add: classify_val del: classify.simps, simp)

end
