(* ===== verification/Book_Args.thy ===== *)
theory Book_Args
  imports Book_Output Py_Argparse
begin

text \<open>
  \<open>create_parser\<close> (src/main.py lines 58-79) as the configuration of an
  \<open>arg_parser\<close>, the conversion of the namespace \<open>parse_args\<close> returns into
  the \<open>args\<close> record \<open>main\<close> reads (\<open>args.count\<close>, \<open>args.authors\<close>,
  \<open>args.sale\<close>, \<open>args.output\<close> and the subcommand's options), and \<open>main\<close>
  as a whole (lines 12-27): parse \<open>argv\<close>, then \<open>main_body\<close>.
\<close>

definition authors_action :: opt_action where
  "authors_action = \<lparr>ostrings = [''-a'', ''--authors''], odest = ''authors'', otype = TInt, odefault = NInt (-1)\<rparr>"

definition sale_action :: opt_action where
  "sale_action = \<lparr>ostrings = [''-s'', ''--sale''], odest = ''sale'', otype = TInt, odefault = NInt (-1)\<rparr>"

definition json_filename_action :: opt_action where
  "json_filename_action =
     \<lparr>ostrings = [''-f'', ''--filename''], odest = ''filename'', otype = TStr, odefault = NStr ''cancer.json''\<rparr>"

definition indent_action :: opt_action where
  "indent_action = \<lparr>ostrings = [''-i'', ''--indent''], odest = ''indent'', otype = TInt, odefault = NInt 0\<rparr>"

definition json_actions :: "opt_action list" where
  "json_actions = [help_action, json_filename_action, indent_action]"

definition csv_filename_action :: opt_action where
  "csv_filename_action =
     \<lparr>ostrings = [''-f'', ''--filename''], odest = ''filename'', otype = TStr, odefault = NStr ''cancer.csv''\<rparr>"

definition v_separator_action :: opt_action where
  "v_separator_action =
     \<lparr>ostrings = [''-v'', ''--v_separator''], odest = ''v_separator'', otype = TStr, odefault = NStr '',''\<rparr>"

definition l_separator_action :: opt_action where
  "l_separator_action =
     \<lparr>ostrings = [''-l'', ''--l_separator''], odest = ''l_separator'', otype = TStr, odefault = NStr [NL]\<rparr>"

definition csv_actions :: "opt_action list" where
  "csv_actions = [help_action, csv_filename_action, v_separator_action, l_separator_action]"

definition create_parser :: arg_parser where
  "create_parser =
     \<lparr>pa_acts = [help_action, authors_action, sale_action],
      pa_pos = [(''count'', TInt)],
      pa_sdest = ''output'',
      pa_subs = [(''json'', json_actions), (''csv'', csv_actions)]\<rparr>"

subsection \<open>From the namespace to \<open>args\<close>\<close>

definition ns_int :: "namespace \<Rightarrow> string \<Rightarrow> int option" where
  "ns_int ns d = (case map_of ns d of Some (NInt n) \<Rightarrow> Some n | _ \<Rightarrow> None)"

definition ns_str :: "namespace \<Rightarrow> string \<Rightarrow> string option" where
  "ns_str ns d = (case map_of ns d of Some (NStr s) \<Rightarrow> Some s | _ \<Rightarrow> None)"

text \<open>
  The attributes \<open>main\<close> reads. \<open>args.output\<close> other than \<open>'json'\<close>
  and \<open>'csv'\<close> takes the printing branch; \<open>None\<close> stands for an attribute
  missing or of another type, which a namespace of \<open>create_parser\<close> never
  has (\<open>args_of_ns_total\<close>).
\<close>

text \<open>Lines 19-27: the branch \<open>args.output\<close> selects and the options it reads.\<close>

definition output_of_ns :: "namespace \<Rightarrow> nsval \<Rightarrow> output_cmd option" where
  "output_of_ns ns ov =
     (case ov of
        NStr sub \<Rightarrow>
          if sub = ''json'' then
            (case (ns_str ns ''filename'', ns_int ns ''indent'') of
               (Some fn, Some i) \<Rightarrow> Some (JsonOut fn i) | _ \<Rightarrow> None)
          else if sub = ''csv'' then
            (case (ns_str ns ''filename'', ns_str ns ''v_separator'', ns_str ns ''l_separator'') of
               (Some fn, Some v, Some l) \<Rightarrow> Some (CsvOut fn v l) | _ \<Rightarrow> None)
          else Some NoOutput
      | _ \<Rightarrow> Some NoOutput)"

definition args_of_ns :: "namespace \<Rightarrow> args option" where
  "args_of_ns ns =
     (case (ns_int ns ''count'', ns_int ns ''authors'', ns_int ns ''sale'', map_of ns ''output'') of
        (Some n, Some au, Some sa, Some ov) \<Rightarrow>
          map_option (\<lambda>oc. \<lparr>count = n, authors = au, sale = sa, output_arg = oc\<rparr>) (output_of_ns ns ov)
      | _ \<Rightarrow> None)"

text \<open>The type of every dest \<open>create_parser\<close> declares.\<close>

definition book_types :: "string \<Rightarrow> arg_type" where
  "book_types d = (if d \<in> set [''count'', ''authors'', ''sale'', ''indent''] then TInt else TStr)"

text \<open>
  \<open>main()\<close> on the command-line arguments \<open>argv\<close> (without the program
  name): a parse error or \<open>--help\<close> ends it with \<open>SystemExit\<close>.
\<close>

definition main :: "conf \<Rightarrow> 'f faker_api \<Rightarrow> string list \<Rightarrow> ('f world, unit) pyM" where
  "main cf fk argv =
     (case parse_args create_parser argv of
        Inl (code, msg) \<Rightarrow> raiseP (SystemExit code msg)
      | Inr ns \<Rightarrow> (case args_of_ns ns of
                    Some a \<Rightarrow> main_body cf fk a
                  | None \<Rightarrow> raiseP (Exception ''AttributeError'')))"

text \<open>
  Lines 156-157, \<open>if __name__ == '__main__': main()\<close>, as the status the
  process exits with: 0 when \<open>main\<close> returns, the code of a \<open>SystemExit\<close>
  (argparse has printed its message to standard error), and 1 for any other
  exception, which the interpreter reports with a traceback. \<open>None\<close> is a
  run that does not end.
\<close>

definition script :: "conf \<Rightarrow> 'f faker_api \<Rightarrow> string list \<Rightarrow> 'f world \<Rightarrow> (int \<times> 'f world) option" where
  "script cf fk argv w =
     map_option (\<lambda>(r, w'). (case r of Inr () \<Rightarrow> 0 | Inl (SystemExit c m) \<Rightarrow> c | Inl _ \<Rightarrow> 1, w'))
       (main cf fk argv w)"

subsection \<open>Every parse gives the attributes \<open>main\<close> reads\<close>

lemma create_parser_conf:
  "conf_ok book_types (pa_acts create_parser) (pa_pos create_parser) (pa_sdest create_parser)
     (pa_subs create_parser)"
  by (simp add: conf_ok_def acts_typed_def create_parser_def authors_action_def sale_action_def
      json_actions_def csv_actions_def help_action_def book_types_def json_filename_action_def indent_action_def
      csv_filename_action_def v_separator_action_def l_separator_action_def)

lemma init_ns_create_parser:
  "init_ns create_parser =
     [(''authors'', NInt (-1)), (''sale'', NInt (-1)), (''count'', NNone), (''output'', NNone)]"
  by (simp add: init_ns_def ns_defaults_def create_parser_def authors_action_def sale_action_def help_action_def)

lemma map_of_added:
  assumes "\<forall>(d, v)\<in>set xs. has_type (T d) v" "d \<in> fst ` set xs"
  shows "\<exists>v. map_of (xs @ ys) d = Some v \<and> has_type (T d) v"
proof -
  obtain v where "map_of xs d = Some v" using assms(2) by (cases "map_of xs d") (auto simp: map_of_eq_None_iff)
  moreover have "(d, v) \<in> set xs" if "map_of xs d = Some v" using that by (rule map_of_SomeD)
  ultimately show ?thesis using assms(1) by auto
qed

lemma map_of_not_added: "d \<notin> fst ` set xs \<Longrightarrow> map_of (xs @ ys) d = map_of ys d"
  by (simp add: map_add_def map_of_eq_None_iff [THEN iffD2] split: option.splits)

lemma ns_int_added:
  "\<forall>(d, v)\<in>set xs. has_type (T d) v \<Longrightarrow> T d = TInt \<Longrightarrow>
   d \<in> fst ` set xs \<or> (\<exists>n. map_of ys d = Some (NInt n)) \<Longrightarrow> \<exists>n. ns_int (xs @ ys) d = Some n"
proof (cases "d \<in> fst ` set xs")
  case True
  assume ty: "\<forall>(d, v)\<in>set xs. has_type (T d) v" and t: "T d = TInt"
  obtain v where "map_of (xs @ ys) d = Some v" "has_type (T d) v"
    using map_of_added [OF ty True] by blast
  then show ?thesis using t by (cases v) (simp_all add: ns_int_def)
qed (auto simp: ns_int_def map_of_not_added simp del: map_of_append)

lemma ns_str_added:
  "\<forall>(d, v)\<in>set xs. has_type (T d) v \<Longrightarrow> T d = TStr \<Longrightarrow>
   d \<in> fst ` set xs \<or> (\<exists>s. map_of ys d = Some (NStr s)) \<Longrightarrow> \<exists>s. ns_str (xs @ ys) d = Some s"
proof (cases "d \<in> fst ` set xs")
  case True
  assume ty: "\<forall>(d, v)\<in>set xs. has_type (T d) v" and t: "T d = TStr"
  obtain v where "map_of (xs @ ys) d = Some v" "has_type (T d) v"
    using map_of_added [OF ty True] by blast
  then show ?thesis using t by (cases v) (simp_all add: ns_str_def)
qed (auto simp: ns_str_def map_of_not_added simp del: map_of_append)

text \<open>The subcommand's options are set whenever a subcommand ran.\<close>

lemma output_of_ns_total:
  assumes ns: "ns = xs @ init_ns create_parser" and ty: "\<forall>(d, v)\<in>set xs. has_type (book_types d) v"
    and out: "''output'' \<notin> fst ` set xs \<or>
        (\<exists>name sacts. map_of xs ''output'' = Some (NStr name) \<and> map_of (pa_subs create_parser) name = Some sacts \<and>
           odest ` set (filter (\<lambda>a. otype a \<noteq> THelp) sacts) \<subseteq> fst ` set xs)"
  shows "\<exists>ov oc. map_of ns ''output'' = Some ov \<and> output_of_ns ns ov = Some oc"
  using out
proof
  assume "''output'' \<notin> fst ` set xs"
  then have "map_of ns ''output'' = Some NNone" unfolding ns
    by (simp add: map_of_not_added init_ns_create_parser del: map_of_append)
  then show ?thesis by (simp add: output_of_ns_def)
next
  assume "\<exists>name sacts. map_of xs ''output'' = Some (NStr name) \<and> map_of (pa_subs create_parser) name = Some sacts \<and>
            odest ` set (filter (\<lambda>a. otype a \<noteq> THelp) sacts) \<subseteq> fst ` set xs"
  then obtain name sacts where o: "map_of xs ''output'' = Some (NStr name)"
    and sub: "map_of (pa_subs create_parser) name = Some sacts"
    and k: "odest ` set (filter (\<lambda>a. otype a \<noteq> THelp) sacts) \<subseteq> fst ` set xs" by blast
  have mo: "map_of ns ''output'' = Some (NStr name)" using o unfolding ns by simp
  have "name = ''json'' \<and> sacts = json_actions \<or> name = ''csv'' \<and> sacts = csv_actions"
    using sub by (auto simp: create_parser_def split: if_splits)
  then show ?thesis
  proof
    assume j: "name = ''json'' \<and> sacts = json_actions"
    then have "''filename'' \<in> fst ` set xs" "''indent'' \<in> fst ` set xs"
      using k by (auto simp: json_actions_def help_action_def json_filename_action_def indent_action_def)
    then obtain fn i where "ns_str ns ''filename'' = Some fn" "ns_int ns ''indent'' = Some i"
      using ns_str_added [OF ty, of "''filename''" "init_ns create_parser"]
        ns_int_added [OF ty, of "''indent''" "init_ns create_parser"] unfolding ns
      by (auto simp: book_types_def)
    with mo j show ?thesis by (simp add: output_of_ns_def)
  next
    assume j: "name = ''csv'' \<and> sacts = csv_actions"
    then have "''filename'' \<in> fst ` set xs" "''v_separator'' \<in> fst ` set xs" "''l_separator'' \<in> fst ` set xs"
      using k by (auto simp: csv_actions_def help_action_def csv_filename_action_def v_separator_action_def
        l_separator_action_def)
    then obtain fn v l where "ns_str ns ''filename'' = Some fn" "ns_str ns ''v_separator'' = Some v"
        "ns_str ns ''l_separator'' = Some l"
      using ns_str_added [OF ty, of "''filename''" "init_ns create_parser"]
        ns_str_added [OF ty, of "''v_separator''" "init_ns create_parser"]
        ns_str_added [OF ty, of "''l_separator''" "init_ns create_parser"] unfolding ns
      by (auto simp: book_types_def)
    with mo j show ?thesis by (simp add: output_of_ns_def)
  qed
qed

lemma args_of_ns_total:
  "parse_args create_parser argv = Inr ns \<Longrightarrow> \<exists>a. args_of_ns ns = Some a"
proof -
  assume "parse_args create_parser argv = Inr ns"
  then obtain xs where ns: "ns = xs @ init_ns create_parser"
    and ok: "added_ok book_types (pa_acts create_parser) (pa_pos create_parser) (pa_sdest create_parser)
               (pa_subs create_parser) xs"
    using parse_args_added [OF create_parser_conf] by blast
  note ty = added_okD(1) [OF ok]
  have "''count'' \<in> fst ` set xs" using added_okD(2) [OF ok] by (simp add: create_parser_def)
  then obtain n where "ns_int ns ''count'' = Some n"
    using ns_int_added [OF ty, of "''count''" "init_ns create_parser"] unfolding ns
    by (auto simp: book_types_def)
  moreover obtain au where "ns_int ns ''authors'' = Some au"
    using ns_int_added [OF ty, of "''authors''" "init_ns create_parser"] unfolding ns
    by (auto simp: book_types_def init_ns_create_parser)
  moreover obtain sa where "ns_int ns ''sale'' = Some sa"
    using ns_int_added [OF ty, of "''sale''" "init_ns create_parser"] unfolding ns
    by (auto simp: book_types_def init_ns_create_parser)
  moreover have "''output'' \<notin> fst ` set xs \<or>
        (\<exists>name sacts. map_of xs ''output'' = Some (NStr name) \<and> map_of (pa_subs create_parser) name = Some sacts \<and>
           odest ` set (filter (\<lambda>a. otype a \<noteq> THelp) sacts) \<subseteq> fst ` set xs)"
    using added_okD(4) [OF ok] by (simp add: create_parser_def)
  then obtain ov oc where "map_of ns ''output'' = Some ov" "output_of_ns ns ov = Some oc"
    using output_of_ns_total [OF ns ty] by blast
  ultimately show ?thesis by (simp add: args_of_ns_def output_of_ns_def)
qed

subsection \<open>Evaluating the parser on an argument list\<close>

lemmas book_parser_defs = create_parser_def authors_action_def sale_action_def help_action_def
  json_actions_def csv_actions_def json_filename_action_def indent_action_def csv_filename_action_def
  v_separator_action_def l_separator_action_def

lemma book_opts_nondigit:
  "opts_nondigit (pa_acts create_parser)" "opts_nondigit json_actions" "opts_nondigit csv_actions"
  by (simp_all add: opts_nondigit_def book_parser_defs is_digit_def decimal_digits_def)

lemma main_parsed_eq:
  "parse_args create_parser argv = Inr ns \<Longrightarrow> args_of_ns ns = Some a \<Longrightarrow> main cf fk argv = main_body cf fk a"
  by (simp add: main_def)

lemma parse_args_run:
  "classify (pa_acts create_parser) argv = Inr ts \<Longrightarrow>
   argloop (pa_acts create_parser) (pa_pos create_parser) (pa_sdest create_parser) (pa_subs create_parser) ts
     (init_ns create_parser) [] = Inr (ns, []) \<Longrightarrow>
   parse_args create_parser argv = Inr ns"
  by (simp add: parse_args_def)

lemma lookup_book:
  "lookup_opt json_actions ''-f'' = Some json_filename_action"
  "lookup_opt json_actions ''-i'' = Some indent_action"
  "lookup_opt (pa_acts create_parser) ''-h'' = Some help_action"
  "lookup_opt (pa_acts create_parser) ''-a'' = Some authors_action"
  "lookup_opt (pa_acts create_parser) ''-s'' = Some sale_action"
  by (simp_all add: lookup_opt_def book_parser_defs)

lemma unknown_book:
  "parse_optional (pa_acts create_parser) ''-f'' = OptUnknown"
  "parse_optional (pa_acts create_parser) ''-i'' = OptUnknown"
  "parse_optional json_actions ''-a'' = OptUnknown"
  by (simp_all add: parse_optional_def book_parser_defs lookup_opt_def option_tuples_def is_neg_number_def
      is_digit_def decimal_digits_def)

text \<open>\<open>main.py N\<close>: the count alone, every other attribute at its default.\<close>

lemma parse_args_str_int:
  "parse_args create_parser [str_int n] = Inr ((''count'', NInt n) # init_ns create_parser)"
proof (rule parse_args_run)
  show "classify (pa_acts create_parser) [str_int n] = Inr [TokA (str_int n)]"
    using classify_str_int [OF book_opts_nondigit(1), of n "[]"] by simp
  show "argloop (pa_acts create_parser) (pa_pos create_parser) (pa_sdest create_parser) (pa_subs create_parser)
          [TokA (str_int n)] (init_ns create_parser) [] = Inr ((''count'', NInt n) # init_ns create_parser, [])"
    by (simp add: create_parser_def convert_val_def py_int_str_int)
qed

text \<open>The scenario of spec.md, section 8: \<open>2 -a 1 -s 50 json -f out.json -i 2\<close>.\<close>

lemma main_scenario_eq:
  "main cf fk [''2'', ''-a'', ''1'', ''-s'', ''50'', ''json'', ''-f'', ''out.json'', ''-i'', ''2''] =
   main_body cf fk \<lparr>count = 2, authors = 1, sale = 50, output_arg = JsonOut ''out.json'' 2\<rparr>"
proof (rule main_parsed_eq)
  let ?ts = "[TokA ''2'', TokO ''-a'' (Some (authors_action, ''-a'', None)), TokA ''1'',
              TokO ''-s'' (Some (sale_action, ''-s'', None)), TokA ''50'', TokA ''json'', TokO ''-f'' None,
              TokA ''out.json'', TokO ''-i'' None, TokA ''2'']"
  have cl: "classify (pa_acts create_parser)
              [''2'', ''-a'', ''1'', ''-s'', ''50'', ''json'', ''-f'', ''out.json'', ''-i'', ''2''] = Inr ?ts"
    by (simp add: classify_val classify_opt classify_unknown lookup_book unknown_book del: classify.simps)
       (simp add: classify.simps)
  let ?sts = "[TokO ''-f'' (Some (json_filename_action, ''-f'', None)), TokA ''out.json'',
               TokO ''-i'' (Some (indent_action, ''-i'', None)), TokA ''2'']"
  have scl: "classify json_actions [''-f'', ''out.json'', ''-i'', ''2''] = Inr ?sts"
    by (simp add: classify_val classify_opt lookup_book del: classify.simps) (simp add: classify.simps)
  let ?ns = "(''indent'', NInt 2) # (''filename'', NStr ''out.json'') # ns_defaults json_actions @
             (''output'', NStr ''json'') # (''sale'', NInt 50) # (''authors'', NInt 1) # (''count'', NInt 2) #
             init_ns create_parser"
  have "argloop (pa_acts create_parser) (pa_pos create_parser) (pa_sdest create_parser) (pa_subs create_parser)
          ?ts (init_ns create_parser) [] = Inr (?ns, [])"
    using scl by (simp add: create_parser_def authors_action_def sale_action_def convert_val_def tok_str_def
      py_int_def py_strip_def py_isspace_def is_digit_def decimal_digits_def digits_val_def Let_def
      json_filename_action_def indent_action_def opt_name_def del: classify.simps)
  with cl show "parse_args create_parser [''2'', ''-a'', ''1'', ''-s'', ''50'', ''json'', ''-f'', ''out.json'', ''-i'', ''2''] = Inr ?ns"
    by (rule parse_args_run)
  show "args_of_ns ?ns = Some \<lparr>count = 2, authors = 1, sale = 50, output_arg = JsonOut ''out.json'' 2\<rparr>"
    by (simp add: args_of_ns_def output_of_ns_def ns_int_def ns_str_def init_ns_create_parser ns_defaults_def json_actions_def
      help_action_def json_filename_action_def indent_action_def)
qed

subsection \<open>The exit status\<close>

lemma script_parse_error:
  "parse_args create_parser argv = Inl (c, m) \<Longrightarrow> script cf fk argv w = Some (c, w)"
  by (simp add: script_def main_def raiseP_def)

lemma script_parsed:
  "parse_args create_parser argv = Inr ns \<Longrightarrow> args_of_ns ns = Some a \<Longrightarrow>
   script cf fk argv w =
     map_option (\<lambda>(r, w'). (case r of Inr () \<Rightarrow> 0 | Inl (SystemExit c m) \<Rightarrow> c | Inl _ \<Rightarrow> 1, w'))
       (main_body cf fk a w)"
  by (simp add: script_def main_parsed_eq)

end
