(* ===== verification/Book_Names.thy ===== *)
theory Book_Names
  imports Py_Text
begin

text \<open>
  \<open>check_name_file\<close> (src/main.py lines 95-104), which no other function
  calls. It checks every line against
  \<open>re.fullmatch("[A-Z??-??][a-z??-??]+? [A-Z??-??][a-z??-??]+", line)\<close> and
  raises \<open>Exception(ValueError)\<close> at the first line that does not match. The
  source file holds the byte \<open>?\<close> (0x3F) in each class where a range of
  Cyrillic letters was evidently meant, so each class is the ASCII range plus the
  question mark: \<open>[A-Z??-??]\<close> is \<open>A-Z\<close> and \<open>?\<close>, \<open>[a-z??-??]\<close> is
  \<open>a-z\<close> and \<open>?\<close>. The lazy \<open>+?\<close> does not change what a full match accepts.
\<close>

definition name_upper :: "char \<Rightarrow> bool" where
  "name_upper c \<longleftrightarrow> (let n = of_char c :: nat in (65 \<le> n \<and> n \<le> 90) \<or> n = 63)"

definition name_lower :: "char \<Rightarrow> bool" where
  "name_lower c \<longleftrightarrow> (let n = of_char c :: nat in (97 \<le> n \<and> n \<le> 122) \<or> n = 63)"

text \<open>
  A full match of \<open>U L+ U L+\<close> with one space in the middle; the first run of
  \<open>L\<close> is the longest one because a space is not in \<open>L\<close>.
\<close>

definition name_ok :: "string \<Rightarrow> bool" where
  "name_ok line =
     (case line of
        [] \<Rightarrow> False
      | u # r \<Rightarrow>
          name_upper u \<and> takeWhile name_lower r \<noteq> [] \<and>
          (case dropWhile name_lower r of
             c # u2 # r2 \<Rightarrow> c = CHR '' '' \<and> name_upper u2 \<and> r2 \<noteq> [] \<and> list_all name_lower r2
           | _ \<Rightarrow> False))"

text \<open>\<open>str(ValueError)\<close>, the argument of the exception.\<close>

definition name_error :: pyerror where
  "name_error = Exception ''<class 'ValueError'>''"

fun check_name_file :: "string list \<Rightarrow> ('w, unit) pyM" where
  "check_name_file [] = returnP ()"
| "check_name_file (line # name_list) =
     (if \<not> name_ok line then raiseP name_error else check_name_file name_list)"

subsection \<open>Properties\<close>

text \<open>A matching line ends in a lower-case letter (or \<open>?\<close>).\<close>

lemma name_ok_last: "name_ok l \<Longrightarrow> name_lower (last l)"
proof -
  assume ok: "name_ok l"
  then obtain u r where l: "l = u # r" by (cases l) (simp_all add: name_ok_def)
  from ok obtain c u2 r2 where d: "dropWhile name_lower r = c # u2 # r2" and ne: "r2 \<noteq> []"
    and low: "list_all name_lower r2"
    by (auto simp: name_ok_def l split: list.splits)
  have "r = takeWhile name_lower r @ c # u2 # r2" using takeWhile_dropWhile_id [of name_lower r] d by simp
  then have "last l = last r2" using l ne by (metis append_is_Nil_conv last_ConsR last_appendR list.distinct(1))
  with ne low show ?thesis by (simp add: list_all_iff)
qed

lemma name_lower_NL: "\<not> name_lower NL"
  by (simp add: name_lower_def NL_def)

text \<open>The question mark is a letter of both classes, the space of neither.\<close>

lemma name_lower_qmark: "name_lower CHR ''?''" and name_upper_qmark: "name_upper CHR ''?''"
  and name_lower_space: "\<not> name_lower CHR '' ''" and name_upper_space: "\<not> name_upper CHR '' ''"
  by (simp_all add: name_lower_def name_upper_def)

text \<open>Which lines made of question marks and one space match.\<close>

lemma name_ok_qmarks:
  "name_ok (replicate m CHR ''?'' @ CHR '' '' # replicate n CHR ''?'') \<longleftrightarrow> 2 \<le> m \<and> 2 \<le> n"
proof (cases m)
  case 0
  then show ?thesis by (simp add: name_ok_def name_upper_space)
next
  case (Suc k)
  have tw: "takeWhile name_lower (replicate k CHR ''?'' @ CHR '' '' # replicate n CHR ''?'') = replicate k CHR ''?''"
    and dw: "dropWhile name_lower (replicate k CHR ''?'' @ CHR '' '' # replicate n CHR ''?'') = CHR '' '' # replicate n CHR ''?''"
    by (simp_all add: takeWhile_append dropWhile_append name_lower_qmark name_lower_space)
  have "name_ok (replicate m CHR ''?'' @ CHR '' '' # replicate n CHR ''?'') \<longleftrightarrow>
        k \<noteq> 0 \<and> (case replicate n CHR ''?'' of u2 # r2 \<Rightarrow> r2 \<noteq> [] | [] \<Rightarrow> False)"
    using Suc by (auto simp: name_ok_def tw dw name_upper_qmark name_lower_qmark list_all_iff eq_commute [of "replicate n _"]
        Cons_replicate_eq split: list.split)
  then show ?thesis using Suc by (cases n) auto
qed

end
