(* ===== verification/Book_Spec.thy ===== *)
theory Book_Spec
  imports Book_Output
begin

text \<open>
  The book records as the specification describes them (spec.md, sections 3
  and 8), stated on the Python values the program writes, independently of how
  they are drawn: \<open>spec_book\<close> is one record with its \<open>pk\<close>, \<open>spec_output\<close>
  the list of \<open>count\<close> records with \<open>pk\<close> 1 to \<open>count\<close>. The price bound is
  the closed interval \<open>[0, 500]\<close>: the specification's \<open>[0, 500)\<close> is not met
  by the code, which can round up to \<open>500.0\<close>. The refinement lemma
  \<open>generate_books_spec\<close> says that what the generator produces, as the values
  \<open>to_json\<close> dumps, meets this specification.
\<close>

fun is_str :: "pyval \<Rightarrow> bool" where
  "is_str (PyStr _) = True"
| "is_str _ = False"

fun int_in :: "int \<Rightarrow> int \<Rightarrow> pyval \<Rightarrow> bool" where
  "int_in lo hi (PyInt n) \<longleftrightarrow> lo \<le> n \<and> n \<le> hi"
| "int_in lo hi _ \<longleftrightarrow> False"

text \<open>
  Section 3's \<open>fields\<close>, with the overrides of section 8: the author count is
  the \<open>--authors\<close> value and the discount the \<open>--sale\<close> value when given.
\<close>

definition spec_fields :: "args \<Rightarrow> (string \<times> pyval) list \<Rightarrow> bool" where
  "spec_fields a kvs \<longleftrightarrow>
     map fst kvs = [''title'', ''year'', ''pages'', ''isbn13'', ''rating'', ''price'', ''discount'', ''author''] \<and>
     (let v = (\<lambda>k. the (map_of kvs k)) in
      is_str (v ''title'') \<and> int_in 1800 2020 (v ''year'') \<and> int_in 100 500 (v ''pages'') \<and>
      is_str (v ''isbn13'') \<and> int_in 0 5 (v ''rating'') \<and>
      (case v ''price'' of PyFloat2 c \<Rightarrow> 0 \<le> c \<and> c \<le> 50000 | _ \<Rightarrow> False) \<and>
      (if sale a = -1 then int_in 0 100 (v ''discount'') else v ''discount'' = PyInt (sale a)) \<and>
      (case v ''author'' of
         PyList ns \<Rightarrow> list_all is_str ns \<and>
           (if authors a = -1 then 1 \<le> length ns \<and> length ns \<le> 3 else length ns = nat (authors a))
       | _ \<Rightarrow> False))"

definition spec_book :: "conf \<Rightarrow> args \<Rightarrow> int \<Rightarrow> pyval \<Rightarrow> bool" where
  "spec_book cf a i v \<longleftrightarrow>
     (case v of
        PyDict [(k1, PyStr m), (k2, PyInt p), (k3, PyDict fs)] \<Rightarrow>
          [k1, k2, k3] = [''model'', ''pk'', ''fields''] \<and> m = MODEL cf \<and> p = i \<and> spec_fields a fs
      | _ \<Rightarrow> False)"

text \<open>The whole output: \<open>count\<close> records, numbered from 1 (none for a count below 1).\<close>

definition spec_output :: "conf \<Rightarrow> args \<Rightarrow> pyval \<Rightarrow> bool" where
  "spec_output cf a v \<longleftrightarrow>
     (case v of PyList vs \<Rightarrow> list_all2 (spec_book cf a) [1 .. count a] vs | _ \<Rightarrow> False)"

subsection \<open>The generator meets the specification\<close>

lemma book_val_spec:
  "model b = MODEL cf \<Longrightarrow> fields_in_range a (bfields b) \<Longrightarrow> spec_book cf a (pk b) (book_val b)"
  by (simp add: spec_book_def book_val_def book_items_def fields_items_def spec_fields_def
      fields_in_range_def list_all_iff split: if_splits)

lemma generate_books_spec:
  "generate_books cf fk a w = Some (Inr bs, w') \<Longrightarrow> spec_output cf a (PyList (map book_val bs))"
proof -
  assume "generate_books cf fk a w = Some (Inr bs, w')"
  then have pk: "map pk bs = [1 .. count a]"
    and ok: "\<forall>b\<in>set bs. model b = MODEL cf \<and> fields_in_range a (bfields b)"
    using generate_books_Inr by blast+
  have "list_all2 (spec_book cf a) (map pk bs) (map book_val bs)"
    using ok by (simp add: list_all2_map1 list_all2_map2 list_all2_same book_val_spec)
  then show ?thesis by (simp add: spec_output_def pk)
qed

text \<open>What the \<open>json\<close> branch of \<open>main\<close> leaves in the file it names.\<close>

lemma main_body_json_written:
  "main_body cf fk a w = Some (Inr (), w') \<Longrightarrow> output_arg a = JsonOut fn dent \<Longrightarrow>
   \<exists>bs w1. generate_books cf fk a w = Some (Inr bs, w1) \<and> files w' fn = Some (json_dumps dent (PyList (map book_val bs)))"
proof -
  assume run: "main_body cf fk a w = Some (Inr (), w')" and out: "output_arg a = JsonOut fn dent"
  from run obtain bs w1 where gen: "generate_books cf fk a w = Some (Inr bs, w1)"
    and mo: "main_output a bs w1 = Some (Inr (), w')" by (auto simp: main_body_Inr)
  from main_output_json_Inr [OF out mo] have "fn \<noteq> []" .
  with mo out have "files w' fn = Some (json_dumps dent (PyList (map book_val bs)))"
    by (auto simp: main_output_json)
  with gen show ?thesis by blast
qed

end
