(* ===== verification/Spec2Isabelle.thy ===== *)
theory Spec2Isabelle
  imports Book_Args Book_Names Book_Spec
begin

text \<open>
  \<^bold>\<open>A verified model of the fake-book generator (src/main.py).\<close>

  \<^bold>\<open>The program.\<close> \<open>main\<close> parses the command line (\<open>create_parser\<close>),
  creates the generator \<open>generate_book(args)\<close>, pulls \<open>count\<close> books from it
  with \<open>next\<close>, and prints them or writes them with \<open>to_json\<close> or
  \<open>to_csv\<close>. Each book is drawn by the loop body of the generator: the
  author count and the discount (the argument, or \<open>random.randint\<close> when it
  is the sentinel \<open>-1\<close>), \<open>pk\<close> counted up, a title from
  \<open>fetch_title\<close>, \<open>randint\<close> draws for year, pages and rating, an ISBN
  from Faker, \<open>round(random()*500, 2)\<close> for the price, and the authors from
  \<open>fetch_authors\<close>. Both fetch functions reopen their list file (named by the
  configuration module \<open>conf\<close>) on every call and pick a line at
  \<open>random.randrange(len(list))\<close>.

  \<^bold>\<open>The theories.\<close>
  \<^item> \<open>Py_Prelude\<close>: Python exceptions (\<open>pyerror\<close>), the world record
    (Mersenne Twister outputs \<open>mt\<close>, Faker state, file system, standard
    output), the exception-state monad \<open>bindP\<close>/\<open>returnP\<close>/\<open>raiseP\<close>
    with \<open>None\<close> for an action that does not return, list indexing
    \<open>py_getitem\<close>, \<open>str\<close> of integers, and \<open>keeps_io\<close> (no file or
    output effect) with its closure rules \<open>io_frame\<close>.
  \<^item> \<open>Py_Random\<close>: the CPython \<open>random\<close> functions the program calls,
    over the stream of 32-bit outputs: \<open>getrandbits\<close>, the rejection loop of
    \<open>_randbelow\<close> (a \<open>partial_function (option)\<close>), \<open>randrange\<close>,
    \<open>randint\<close>, \<open>random\<close> (\<open>py_random\<close>, the numerator over
    \<open>2^53\<close>). Lemmas: ranges, only words are consumed (\<open>draws\<close>),
    termination on a fair stream (\<open>mt_fair\<close>: words with a clear top bit
    keep coming), evaluation on the all-zero stream.
  \<^item> \<open>Py_Text\<close>: \<open>open\<close> for reading with universal newlines,
    \<open>readlines\<close>, \<open>str.strip\<close>; lemmas: \<open>readlines\<close> loses nothing, the
    shape of its lines, what stripping leaves.
  \<^item> \<open>Book_Fetch\<close>: \<open>fetch_title\<close> (lines 82-92), \<open>fetch_authors\<close>
    (lines 107-121) and the configuration record \<open>conf\<close>; their results, their
    errors (missing file, empty file) and their termination.
  \<^item> \<open>Book_Generator\<close>: the arguments (\<open>args\<close>, lines 58-79), the book
    record (lines 137-151), the Faker interface \<open>faker_api\<close>, the price
    \<open>price_cents\<close> (line 143, IEEE product and rounding written out), one pass of
    the loop \<open>gen_body\<close> (lines 134-153), the generator object as the state
    machine \<open>gen_next\<close>/\<open>gen_step\<close>/\<open>gen_reach\<close>, and \<open>main\<close>'s
    collection loop \<open>collect_books\<close>/\<open>generate_books\<close> (lines 15-18).
  \<^item> \<open>Py_Value\<close>: the Python values a book is made of (\<open>pyval\<close>: int, the
    price float as its hundredths, str, list, dict as an association list),
    \<open>repr\<close>/\<open>str\<close> as CPython writes them (quote choice, escapes,
    \<open>float.__repr__\<close> of hundredths), \<open>print\<close>, \<open>open(path, 'w')\<close> and
    \<open>write\<close> (\<open>set_file\<close> names the updated file system). Lemma: \<open>repr\<close>
    never holds a newline, so each printed book is one line.
  \<^item> \<open>Py_Json\<close>: \<open>json.dump(obj, indent=dent, ensure_ascii=False)\<close>
    (\<open>json_enc\<close>, \<open>json_dumps\<close>) and, as its abstract specification, a JSON
    reader \<open>json_loads\<close> bounded by fuel (type \<open>fuel\<close>, the input's length).
    Lemmas: strings, numbers, lists and dicts read back after any whitespace
    (\<open>json_value_enc\<close>), the encoding is long enough to pay the fuel
    (\<open>val_size_le_length\<close>), hence \<open>json_loads (json_dumps dent v) = Some v\<close>.
  \<^item> \<open>Py_Csv\<close>: \<open>csv.writer\<close> with \<open>QUOTE_MINIMAL\<close>: the one-character
    delimiter check and \<open>writerow\<close>'s quoting; and, as its specification,
    \<open>csv.reader\<close> (\<open>csv_reader\<close>: the parser state machine of CPython
    3.11's \<open>_csv.c\<close> over the lines of the file, field size limit
    included). Lemma: every row written with the terminator \<open>\n\<close> whose
    fields are one line within the limit reads back unchanged
    (\<open>csv_reader_rows\<close>), for any delimiter other than the quote and the
    line breaks.
  \<^item> \<open>Book_Output\<close>: the book dict (\<open>fields_items\<close>, \<open>book_items\<close>,
    \<open>book_val\<close>, lines 137-151), \<open>to_json\<close> (lines 46-55), \<open>to_csv\<close> with
    its two loops (lines 30-43), the print loop and output dispatch
    (\<open>print_books\<close>, \<open>main_output\<close>, lines 19-27) and \<open>main_body\<close>, i.e.
    \<open>main\<close> after argument parsing (lines 15-27); lemmas giving the world after
    each output branch.
  \<^item> \<open>Py_Argparse\<close>: the part of CPython 3.11's \<open>argparse\<close> the
    parser uses, and \<open>int(str)\<close> (\<open>py_int\<close>). The pattern pass
    \<open>classify\<close> (\<open>_parse_optional\<close>: exact options, \<open>--opt=value\<close>,
    unique long prefixes, \<open>-xVALUE\<close>, negative numbers), then the consuming
    loop \<open>argloop\<close>/\<open>argpos\<close> (a mutual \<open>function\<close> with its
    termination proof) over options, positionals and the subparsers action,
    and \<open>parse_args\<close> with its \<open>unrecognized arguments\<close> check. Lemmas:
    a typing invariant proved by mutual induction (\<open>argloop_added\<close>: what a
    run adds to the namespace has the declared types, covers every positional
    and the chosen subcommand's options), \<open>int(str(n)) = n\<close>, and the
    classification of values, known and unknown options.
  \<^item> \<open>Book_Args\<close>: \<open>create_parser\<close> (lines 58-79) as an
    \<open>arg_parser\<close> value, one definition per \<open>add_argument\<close>;
    \<open>args_of_ns\<close>, the attributes \<open>main\<close> reads; and \<open>main\<close> itself
    (lines 12-27): \<open>parse_args\<close>, then \<open>main_body\<close>; \<open>script\<close>, the
    exit status of \<open>python main.py ...\<close> (lines 156-157: 0, the code of
    \<open>SystemExit\<close>, or 1 for an escaping exception). Lemmas: every accepted
    command line converts (\<open>args_of_ns_total\<close>), a parse error exits with
    argparse's code (\<open>script_parse_error\<close>).
  \<^item> \<open>Book_Spec\<close>: the abstract specification of a run (spec.md
    sections 3 and 8) on the Python values written: \<open>spec_book\<close>,
    \<open>spec_output\<close> (\<open>count\<close> records numbered from 1, fields in range,
    overrides honoured); refinement lemma \<open>generate_books_spec\<close>: the
    generated books, as the values \<open>to_json\<close> dumps, meet it.
  \<^item> \<open>Book_Names\<close>: the unused \<open>check_name_file\<close> (lines 95-104) with its
    regular expression as the source file spells it.
  \<^item> This theory: the properties of the whole program and their witnesses,
    evaluated on the example world \<open>example_world\<close> (all-zero random stream,
    two-line list files).

  \<^bold>\<open>The properties.\<close> C1-C12: generation through \<open>main\<close>'s loop (keys,
  termination, field ranges, the price bound and its attained maximum 500.0,
  author count and discount with and without overrides, seeded ISBNs, no I/O,
  error runs, empty count). C13-C16: the list-file readers (a title is a line,
  reading titles loses only newlines, author counts, the empty authors file).
  C17: the generator object's state machine (every book it yields carries the
  count of books before it plus one). C18-C19: JSON output (round trip through
  \<open>json.loads\<close>, indent 0 is not compact). C20-C22, C24: CSV output (three
  rows per book, the quoted fields row, the bad separator that leaves an empty
  file, the row loop against the reference rendering \<open>csv_text\<close>). C23: the
  print branch writes one line per book. C25-C27: \<open>check_name_file\<close> (its
  closed form, the literal \<open>?\<close> letters, raw lines never match). C28-C35:
  \<open>main\<close> on the command line (every accepted one runs the generator with
  well-typed arguments, \<open>main.py N\<close> for every integer, \<open>-a\<close>/\<open>-s\<close>
  passed through, the invalid count, \<open>-h\<close>, the specification's scenario,
  the invalid subcommand, options after the subcommand). C36: the JSON output
  refines the specification: what \<open>main\<close> writes reads back as records
  meeting \<open>spec_output\<close>. C37 (liveness): while the list files read and
  the random stream is fair (\<open>sources_ok\<close>), the generator is never stuck:
  after any number of books it is in a reachable state from which \<open>next\<close>
  yields another book, proved by induction on the number of books from
  \<open>gen_next_ends\<close> (one \<open>next\<close> returns a book and keeps
  \<open>sources_ok\<close>). C38: the CSV output reads back with \<open>csv.reader\<close> as the
  rows written, the quoted \<open>fields\<close> row included.

  \<^bold>\<open>Modelling choices.\<close> A Python \<open>str\<close> is a \<open>string\<close> whose characters
  are the code points U+0000 to U+00FF; text outside that range is not modelled.
  Python integers are \<open>int\<close>. The Mersenne Twister's outputs are an arbitrary
  stream: no property depends on how they are produced, and termination is
  proved for every stream in which a word below \<open>2^31\<close> keeps coming
  (\<open>mt_fair\<close>), with list files of fewer than \<open>2^32\<close> lines, for which
  every draw takes one word. The price float is kept as its hundredths: the
  product \<open>random() * 500\<close> is rounded to 53 bits and then to two decimals
  with ties to even, as CPython does; \<open>repr\<close> of such a float is its decimal
  text, exact below \<open>10^15\<close>. Faker is an interface: a seed state and an
  \<open>isbn13\<close> step; no property depends on the ISBNs' text. The file system is a
  flat map from paths to text; opening for writing fails only on the empty
  path, and \<open>\n\<close> is written unchanged (POSIX). The CSV writer quotes on the
  delimiter, the quote and the line terminator's characters (CPython up to
  3.11; later versions also quote on \<open>\r\<close> and \<open>\n\<close>, which no book
  field written by \<open>repr\<close> holds).

  \<^bold>\<open>Not modelled.\<close> The usage and help texts argparse prints (a parse
  error and \<open>--help\<close> are modelled by their exit status and error message
  only): they are text for a human reader, and no property of the program
  depends on them. The argparse features the parser does not use (append and
  count actions, \<open>nargs\<close> other than one value,
  \<open>fromfile_prefix_chars\<close>), which
  is why the argparse component is marked partly modelled. Faker's ISBN text and
  its other providers: the program only calls \<open>Faker.seed(0)\<close> and
  \<open>isbn13\<close>, and nothing it does depends on the text, so Faker is an
  interface (partly modelled). The Mersenne Twister's state update: its outputs
  are an arbitrary stream, and the fairness assumption \<open>mt_fair\<close> is all
  termination needs.
\<close>

section \<open>Example data\<close>

definition example_conf :: conf where
  "example_conf = \<lparr>BOOK_TITLES = ''titles.txt'', AUTHORS = ''authors.txt'', MODEL = ''shop.book''\<rparr>"

definition example_faker :: "nat faker_api" where
  "example_faker = \<lparr>seed0 = 0, isbn13_gen = (\<lambda>n. (''978-0-00-000000-'' @ str_nat n, Suc n))\<rparr>"

definition example_world :: "nat world" where
  "example_world =
     \<lparr>mt = sconst 0, faker = 7,
      files = [''titles.txt'' \<mapsto> ''Dune\<newline>Emma\<newline>'', ''authors.txt'' \<mapsto> '' Ann Lee \<newline>Bo Li\<newline>''],
      stdout = []\<rparr>"

definition example_args :: "int \<Rightarrow> int \<Rightarrow> int \<Rightarrow> args" where
  "example_args n a s = \<lparr>count = n, authors = a, sale = s, output_arg = NoOutput\<rparr>"

section \<open>Evaluation of the examples\<close>

lemma example_titles: "titles_of (translate_newlines ''Dune\<newline>Emma\<newline>'') = [''Dune'', ''Emma'']"
  by (simp add: titles_of_def readlines_def translate_newlines_def strip_chars_def NL_def CR_def)

lemma example_names: "names_of (translate_newlines '' Ann Lee \<newline>Bo Li\<newline>'') = [''Ann Lee'', ''Bo Li'']"
  by (simp add: names_of_def readlines_def translate_newlines_def py_strip_def py_isspace_def NL_def CR_def)

definition example_book :: "int \<Rightarrow> string \<Rightarrow> int \<Rightarrow> int \<Rightarrow> book" where
  "example_book n isbn s k =
     \<lparr>model = ''shop.book'', pk = n,
      bfields = \<lparr>title = ''Dune'', year = 1800, pages = 100, isbn13 = isbn, rating = 0, price = 0,
                 discount = s, author = replicate (nat k) ''Ann Lee''\<rparr>\<rparr>"

lemma example_body:
  assumes "mt w = sconst 0" "files w = files example_world"
  shows "gen_body example_conf fk a n w =
    Some (Inr (example_book (n + 1) (fst (isbn13_gen fk (faker w))) (if sale a \<noteq> -1 then sale a else 0)
                 (if authors a \<noteq> -1 then authors a else 1), n + 1),
          w\<lparr>faker := snd (isbn13_gen fk (faker w))\<rparr>)"
proof -
  have "files w (BOOK_TITLES example_conf) = Some ''Dune\<newline>Emma\<newline>''"
    "files w (AUTHORS example_conf) = Some '' Ann Lee \<newline>Bo Li\<newline>''"
    using assms(2) by (simp_all add: example_world_def example_conf_def)
  from gen_body_zero_stream [OF assms(1) this(1) example_titles _ this(2) example_names]
  show ?thesis by (simp add: example_book_def example_conf_def)
qed

lemma example_run:
  "generate_books example_conf example_faker (example_args 3 (-1) (-1)) example_world =
   Some (Inr [example_book 1 (''978-0-00-000000-'' @ str_nat 0) 0 1,
              example_book 2 (''978-0-00-000000-'' @ str_nat 1) 0 1,
              example_book 3 (''978-0-00-000000-'' @ str_nat 2) 0 1],
         example_world\<lparr>faker := 3\<rparr>)"
  by (simp add: generate_books_def example_args_def numeral_3_eq_3 numeral_2_eq_2 gen_resume_def bindP_def
      modifyP_def returnP_def example_body example_world_def example_faker_def)

lemma example_run_overrides:
  "generate_books example_conf example_faker (example_args 2 2 150) example_world =
   Some (Inr [example_book 1 (''978-0-00-000000-'' @ str_nat 0) 150 2,
              example_book 2 (''978-0-00-000000-'' @ str_nat 1) 150 2],
         example_world\<lparr>faker := 2\<rparr>)"
  by (simp add: generate_books_def example_args_def numeral_2_eq_2 gen_resume_def bindP_def
      modifyP_def returnP_def example_body example_world_def example_faker_def)

lemma example_first_next:
  "gen_next example_conf example_faker (example_args 3 (-1) (-1)) GenCreated example_world =
   Some (Inr (example_book 1 (''978-0-00-000000-'' @ str_nat 0) 0 1, GenSuspended 1),
         example_world\<lparr>faker := 1\<rparr>)"
  by (simp add: example_args_def gen_resume_def bindP_def modifyP_def returnP_def example_body
      example_world_def example_faker_def)

lemma example_fetch_title: "fetch_title example_conf example_world = Some (Inr ''Dune'', example_world)"
  by (rule fetch_title_zero_stream [OF _ _ example_titles]) (simp_all add: example_world_def example_conf_def)

lemma example_fetch_authors:
  "fetch_authors example_conf num example_world = Some (Inr (replicate (nat num) ''Ann Lee''), example_world)"
  by (rule fetch_authors_zero_stream [OF _ _ example_names]) (simp_all add: example_world_def example_conf_def)

lemma example_sources_ok: "sources_ok example_conf example_world"
  by (simp add: sources_ok_def list_file_ok_def example_world_def example_conf_def readlines_def
      translate_newlines_def NL_def CR_def mt_fair_sconst)

definition example_books2 :: "book list" where
  "example_books2 = [example_book 1 (''978-0-00-000000-'' @ str_nat 0) 150 2,
                     example_book 2 (''978-0-00-000000-'' @ str_nat 1) 150 2]"

lemma example_run_output:
  "generate_books example_conf example_faker ((example_args 2 2 150)\<lparr>output_arg := oc\<rparr>) example_world =
   Some (Inr example_books2, example_world\<lparr>faker := 2\<rparr>)"
  by (simp add: generate_books_output_arg example_run_overrides example_books2_def)

lemma example_main_json:
  "main_body example_conf example_faker ((example_args 2 2 150)\<lparr>output_arg := JsonOut ''out.json'' 0\<rparr>) example_world =
   Some (Inr (), (set_file (example_world\<lparr>faker := 2\<rparr>) ''out.json'' (json_dumps 0 (PyList (map book_val example_books2))))
                   \<lparr>stdout := stdout example_world @ saved_msg ''out.json'' @ [NL]\<rparr>)"
  by (simp add: main_body_def bindP_def example_run_output main_output_json)

lemma example_main_csv:
  "main_body example_conf example_faker ((example_args 2 2 150)\<lparr>output_arg := CsvOut ''out.csv'' '','' [NL]\<rparr>) example_world =
   Some (Inr (), (set_file (example_world\<lparr>faker := 2\<rparr>) ''out.csv'' (csv_text (CHR '','') [NL] (map book_items example_books2)))
                   \<lparr>stdout := stdout example_world @ saved_msg ''out.csv'' @ [NL]\<rparr>)"
  by (simp add: main_body_def bindP_def example_run_output main_output_csv)

lemma example_main_scenario:
  "\<exists>w'. main example_conf example_faker [''2'', ''-a'', ''1'', ''-s'', ''50'', ''json'', ''-f'', ''out.json'', ''-i'', ''2'']
          example_world = Some (Inr (), w')"
proof -
  have a: "\<lparr>count = 2, authors = 1, sale = 50, output_arg = JsonOut ''out.json'' 2\<rparr> =
           (example_args 2 1 50)\<lparr>output_arg := JsonOut ''out.json'' 2\<rparr>" by (simp add: example_args_def)
  have "generate_books example_conf example_faker (example_args 2 1 50) example_world =
        Some (Inr [example_book 1 (''978-0-00-000000-'' @ str_nat 0) 50 1,
                   example_book 2 (''978-0-00-000000-'' @ str_nat 1) 50 1], example_world\<lparr>faker := 2\<rparr>)"
    by (simp add: generate_books_def example_args_def numeral_2_eq_2 gen_resume_def bindP_def
        modifyP_def returnP_def example_body example_world_def example_faker_def)
  then show ?thesis
    by (simp add: main_scenario_eq a main_body_def bindP_def generate_books_output_arg main_output_json)
qed

lemma example_main_print:
  "main_body example_conf example_faker (example_args 2 2 150) example_world =
   Some (Inr (), (example_world\<lparr>faker := 2\<rparr>)
                   \<lparr>stdout := stdout example_world @ concat (map (\<lambda>b. py_repr (book_val b) @ [NL]) example_books2)\<rparr>)"
proof -
  have "output_arg (example_args 2 2 150) = NoOutput" by (simp add: example_args_def)
  then show ?thesis
    by (simp add: main_body_def bindP_def example_run_overrides example_books2_def main_output_print)
qed

lemma example_books_in_range:
  "fields_in_range (example_args 3 (-1) (-1)) (bfields (example_book n i 0 1))"
  by (simp add: fields_in_range_def example_args_def example_book_def)

section \<open>Properties of the generator\<close>

text \<open>
  C1. \<open>main\<close> collects exactly \<open>count\<close> books (none for a count below 1), and
  their \<open>pk\<close> values are 1, 2, ..., \<open>count\<close> in order.
\<close>

theorem generate_books_pk_sequence:
  "generate_books cf fk a w = Some (Inr bs, w') \<Longrightarrow> length bs = nat (count a) \<and> map pk bs = [1 .. count a]"
  using generate_books_Inr by blast

theorem generate_books_pk_sequence_witness:
  "length [example_book 1 (''978-0-00-000000-'' @ str_nat 0) 0 1,
           example_book 2 (''978-0-00-000000-'' @ str_nat 1) 0 1,
           example_book 3 (''978-0-00-000000-'' @ str_nat 2) 0 1] = 3 \<and>
   map pk [example_book 1 (''978-0-00-000000-'' @ str_nat 0) 0 1,
           example_book 2 (''978-0-00-000000-'' @ str_nat 1) 0 1,
           example_book 3 (''978-0-00-000000-'' @ str_nat 2) 0 1] = [1 .. 3]"
  using generate_books_pk_sequence [OF example_run] by (simp add: example_args_def)

text \<open>
  C2. Generation ends and returns the books whenever both list files exist,
  are non-empty and have fewer than \<open>2^32\<close> lines, and the Mersenne Twister
  keeps producing words below \<open>2^31\<close>: the rejection loops of
  \<open>random.randrange\<close> and \<open>random.randint\<close> then all end.
\<close>

theorem generate_books_terminates:
  "sources_ok cf w \<Longrightarrow> \<exists>bs w'. generate_books cf fk a w = Some (Inr bs, w')"
  by (rule generate_books_ends)

theorem generate_books_terminates_witness:
  "sources_ok example_conf example_world \<and>
   (\<exists>bs w'. generate_books example_conf example_faker (example_args 5 2 30) example_world = Some (Inr bs, w'))"
  using example_sources_ok generate_books_terminates [OF example_sources_ok] by blast

text \<open>
  C3. Every generated book has a year in [1800, 2020], a page count in
  [100, 500] and a rating in [0, 5].
\<close>

theorem book_year_pages_rating:
  "generate_books cf fk a w = Some (Inr bs, w') \<Longrightarrow> b \<in> set bs \<Longrightarrow>
   1800 \<le> year (bfields b) \<and> year (bfields b) \<le> 2020 \<and> 100 \<le> pages (bfields b) \<and>
   pages (bfields b) \<le> 500 \<and> 0 \<le> rating (bfields b) \<and> rating (bfields b) \<le> 5"
  using generate_books_Inr by (fastforce simp: fields_in_range_def)

theorem book_year_pages_rating_witness:
  "1800 \<le> year (bfields (example_book 1 (''978-0-00-000000-'' @ str_nat 0) 0 1)) \<and>
   pages (bfields (example_book 1 (''978-0-00-000000-'' @ str_nat 0) 0 1)) \<le> 500"
  using book_year_pages_rating [OF example_run, of "example_book 1 (''978-0-00-000000-'' @ str_nat 0) 0 1"]
  by simp

text \<open>
  C4. Every generated price, \<open>round(random() * 500, 2)\<close>, lies in [0, 500]
  (held as hundredths: [0, 50000]).
\<close>

theorem book_price_range:
  "generate_books cf fk a w = Some (Inr bs, w') \<Longrightarrow> b \<in> set bs \<Longrightarrow>
   0 \<le> price (bfields b) \<and> price (bfields b) \<le> 50000"
  using generate_books_Inr by (fastforce simp: fields_in_range_def)

theorem book_price_range_witness:
  "0 \<le> price (bfields (example_book 2 (''978-0-00-000000-'' @ str_nat 1) 0 1)) \<and>
   price (bfields (example_book 2 (''978-0-00-000000-'' @ str_nat 1) 0 1)) \<le> 50000"
  using book_price_range [OF example_run, of "example_book 2 (''978-0-00-000000-'' @ str_nat 1) 0 1"]
  by simp

text \<open>
  C5. The price reaches 500.00: for the largest value of \<open>random()\<close>,
  \<open>(2^53 - 1) / 2^53\<close>, the product with 500 rounds to 500.00. The upper end
  of the price range is closed, not open.
\<close>

theorem price_reaches_500: "\<exists>k < 2 ^ 53. price_cents k = 50000"
proof
  have "bit_length 4503599627370495500 = 62" by (rule bit_length_eq) simp_all
  then show "2 ^ 53 - 1 < (2::nat) ^ 53 \<and> price_cents (2 ^ 53 - 1) = 50000"
    by (simp add: price_cents_def float_times_500_def round_half_even_div_def Let_def)
qed

text \<open>
  C6. The author count of every book is the \<open>-a\<close> argument when one is given
  (any value but the sentinel \<open>-1\<close>; a negative one gives no author), and
  between 1 and 3 otherwise.
\<close>

theorem book_author_count:
  "generate_books cf fk a w = Some (Inr bs, w') \<Longrightarrow> b \<in> set bs \<Longrightarrow>
   (if authors a = -1 then 1 \<le> length (author (bfields b)) \<and> length (author (bfields b)) \<le> 3
    else length (author (bfields b)) = nat (authors a))"
  using generate_books_Inr by (fastforce simp: fields_in_range_def)

theorem book_author_count_witness:
  "length (author (bfields (example_book 1 (''978-0-00-000000-'' @ str_nat 0) 150 2))) = 2"
  using book_author_count [OF example_run_overrides, of "example_book 1 (''978-0-00-000000-'' @ str_nat 0) 150 2"]
  by (simp add: example_args_def)

text \<open>
  C7. The discount of every book is the \<open>-s\<close> argument when one is given,
  unchecked (150 gives 150), and between 0 and 100 otherwise.
\<close>

theorem book_discount:
  "generate_books cf fk a w = Some (Inr bs, w') \<Longrightarrow> b \<in> set bs \<Longrightarrow>
   (if sale a = -1 then 0 \<le> discount (bfields b) \<and> discount (bfields b) \<le> 100
    else discount (bfields b) = sale a)"
  using generate_books_Inr by (fastforce simp: fields_in_range_def)

theorem book_discount_witness:
  "discount (bfields (example_book 2 (''978-0-00-000000-'' @ str_nat 1) 150 2)) = 150"
  using book_discount [OF example_run_overrides, of "example_book 2 (''978-0-00-000000-'' @ str_nat 1) 150 2"]
  by (simp add: example_args_def)

text \<open>
  C8. \<open>Faker.seed(0)\<close> runs when the generator starts, so the ISBNs of a run
  are the first \<open>count\<close> ISBNs of the seeded Faker, whatever the Faker state
  and the random stream were before.
\<close>

theorem generate_books_isbns_seeded:
  "generate_books cf fk a w = Some (Inr bs, w') \<Longrightarrow>
   map (isbn13 \<circ> bfields) bs = faker_isbns fk (seed0 fk) (nat (count a))"
  using generate_books_Inr by blast

theorem generate_books_isbns_seeded_witness:
  "map (isbn13 \<circ> bfields) [example_book 1 (''978-0-00-000000-'' @ str_nat 0) 0 1,
                             example_book 2 (''978-0-00-000000-'' @ str_nat 1) 0 1,
                             example_book 3 (''978-0-00-000000-'' @ str_nat 2) 0 1] =
   faker_isbns example_faker 0 3"
  using generate_books_isbns_seeded [OF example_run] by (simp add: example_args_def example_faker_def)

text \<open>
  C9. Generating the books neither writes a file nor prints, whether it returns
  the books or raises.
\<close>

theorem generate_books_no_io:
  "generate_books cf fk a w = Some (r, w') \<Longrightarrow> files w' = files w \<and> stdout w' = stdout w"
  using keeps_io_generate_books by (rule keeps_ioD)

theorem generate_books_no_io_witness:
  "files (example_world\<lparr>faker := 3\<rparr>) = files example_world \<and> stdout (example_world\<lparr>faker := 3\<rparr>) = []"
  using generate_books_no_io [OF example_run] by (simp add: example_world_def)

text \<open>
  C10. A missing titles file makes the first \<open>next\<close> raise
  \<open>FileNotFoundError\<close> with the file's name (after the two sentinel draws),
  so a run with a positive count raises it.
\<close>

theorem generate_books_missing_titles:
  fixes w :: "'f world"
  shows "files w (BOOK_TITLES cf) = None \<Longrightarrow> 0 < count a \<Longrightarrow> mt_fair (mt w) \<Longrightarrow>
   \<exists>w'. generate_books cf fk a w = Some (Inl (FileNotFoundError (BOOK_TITLES cf)), w')"
  by (rule generate_books_title_error) (simp_all add: fetch_title_missing)

theorem generate_books_missing_titles_witness:
  "\<exists>w'. generate_books example_conf example_faker (example_args 1 (-1) (-1))
          (example_world\<lparr>files := Map.empty\<rparr>) = Some (Inl (FileNotFoundError ''titles.txt''), w')"
  using generate_books_missing_titles [of "example_world\<lparr>files := Map.empty\<rparr>" example_conf "example_args 1 (-1) (-1)"]
  by (simp add: example_conf_def example_args_def example_world_def mt_fair_sconst)

text \<open>
  C11. An empty titles file makes a run with a positive count raise
  \<open>ValueError("empty range for randrange()")\<close> from
  \<open>random.randrange(0)\<close>.
\<close>

theorem generate_books_empty_titles:
  fixes w :: "'f world"
  shows "files w (BOOK_TITLES cf) = Some [] \<Longrightarrow> 0 < count a \<Longrightarrow> mt_fair (mt w) \<Longrightarrow>
   \<exists>w'. generate_books cf fk a w = Some (Inl (ValueError ''empty range for randrange()''), w')"
  by (rule generate_books_title_error) (simp_all add: fetch_title_empty)

theorem generate_books_empty_titles_witness:
  "\<exists>w'. generate_books example_conf example_faker (example_args 2 1 10)
          (example_world\<lparr>files := [''titles.txt'' \<mapsto> []]\<rparr>) =
        Some (Inl (ValueError ''empty range for randrange()''), w')"
  using generate_books_empty_titles [of "example_world\<lparr>files := [''titles.txt'' \<mapsto> []]\<rparr>" example_conf
      "example_args 2 1 10"]
  by (simp add: example_conf_def example_args_def example_world_def mt_fair_sconst)

text \<open>
  C12. With a count below 1 no book is generated: no file is opened and no
  random number is drawn, so even missing list files raise nothing.
\<close>

theorem generate_books_nonpositive_count:
  "count a \<le> 0 \<Longrightarrow> generate_books cf fk a w = Some (Inr [], w)"
  by (simp add: generate_books_def returnP_def)

theorem generate_books_nonpositive_count_witness:
  "generate_books example_conf example_faker (example_args 0 (-1) (-1)) (example_world\<lparr>files := Map.empty\<rparr>) =
   Some (Inr [], example_world\<lparr>files := Map.empty\<rparr>)"
  using generate_books_nonpositive_count [of "example_args 0 (-1) (-1)"] by (simp add: example_args_def)

text \<open>
  C13. \<open>fetch_title\<close> returns one line of the titles file (after universal
  newline translation), without its newline, and only draws random numbers.
\<close>

theorem fetch_title_picks_line:
  "fetch_title cf w = Some (Inr t, w') \<Longrightarrow> files w (BOOK_TITLES cf) = Some raw \<Longrightarrow>
   t \<in> set (titles_of (translate_newlines raw)) \<and> NL \<notin> set t \<and> draws w w'"
  by (drule fetch_title_Inr) auto

theorem fetch_title_picks_line_witness:
  "''Dune'' \<in> set (titles_of (translate_newlines ''Dune\<newline>Emma\<newline>''))"
  using fetch_title_picks_line [OF example_fetch_title, of "''Dune\<newline>Emma\<newline>''"]
  by (simp add: example_world_def example_conf_def)

text \<open>
  C14. Reading the titles loses nothing but the newlines: on a file that ends in a
  newline, writing each title back followed by a newline gives the file.
\<close>

theorem titles_roundtrip:
  "last text = NL \<Longrightarrow> concat (map (\<lambda>t. t @ [NL]) (titles_of text)) = text"
proof -
  assume last: "last text = NL"
  have "\<forall>l\<in>set (readlines text). strip_chars [NL] l @ [NL] = l"
    using last by (auto intro: strip_NL_line_snoc dest: readlines_lines readlines_last_NL)
  then have "map (\<lambda>t. t @ [NL]) (titles_of text) = readlines text"
    by (simp add: titles_of_def map_idI)
  then show ?thesis by (simp add: concat_readlines)
qed

theorem titles_roundtrip_witness:
  "concat (map (\<lambda>t. t @ [NL]) [''Dune'', ''Emma'']) = ''Dune\<newline>Emma\<newline>''"
  using titles_roundtrip [of "''Dune\<newline>Emma\<newline>''"] example_titles
  by (simp add: translate_newlines_def NL_def CR_def)

text \<open>
  C15. \<open>fetch_authors\<close> returns exactly \<open>num\<close> names (none when
  \<open>num \<le> 0\<close>), each a stripped line of the authors file, and only draws
  random numbers.
\<close>

theorem fetch_authors_names:
  "fetch_authors cf num w = Some (Inr as, w') \<Longrightarrow> files w (AUTHORS cf) = Some raw \<Longrightarrow>
   length as = nat num \<and> set as \<subseteq> set (names_of (translate_newlines raw)) \<and> draws w w'"
  by (drule fetch_authors_Inr) auto

theorem fetch_authors_names_witness:
  "set [''Ann Lee'', ''Ann Lee''] \<subseteq> set (names_of (translate_newlines '' Ann Lee \<newline>Bo Li\<newline>''))"
  using fetch_authors_names [OF example_fetch_authors [of 2], of "'' Ann Lee \<newline>Bo Li\<newline>''"]
  by (simp add: example_world_def example_conf_def numeral_2_eq_2)

text \<open>
  C16. An empty authors file is an error only when authors are asked for: with
  \<open>num \<le> 0\<close> the loop body never runs and \<open>fetch_authors\<close> returns the
  empty list without drawing.
\<close>

theorem fetch_authors_empty_file_nonpositive:
  "files w (AUTHORS cf) = Some [] \<Longrightarrow> num \<le> 0 \<Longrightarrow> fetch_authors cf num w = Some (Inr [], w)"
  by (simp add: fetch_authors_def returnP_def bindP_def)

theorem fetch_authors_empty_file_nonpositive_witness:
  "fetch_authors example_conf 0 (example_world\<lparr>files := [''authors.txt'' \<mapsto> []]\<rparr>) =
   Some (Inr [], example_world\<lparr>files := [''authors.txt'' \<mapsto> []]\<rparr>)"
  using fetch_authors_empty_file_nonpositive [of "example_world\<lparr>files := [''authors.txt'' \<mapsto> []]\<rparr>" example_conf 0]
  by (simp add: example_conf_def)

text \<open>
  C17. In every reachable state of the generator object, after \<open>n\<close> books,
  the next book it yields has primary key \<open>n + 1\<close>.
\<close>

theorem gen_yield_pk:
  "gen_reach cf fk a w0 n s \<Longrightarrow> gen_step cf fk a s (Inr b) s' \<Longrightarrow> pk b = int n + 1"
proof -
  assume r: "gen_reach cf fk a w0 n s" and st: "gen_step cf fk a s (Inr b) s'"
  from st obtain g w g' w' where s: "s = (g, w)" and nx: "gen_next cf fk a g w = Some (Inr (b, g'), w')"
    by (rule gen_step_yieldE) blast
  from gen_next_Inr [OF nx] have pk: "pk b = gen_pk g + 1" and open_g: "g \<noteq> GenClosed" by blast+
  from gen_reach_inv [OF r] s have "(g = GenCreated \<longrightarrow> n = 0) \<and> (\<forall>k. g = GenSuspended k \<longrightarrow> k = int n)"
    by simp
  with open_g show ?thesis by (cases g) (simp_all add: pk)
qed

theorem gen_yield_pk_witness:
  "pk (example_book 1 (''978-0-00-000000-'' @ str_nat 0) 0 1) = int 0 + 1"
  using gen_yield_pk [OF gen_reach.start [of example_conf example_faker "example_args 3 (-1) (-1)" example_world]
      gen_step.yield [OF example_first_next]] .

text \<open>
  C18. JSON round trip: when \<open>main\<close> runs the \<open>json\<close> subcommand to the end,
  the file it writes reads back with \<open>json.loads\<close> as the list of the books it
  generated, and the confirmation naming the file is printed.
\<close>

theorem main_json_roundtrip:
  "main_body cf fk a w = Some (Inr (), w') \<Longrightarrow> output_arg a = JsonOut fn dent \<Longrightarrow>
   \<exists>bs w1 t. generate_books cf fk a w = Some (Inr bs, w1) \<and> files w' fn = Some t \<and>
     json_loads t = Some (PyList (map book_val bs)) \<and> stdout w' = stdout w1 @ saved_msg fn @ [NL]"
proof -
  assume run: "main_body cf fk a w = Some (Inr (), w')" and out: "output_arg a = JsonOut fn dent"
  from run obtain bs w1 where gen: "generate_books cf fk a w = Some (Inr bs, w1)"
    and mo: "main_output a bs w1 = Some (Inr (), w')" by (auto simp: main_body_Inr)
  from main_output_json_Inr [OF out mo] have "fn \<noteq> []" .
  with mo out have "w' = (set_file w1 fn (json_dumps dent (PyList (map book_val bs))))
                           \<lparr>stdout := stdout w1 @ saved_msg fn @ [NL]\<rparr>"
    by (simp add: main_output_json)
  with gen show ?thesis by (auto simp: json_loads_dumps)
qed

theorem main_json_roundtrip_witness:
  "\<exists>bs w1 t. generate_books example_conf example_faker ((example_args 2 2 150)\<lparr>output_arg := JsonOut ''out.json'' 0\<rparr>) example_world
       = Some (Inr bs, w1) \<and>
     files ((set_file (example_world\<lparr>faker := 2\<rparr>) ''out.json'' (json_dumps 0 (PyList (map book_val example_books2))))
                   \<lparr>stdout := stdout example_world @ saved_msg ''out.json'' @ [NL]\<rparr>) ''out.json'' = Some t \<and>
     json_loads t = Some (PyList (map book_val bs)) \<and>
     stdout example_world @ saved_msg ''out.json'' @ [NL] = stdout w1 @ saved_msg ''out.json'' @ [NL]"
  using main_json_roundtrip [OF example_main_json] by simp

text \<open>
  C19. With \<open>--indent 0\<close> (the default) the JSON is not compact: a non-empty
  list is written with a new line after its opening bracket.
\<close>

theorem to_json_indent_zero_newline:
  "to_json obj fn 0 w = Some (Inr (), w') \<Longrightarrow> obj \<noteq> [] \<Longrightarrow>
   \<exists>u. files w' fn = Some (CHR ''['' # NL # u)"
proof -
  assume run: "to_json obj fn 0 w = Some (Inr (), w')" and ne: "obj \<noteq> []"
  from to_json_Inr [OF run] have "fn \<noteq> []" .
  with run have "files w' fn = Some (json_dumps 0 (PyList obj))" by (auto simp: to_json_eq)
  with json_dumps_zero_list [OF ne] show ?thesis by auto
qed

theorem to_json_indent_zero_newline_witness:
  "\<exists>u. files (set_file example_world ''o.json'' (json_dumps 0 (PyList [PyInt 1]))) ''o.json'' = Some (CHR ''['' # NL # u)"
  using to_json_indent_zero_newline [OF to_json_eq [of "''o.json''" "[PyInt 1]" 0 example_world]] by simp

text \<open>
  C20. CSV output: when \<open>main\<close> runs the \<open>csv\<close> subcommand to the end, the
  file holds three rows per generated book, in order: \<open>model\<close>, \<open>pk\<close> and
  \<open>fields\<close> (the \<open>str\<close> of the fields dict), each \<open>key, value\<close> written
  by \<open>writerow\<close>.
\<close>

theorem main_csv_rows:
  "main_body cf fk a w = Some (Inr (), w') \<Longrightarrow> output_arg a = CsvOut fn v l \<Longrightarrow>
   \<exists>bs w1. generate_books cf fk a w = Some (Inr bs, w1) \<and>
     files w' fn = Some (concat (map (\<lambda>b. csv_row (hd v) l [''model'', model b] @
                                          csv_row (hd v) l [''pk'', str_int (pk b)] @
                                          csv_row (hd v) l [''fields'', py_repr (PyDict (fields_items (bfields b)))])
                                    bs))"
  by (drule main_body_csv_written) (auto simp: csv_text_def book_items_def comp_def)

theorem main_csv_rows_witness:
  "\<exists>bs w1. generate_books example_conf example_faker ((example_args 2 2 150)\<lparr>output_arg := CsvOut ''out.csv'' '','' [NL]\<rparr>)
        example_world = Some (Inr bs, w1) \<and>
     files ((set_file (example_world\<lparr>faker := 2\<rparr>) ''out.csv'' (csv_text (CHR '','') [NL] (map book_items example_books2)))
                   \<lparr>stdout := stdout example_world @ saved_msg ''out.csv'' @ [NL]\<rparr>) ''out.csv'' =
       Some (concat (map (\<lambda>b. csv_row CHR '','' [NL] [''model'', model b] @ csv_row CHR '','' [NL] [''pk'', str_int (pk b)] @
                                csv_row CHR '','' [NL] [''fields'', py_repr (PyDict (fields_items (bfields b)))]) bs))"
  using main_csv_rows [OF example_main_csv] by simp

text \<open>
  C21. With the default separators the \<open>fields\<close> row is not \<open>key,value\<close>:
  the dict's text holds commas, so \<open>QUOTE_MINIMAL\<close> writes it in double quotes,
  with every double quote inside doubled.
\<close>

theorem csv_fields_row_quoted:
  "csv_row (CHR '','') [NL] [''fields'', py_repr (PyDict (fields_items f))] =
   ''fields,'' @ CHR 0x22 # concat (map (\<lambda>c. if c = CHR 0x22 then [c, c] else [c])
                                        (py_repr (PyDict (fields_items f)))) @ [CHR 0x22, NL]"
proof -
  have "CHR '','' \<in> set (py_repr (PyDict (fields_items f)))" by (simp add: fields_items_def)
  moreover have "\<forall>c\<in>set ''fields''. c \<noteq> CHR '','' \<and> c \<noteq> CHR 0x22 \<and> c \<notin> set [NL]" by (simp add: NL_def)
  ultimately show ?thesis by (simp add: csv_row_pair csv_field_plain csv_field_delim)
qed

text \<open>
  C22. A separator that is not one character (\<open>-v ''\<close> or \<open>-v ';;'\<close>) makes
  \<open>main\<close> raise \<open>TypeError\<close> after the books are generated, and the output file
  is left truncated to empty, with nothing printed.
\<close>

theorem main_csv_bad_separator:
  "generate_books cf fk a w = Some (Inr bs, w1) \<Longrightarrow> output_arg a = CsvOut fn v l \<Longrightarrow> fn \<noteq> [] \<Longrightarrow>
   length v \<noteq> 1 \<Longrightarrow> main_body cf fk a w = Some (Inl csv_delimiter_error, set_file w1 fn [])"
  by (simp add: main_body_def bindP_def main_output_csv)

theorem main_csv_bad_separator_witness:
  "main_body example_conf example_faker ((example_args 2 2 150)\<lparr>output_arg := CsvOut ''out.csv'' [] [NL]\<rparr>) example_world =
   Some (Inl csv_delimiter_error, set_file (example_world\<lparr>faker := 2\<rparr>) ''out.csv'' [])"
  by (rule main_csv_bad_separator [OF example_run_output, where v = "[]" and l = "[NL]"]) simp_all

text \<open>
  C23. Without a subcommand \<open>main\<close> prints one line per generated book and
  nothing else: what it adds to standard output reads back as exactly those
  lines, the \<open>i\<close>-th being \<open>repr\<close> of the \<open>i\<close>-th book.
\<close>

theorem main_print_lines:
  "main_body cf fk a w = Some (Inr (), w') \<Longrightarrow> output_arg a = NoOutput \<Longrightarrow>
   \<exists>bs w1. generate_books cf fk a w = Some (Inr bs, w1) \<and>
     readlines (drop (length (stdout w)) (stdout w')) = map (\<lambda>b. py_repr (book_val b) @ [NL]) bs"
proof -
  assume run: "main_body cf fk a w = Some (Inr (), w')" and out: "output_arg a = NoOutput"
  from run obtain bs w1 where gen: "generate_books cf fk a w = Some (Inr bs, w1)"
    and mo: "main_output a bs w1 = Some (Inr (), w')" by (auto simp: main_body_Inr)
  have "stdout w1 = stdout w" using keeps_ioD [OF keeps_io_generate_books gen] by simp
  moreover from mo out have "w' = w1\<lparr>stdout := stdout w1 @ concat (map (\<lambda>b. py_repr (book_val b) @ [NL]) bs)\<rparr>"
    by (simp add: main_output_print)
  ultimately have "drop (length (stdout w)) (stdout w') = concat (map (\<lambda>s. s @ [NL]) (map (py_repr \<circ> book_val) bs))"
    by (simp add: comp_def)
  moreover have "\<forall>s\<in>set (map (py_repr \<circ> book_val) bs). NL \<notin> set s" using NL_CR_not_py_repr by auto
  then have "readlines (concat (map (\<lambda>s. s @ [NL]) (map (py_repr \<circ> book_val) bs))) =
             map (\<lambda>s. s @ [NL]) (map (py_repr \<circ> book_val) bs)" by (rule readlines_printed)
  ultimately show ?thesis using gen by (simp add: comp_def)
qed

theorem main_print_lines_witness:
  "\<exists>bs w1. generate_books example_conf example_faker (example_args 2 2 150) example_world = Some (Inr bs, w1) \<and>
     readlines (drop (length (stdout example_world))
       (stdout ((example_world\<lparr>faker := 2\<rparr>)
                   \<lparr>stdout := stdout example_world @ concat (map (\<lambda>b. py_repr (book_val b) @ [NL]) example_books2)\<rparr>)))
     = map (\<lambda>b. py_repr (book_val b) @ [NL]) bs"
  using main_print_lines [OF example_main_print] by (simp add: example_args_def)

text \<open>
  C24. \<open>to_csv\<close>'s loops, one \<open>writerow\<close> per key of each book, write the
  reference rendering \<open>csv_text\<close> of all the rows; the file is truncated
  before the writer checks its separator, and an empty file name fails first.
\<close>

theorem to_csv_rendering:
  "to_csv obj fn v l w =
     (if fn = [] then Some (Inl (FileNotFoundError []), w)
      else if length v \<noteq> 1 then Some (Inl csv_delimiter_error, set_file w fn [])
      else Some (Inr (), set_file w fn (csv_text (hd v) l obj)))"
  by (simp add: to_csv_def bindP_def open_write_ok open_write_empty csv_writer_def raiseP_def returnP_def
      csv_write_books_eq)

text \<open>
  C25. \<open>check_name_file\<close> returns exactly when every line is a full match of
  the name pattern, and otherwise raises \<open>Exception(ValueError)\<close>; it
  changes nothing.
\<close>

theorem check_name_file_iff:
  "check_name_file ls w = (if list_all name_ok ls then Some (Inr (), w) else Some (Inl name_error, w))"
  by (induction ls) (simp_all add: returnP_def raiseP_def)

text \<open>
  C26. The name pattern's classes hold a literal \<open>?\<close> where Cyrillic ranges were
  meant, so \<open>?\<close> counts as an upper- and a lower-case letter: a line made of
  \<open>m\<close> question marks, a space and \<open>n\<close> question marks passes
  \<open>check_name_file\<close> exactly when both runs have at least two characters, as
  a name of two letters would.
\<close>

theorem check_name_file_question_marks:
  "check_name_file [replicate m CHR ''?'' @ CHR '' '' # replicate n CHR ''?''] w = Some (Inr (), w) \<longleftrightarrow>
   2 \<le> m \<and> 2 \<le> n"
  by (simp add: name_ok_qmarks returnP_def raiseP_def)

theorem check_name_file_question_marks_witness:
  "check_name_file [''?? ???''] example_world = Some (Inr (), example_world)"
  using check_name_file_question_marks [of 2 3 example_world] by (simp add: numeral_eq_Suc)

text \<open>
  C27. Lines as \<open>readlines()\<close> returns them keep their newline, and no line
  ending in a newline matches: given the raw lines of a file that ends in a
  newline, \<open>check_name_file\<close> always raises.
\<close>

theorem check_name_file_raw_lines:
  "s \<noteq> [] \<Longrightarrow> last s = NL \<Longrightarrow> check_name_file (readlines s) w = Some (Inl name_error, w)"
proof -
  assume ne: "s \<noteq> []" and nl: "last s = NL"
  then obtain l ls where rl: "readlines s = l # ls" by (cases "readlines s") (simp_all add: readlines_Nil_iff)
  then have "last l = NL" using readlines_last_NL [of l s] nl by simp
  then have "\<not> name_ok l" using name_ok_last name_lower_NL by metis
  then show ?thesis by (simp add: rl raiseP_def)
qed

theorem check_name_file_raw_lines_witness:
  "check_name_file (readlines ''Ann Lee\<newline>'') example_world = Some (Inl name_error, example_world)"
  by (rule check_name_file_raw_lines) (simp_all add: NL_def)


text \<open>
  C28. Every argument list \<open>create_parser\<close> accepts gives a namespace holding
  the attributes \<open>main\<close> reads, each of the type it declares (\<open>count\<close>,
  \<open>authors\<close>, \<open>sale\<close> and \<open>indent\<close> ints, the others strings), so
  \<open>main\<close> goes on to generate the books with those arguments.
\<close>

theorem main_parsed:
  "parse_args create_parser argv = Inr ns \<Longrightarrow> \<exists>a. args_of_ns ns = Some a \<and> main cf fk argv = main_body cf fk a"
  using args_of_ns_total main_parsed_eq by blast

theorem main_parsed_witness:
  "\<exists>a. args_of_ns ((''count'', NInt 3) # init_ns create_parser) = Some a \<and>
     main example_conf example_faker [str_int 3] = main_body example_conf example_faker a"
  using main_parsed [OF parse_args_str_int] .

text \<open>
  C29. \<open>main.py N\<close> for any integer \<open>N\<close> (written as \<open>str\<close> writes it,
  negative ones included: \<open>-5\<close> is read as a number, not an option) generates
  \<open>N\<close> books with random author counts and discounts and prints them.
\<close>

theorem main_count_only:
  "main cf fk [str_int n] = main_body cf fk \<lparr>count = n, authors = -1, sale = -1, output_arg = NoOutput\<rparr>"
proof (rule main_parsed_eq [OF parse_args_str_int])
  show "args_of_ns ((''count'', NInt n) # init_ns create_parser) =
          Some \<lparr>count = n, authors = -1, sale = -1, output_arg = NoOutput\<rparr>"
    by (simp add: args_of_ns_def output_of_ns_def ns_int_def init_ns_create_parser)
qed

text \<open>
  C30. \<open>-a K -s D\<close> pass any integers through to the generator unchanged,
  negative ones included; \<open>-a -1\<close> and \<open>-s -1\<close> are therefore the same as
  leaving the option out (C6, C7).
\<close>

theorem main_authors_sale:
  "main cf fk [str_int c, ''-a'', str_int k, ''-s'', str_int d] =
   main_body cf fk \<lparr>count = c, authors = k, sale = d, output_arg = NoOutput\<rparr>"
proof (rule main_parsed_eq)
  let ?ts = "[TokA (str_int c), TokO ''-a'' (Some (authors_action, ''-a'', None)), TokA (str_int k),
              TokO ''-s'' (Some (sale_action, ''-s'', None)), TokA (str_int d)]"
  have cl: "classify (pa_acts create_parser) [str_int c, ''-a'', str_int k, ''-s'', str_int d] = Inr ?ts"
    by (simp add: classify_str_int classify_opt book_opts_nondigit lookup_book del: classify.simps)
      (simp add: classify.simps)
  let ?ns = "(''sale'', NInt d) # (''authors'', NInt k) # (''count'', NInt c) # init_ns create_parser"
  have "argloop (pa_acts create_parser) (pa_pos create_parser) (pa_sdest create_parser) (pa_subs create_parser)
          ?ts (init_ns create_parser) [] = Inr (?ns, [])"
    by (simp add: create_parser_def authors_action_def sale_action_def convert_val_def py_int_str_int)
  with cl show "parse_args create_parser [str_int c, ''-a'', str_int k, ''-s'', str_int d] = Inr ?ns"
    by (rule parse_args_run)
  show "args_of_ns ?ns = Some \<lparr>count = c, authors = k, sale = d, output_arg = NoOutput\<rparr>"
    by (simp add: args_of_ns_def output_of_ns_def ns_int_def init_ns_create_parser)
qed

text \<open>
  C31. A count that \<open>int()\<close> rejects ends the program with status 2 and
  argparse's message, before any book is generated or any file touched: the
  process exits with status 2.
\<close>

theorem main_invalid_count:
  "s \<noteq> [] \<Longrightarrow> hd s \<noteq> CHR ''-'' \<Longrightarrow> py_int s = None \<Longrightarrow>
   main cf fk [s] w = Some (Inl (SystemExit 2 (''argument count: invalid int value: '' @ repr_str s)), w) \<and>
   script cf fk [s] w = Some (2, w)"
proof -
  assume h: "s \<noteq> []" "hd s \<noteq> CHR ''-''" "py_int s = None"
  have "classify (pa_acts create_parser) [s] = Inr [TokA s]" using h by (simp add: classify_plain del: classify.simps)
  with h have "main cf fk [s] w = Some (Inl (SystemExit 2 (''argument count: invalid int value: '' @ repr_str s)), w)"
    by (simp add: main_def parse_args_def create_parser_def convert_val_def raiseP_def)
  then show ?thesis by (simp add: script_def)
qed

theorem main_invalid_count_witness:
  "main example_conf example_faker [''x''] example_world =
     Some (Inl (SystemExit 2 (''argument count: invalid int value: '' @ repr_str ''x'')), example_world) \<and>
   script example_conf example_faker [''x''] example_world = Some (2, example_world)"
  using main_invalid_count [of "''x''"]
  by (simp add: py_int_def py_strip_def py_isspace_def is_digit_def decimal_digits_def Let_def)

text \<open>
  C32. \<open>-h\<close> before any values ends the program with status 0, whatever the
  values are: help is acted on even when the count is missing or invalid. The
  process then exits with status 0, as after a successful run.
\<close>

theorem main_help:
  "\<forall>s\<in>set argv. s = [] \<or> hd s \<noteq> CHR ''-'' \<Longrightarrow>
   main cf fk (''-h'' # argv) w = Some (Inl (SystemExit 0 []), w) \<and> script cf fk (''-h'' # argv) w = Some (0, w)"
proof -
  assume "\<forall>s\<in>set argv. s = [] \<or> hd s \<noteq> CHR ''-''"
  then have "main cf fk (''-h'' # argv) w = Some (Inl (SystemExit 0 []), w)"
    by (simp add: main_def parse_args_def classify_opt classify_plain lookup_book raiseP_def del: classify.simps)
       (simp add: help_action_def create_parser_def)
  then show ?thesis by (simp add: script_def)
qed

theorem main_help_witness:
  "main example_conf example_faker [''-h'', ''x''] example_world = Some (Inl (SystemExit 0 []), example_world) \<and>
   script example_conf example_faker [''-h'', ''x''] example_world = Some (0, example_world)"
  using main_help [of "[''x'']"] by simp

text \<open>
  C33. The scenario of the specification: after \<open>2 -a 1 -s 50 json -f out.json
  -i 2\<close> runs to the end, \<open>out.json\<close> holds a JSON array dumped with indent 2
  that reads back as two records meeting the specification with one author
  each and discount 50.
\<close>

theorem main_spec_scenario:
  "main cf fk [''2'', ''-a'', ''1'', ''-s'', ''50'', ''json'', ''-f'', ''out.json'', ''-i'', ''2''] w = Some (Inr (), w') \<Longrightarrow>
   \<exists>vs. files w' ''out.json'' = Some (json_dumps 2 (PyList vs)) \<and> json_loads (json_dumps 2 (PyList vs)) = Some (PyList vs) \<and>
     spec_output cf \<lparr>count = 2, authors = 1, sale = 50, output_arg = JsonOut ''out.json'' 2\<rparr> (PyList vs)"
  using main_body_json_written [of cf fk "\<lparr>count = 2, authors = 1, sale = 50, output_arg = JsonOut ''out.json'' 2\<rparr>"]
    generate_books_spec json_loads_dumps
  by (fastforce simp: main_scenario_eq)

theorem main_spec_scenario_witness:
  "\<exists>w'. main example_conf example_faker [''2'', ''-a'', ''1'', ''-s'', ''50'', ''json'', ''-f'', ''out.json'', ''-i'', ''2'']
          example_world = Some (Inr (), w') \<and>
     (\<exists>vs. files w' ''out.json'' = Some (json_dumps 2 (PyList vs)) \<and> json_loads (json_dumps 2 (PyList vs)) = Some (PyList vs) \<and>
        spec_output example_conf \<lparr>count = 2, authors = 1, sale = 50, output_arg = JsonOut ''out.json'' 2\<rparr> (PyList vs))"
  using example_main_scenario main_spec_scenario by blast

text \<open>
  C34. A second value that is not a subcommand name is an invalid choice:
  status 2, and the message names it and the two choices.
\<close>

theorem main_invalid_subcommand:
  "s \<noteq> ''json'' \<Longrightarrow> s \<noteq> ''csv'' \<Longrightarrow> s \<noteq> [] \<Longrightarrow> hd s \<noteq> CHR ''-'' \<Longrightarrow>
   main cf fk [str_int c, s] w =
     Some (Inl (SystemExit 2 (''argument output: invalid choice: '' @ repr_str s @
       '' (choose from '' @ repr_str ''json'' @ '', '' @ repr_str ''csv'' @ '')'')), w)"
proof -
  assume h: "s \<noteq> ''json''" "s \<noteq> ''csv''" "s \<noteq> []" "hd s \<noteq> CHR ''-''"
  have cl: "classify (pa_acts create_parser) [str_int c, s] = Inr [TokA (str_int c), TokA s]"
    using h by (simp add: classify_str_int classify_plain book_opts_nondigit del: classify.simps)
  have "argloop (pa_acts create_parser) (pa_pos create_parser) (pa_sdest create_parser) (pa_subs create_parser)
          [TokA (str_int c), TokA s] (init_ns create_parser) [] = Inl (2, invalid_choice ''output'' s (pa_subs create_parser))"
    using h by (simp add: create_parser_def convert_val_def py_int_str_int)
  then show ?thesis using cl
    by (simp add: main_def parse_args_def raiseP_def invalid_choice_def create_parser_def)
qed

theorem main_invalid_subcommand_witness:
  "main example_conf example_faker [str_int 3, ''xml''] example_world =
     Some (Inl (SystemExit 2 (''argument output: invalid choice: '' @ repr_str ''xml'' @
       '' (choose from '' @ repr_str ''json'' @ '', '' @ repr_str ''csv'' @ '')'')), example_world)"
  using main_invalid_subcommand [of "''xml''"] by simp

text \<open>
  C35. The options of the main parser are not accepted after the subcommand:
  \<open>N json -a K\<close> ends with status 2, \<open>-a K\<close> being unrecognized.
\<close>

theorem main_options_after_subcommand:
  "main cf fk [str_int c, ''json'', ''-a'', str_int k] w =
     Some (Inl (SystemExit 2 (''unrecognized arguments: -a '' @ str_int k)), w)"
proof -
  have cl: "classify (pa_acts create_parser) [str_int c, ''json'', ''-a'', str_int k] =
              Inr [TokA (str_int c), TokA ''json'', TokO ''-a'' (Some (authors_action, ''-a'', None)), TokA (str_int k)]"
    by (simp add: classify_str_int classify_val classify_opt book_opts_nondigit lookup_book del: classify.simps)
       (simp add: classify.simps)
  have scl: "classify json_actions [''-a'', str_int k] = Inr [TokO ''-a'' None, TokA (str_int k)]"
    by (simp add: classify_str_int classify_unknown unknown_book book_opts_nondigit del: classify.simps)
       (simp add: classify.simps)
  have "argloop (pa_acts create_parser) (pa_pos create_parser) (pa_sdest create_parser) (pa_subs create_parser)
          [TokA (str_int c), TokA ''json'', TokO ''-a'' (Some (authors_action, ''-a'', None)), TokA (str_int k)]
          (init_ns create_parser) [] =
        Inr (ns_defaults json_actions @ (''output'', NStr ''json'') # (''count'', NInt c) # init_ns create_parser,
             [''-a'', str_int k])"
    using scl by (simp add: create_parser_def convert_val_def py_int_str_int tok_str_def is_opt_tok_def)
  then show ?thesis using cl by (simp add: main_def parse_args_def raiseP_def)
qed


text \<open>
  C36. Refinement of the specification by the JSON output: whenever \<open>main\<close>
  runs the \<open>json\<close> subcommand to the end, the file it names holds a JSON text
  whose value, read back with \<open>json.loads\<close>, is a list of records meeting
  the specification of sections 3 and 8 (\<open>spec_output\<close>: \<open>count\<close> records
  numbered from 1, fields in their ranges, author count and discount as the
  options say).
\<close>

theorem main_json_refines_spec:
  "main_body cf fk a w = Some (Inr (), w') \<Longrightarrow> output_arg a = JsonOut fn dent \<Longrightarrow>
   \<exists>t v. files w' fn = Some t \<and> json_loads t = Some v \<and> spec_output cf a v"
  using main_body_json_written [of cf fk a w w' fn dent] generate_books_spec json_loads_dumps by blast

theorem main_json_refines_spec_witness:
  "\<exists>t v. files ((set_file (example_world\<lparr>faker := 2\<rparr>) ''out.json''
                    (json_dumps 0 (PyList (map book_val example_books2))))
                    \<lparr>stdout := stdout example_world @ saved_msg ''out.json'' @ [NL]\<rparr>) ''out.json'' = Some t \<and>
     json_loads t = Some v \<and> spec_output example_conf ((example_args 2 2 150)\<lparr>output_arg := JsonOut ''out.json'' 0\<rparr>) v"
  by (rule main_json_refines_spec [OF example_main_json]) simp


text \<open>
  C37. Liveness of the generator object: when both list files are good and the
  random stream fair, the generator never stops of its own accord. For every
  \<open>n\<close> it reaches, by \<open>n\<close> yields, a state whose next \<open>next()\<close> yields
  another book (\<open>generate_book\<close> is the infinite sequence the specification
  describes).
\<close>

theorem gen_always_yields:
  "sources_ok cf w0 \<Longrightarrow> \<exists>s b s'. gen_reach cf fk a w0 n s \<and> gen_step cf fk a s (Inr b) s'"
proof -
  assume "sources_ok cf w0"
  then obtain g w where r: "gen_reach cf fk a w0 n (g, w)" and "g \<noteq> GenClosed" "sources_ok cf w"
    using gen_reach_open by blast
  then obtain b g' w' where "gen_next cf fk a g w = Some (Inr (b, g'), w')"
    using gen_next_ends by blast
  with r show ?thesis by (blast intro: gen_step.yield)
qed

theorem gen_always_yields_witness:
  "sources_ok example_conf example_world \<and>
   (\<exists>s b s'. gen_reach example_conf example_faker (example_args 3 (-1) (-1)) example_world 100 s \<and>
      gen_step example_conf example_faker (example_args 3 (-1) (-1)) s (Inr b) s')"
  using example_sources_ok gen_always_yields [OF example_sources_ok] by blast


text \<open>
  C38. CSV round trip: with a one-character separator \<open>-v\<close> other than the
  quote and the line breaks, the default line separator \<open>-l '\n'\<close>, and a
  model name on one line, the file the \<open>csv\<close> branch of \<open>main\<close> writes reads
  back with \<open>csv.reader(open(path), delimiter=v)\<close> as exactly the rows
  \<open>writerow\<close> was given, three per book in order, when no field is over the
  reader's size limit. The \<open>fields\<close> row survives although its text is full of
  separators and quotes: \<open>QUOTE_MINIMAL\<close> quotes it and doubles its quotes.
\<close>

theorem main_csv_reads_back:
  "generate_books cf fk a w = Some (Inr bs, w1) \<Longrightarrow> main_output a bs w1 = Some (Inr (), w') \<Longrightarrow>
   output_arg a = CsvOut fn [d] [NL] \<Longrightarrow> csv_delim_ok d \<Longrightarrow> csv_field_ok (MODEL cf) \<Longrightarrow>
   list_all (\<lambda>b. length (str_int (pk b)) \<le> csv_field_limit \<and>
                 length (py_repr (PyDict (fields_items (bfields b)))) \<le> csv_field_limit) bs \<Longrightarrow>
   \<exists>t. files w' fn = Some t \<and>
       csv_reader d t = Some (concat (map (\<lambda>b. [[''model'', model b], [''pk'', str_int (pk b)],
                                                [''fields'', py_repr (PyDict (fields_items (bfields b)))]]) bs))"
proof -
  assume gen: "generate_books cf fk a w = Some (Inr bs, w1)" and mo: "main_output a bs w1 = Some (Inr (), w')"
    and out: "output_arg a = CsvOut fn [d] [NL]" and d: "csv_delim_ok d" and m: "csv_field_ok (MODEL cf)"
    and lim: "list_all (\<lambda>b. length (str_int (pk b)) \<le> csv_field_limit \<and>
                            length (py_repr (PyDict (fields_items (bfields b)))) \<le> csv_field_limit) bs"
  from mo out have wr: "files w' fn = Some (csv_text d [NL] (map book_items bs))"
    by (auto simp: main_output_csv split: if_splits)
  have keys: "csv_field_ok ''model''" "csv_field_ok ''pk''" "csv_field_ok ''fields''"
    by (simp_all add: csv_field_ok_def NL_def CR_def csv_field_limit_def)
  have "\<forall>b\<in>set bs. model b = MODEL cf" using generate_books_Inr [OF gen] by blast
  then have "list_all (list_all csv_field_ok) (concat (map (\<lambda>b. [[''model'', model b], [''pk'', str_int (pk b)],
                                               [''fields'', py_repr (PyDict (fields_items (bfields b)))]]) bs))"
    using m lim keys by (auto simp: list_all_iff csv_field_ok_repr csv_field_ok_str_int simp del: py_repr.simps)
  then show ?thesis using wr by (simp add: csv_text_rows csv_reader_rows [OF d])
qed

theorem main_csv_reads_back_witness:
  "\<exists>t. files ((set_file (example_world\<lparr>faker := 2\<rparr>) ''out.csv'' (csv_text (CHR '','') [NL] (map book_items example_books2)))
                   \<lparr>stdout := stdout example_world @ saved_msg ''out.csv'' @ [NL]\<rparr>) ''out.csv'' = Some t \<and>
       csv_reader CHR '','' t = Some (concat (map (\<lambda>b. [[''model'', model b], [''pk'', str_int (pk b)],
                                        [''fields'', py_repr (PyDict (fields_items (bfields b)))]]) example_books2))"
proof -
  have mo: "main_output ((example_args 2 2 150)\<lparr>output_arg := CsvOut ''out.csv'' '','' [NL]\<rparr>) example_books2
              (example_world\<lparr>faker := 2\<rparr>) =
            Some (Inr (), (set_file (example_world\<lparr>faker := 2\<rparr>) ''out.csv'' (csv_text (CHR '','') [NL] (map book_items example_books2)))
                   \<lparr>stdout := stdout example_world @ saved_msg ''out.csv'' @ [NL]\<rparr>)"
    by (simp add: main_output_csv)
  have lim: "list_all (\<lambda>b. length (str_int (pk b)) \<le> csv_field_limit \<and>
                 length (py_repr (PyDict (fields_items (bfields b)))) \<le> csv_field_limit) example_books2"
    by (simp add: example_books2_def example_book_def fields_items_def csv_field_limit_def repr_str_def
        repr_quote_def repr_char_def py_isprintable_def NL_def CR_def str_int_def repr_cents_def Let_def
        str_nat.simps decimal_digits_def numeral_2_eq_2)
  show ?thesis
    using main_csv_reads_back [OF example_run_output mo _ _ _ lim]
    by (simp add: csv_delim_ok_def csv_field_ok_def example_conf_def NL_def CR_def csv_field_limit_def)
qed

end
